(* ===== verification/Prelude.thy ===== *)
theory Prelude
  imports Main "HOL-Library.Word" "HOL-Library.Sublist" "HOL-Library.Signed_Division"
begin

text \<open>
  What every component of the development shares: the machine types, the C library functions on
  strings and integers that the firmware calls, and the generic lemmas and fact collections the
  component proofs use.

  A C string is modelled by the list of its characters up to the terminating NUL, so a
  \<^typ>\<open>string\<close> of the model never needs to hold the character 0.  A pointer into a string is the
  suffix it points to.  The ESP32 is a 32-bit machine: \<open>size_t\<close> is a 32-bit word and wraps around,
  \<open>int\<close> values are mathematical integers wherever no operation of the code can overflow them.
\<close>

unbundle bit_operations_syntax

section \<open>Machine types\<close>

type_synonym u8 = "8 word"
type_synonym size_t = "32 word"
type_synonym esp_err_t = int

text \<open>The two status codes of ESP-IDF whose values the code relies on (success is zero).\<close>

abbreviation (input) ESP_OK :: esp_err_t where "ESP_OK \<equiv> 0"
abbreviation (input) ESP_FAIL :: esp_err_t where "ESP_FAIL \<equiv> -1"

text \<open>FreeRTOS runs at 1000 ticks a second (sdkconfig), so a tick is one millisecond.\<close>

abbreviation (input) portTICK_PERIOD_MS :: nat where "portTICK_PERIOD_MS \<equiv> 1"

named_theorems c_string \<open>laws of the C string functions\<close>
named_theorems io_simps \<open>what the output operations do to each field of the runtime state\<close>
named_theorems bus_simps \<open>what the register operations do to each field of a bus\<close>

section \<open>Characters and strings\<close>

definition isspace :: "char \<Rightarrow> bool" where
  "isspace c \<longleftrightarrow> c \<in> {CHR '' '', CHR 0x09, CHR 0x0A, CHR 0x0B, CHR 0x0C, CHR 0x0D}"

text \<open>\<open>strchr\<close> returns a pointer to the first occurrence: the suffix that starts there.\<close>

definition strchr :: "string \<Rightarrow> char \<Rightarrow> string option" where
  "strchr s c = (case dropWhile (\<lambda>x. x \<noteq> c) s of [] \<Rightarrow> None | t \<Rightarrow> Some t)"

text \<open>\<open>strstr\<close> as a test: does the needle occur anywhere in the string?\<close>

fun strstr :: "string \<Rightarrow> string \<Rightarrow> bool" where
  "strstr [] p = (p = [])"
| "strstr (c # s) p = (prefix p (c # s) \<or> strstr s p)"

lemma strchr_append [c_string]:
  "c \<notin> set u \<Longrightarrow> strchr (u @ c # t) c = Some (c # t)"
  by (induction u) (auto simp: strchr_def)

lemma strchr_None [c_string]: "strchr s c = None \<longleftrightarrow> c \<notin> set s"
  by (induction s) (auto simp: strchr_def)

lemma strchr_Some:
  assumes "strchr s c = Some t"
  obtains u v where "s = u @ c # v" and "c \<notin> set u" and "t = c # v"
proof -
  from assms have "c \<in> set s" using strchr_None [of s c] by auto
  then obtain u v where uv: "s = u @ c # v" "c \<notin> set u" by (meson split_list_first)
  with assms have "t = c # v" by (simp add: strchr_append)
  with uv show thesis by (rule that)
qed

lemma strstr_sublist: "strstr s p \<longleftrightarrow> sublist p s"
  by (induction s) (auto simp: sublist_Cons_right)

lemma strstr_append: "strstr (u @ p @ v) p"
  by (simp add: strstr_sublist)

section \<open>Printing integers\<close>

text \<open>The \<open>%d\<close> conversion of \<open>printf\<close>.\<close>

fun dec_digits :: "nat \<Rightarrow> string" where
  "dec_digits n =
     (if n < 10 then [char_of (48 + n)] else dec_digits (n div 10) @ [char_of (48 + n mod 10)])"

declare dec_digits.simps [simp del]

definition show_d :: "int \<Rightarrow> string" where
  "show_d i = (if i < 0 then ''-'' @ dec_digits (nat (- i)) else dec_digits (nat i))"

lemma dec_digits_nonempty [simp]: "dec_digits n \<noteq> []"
  by (subst dec_digits.simps) simp

lemma length_dec_digits: "n < 10 ^ k \<Longrightarrow> 0 < k \<Longrightarrow> length (dec_digits n) \<le> k"
proof (induction k arbitrary: n)
  case 0
  then show ?case by simp
next
  case (Suc k)
  show ?case
  proof (cases "n < 10")
    case True
    then show ?thesis by (subst dec_digits.simps) simp
  next
    case False
    with Suc.prems(1) have "0 < k" by (cases k) auto
    moreover from Suc.prems(1) have "n div 10 < 10 ^ k" by auto
    ultimately have "length (dec_digits (n div 10)) \<le> k" by (rule Suc.IH [rotated])
    with False show ?thesis by (subst dec_digits.simps) simp
  qed
qed

lemma length_show_d: "0 \<le> i \<Longrightarrow> i < 10 ^ k \<Longrightarrow> 0 < k \<Longrightarrow> length (show_d i) \<le> k"
  by (auto simp: show_d_def intro!: length_dec_digits simp: nat_less_iff)

text \<open>The \<open>%x\<close> conversion: the value as an unsigned 32-bit integer, in lower-case hexadecimal.\<close>

definition hex_char :: "nat \<Rightarrow> char" where
  "hex_char d = (if d < 10 then char_of (48 + d) else char_of (87 + d))"

fun hex_digits :: "nat \<Rightarrow> string" where
  "hex_digits n =
     (if n < 16 then [hex_char n] else hex_digits (n div 16) @ [hex_char (n mod 16)])"

declare hex_digits.simps [simp del]

definition show_x :: "int \<Rightarrow> string" where
  "show_x i = hex_digits (nat (i mod 2 ^ 32))"

text \<open>
  \<open>snprintf (buf, n, \<dots>)\<close> leaves in \<open>buf\<close> the C string of the first \<open>n - 1\<close> characters.
\<close>

definition snprintf_str :: "nat \<Rightarrow> string \<Rightarrow> string" where
  "snprintf_str n s = take (n - 1) s"

lemma length_snprintf_str: "length (snprintf_str n s) \<le> n - 1"
  by (simp add: snprintf_str_def)

lemma snprintf_str_fits [simp]: "length s < n \<Longrightarrow> snprintf_str n s = s"
  by (simp add: snprintf_str_def)

section \<open>Bytes\<close>

text \<open>A byte of a buffer and the character with the same code.\<close>

definition byte_of_char :: "char \<Rightarrow> u8" where
  "byte_of_char c = of_nat (of_char c)"

definition char_of_byte :: "u8 \<Rightarrow> char" where
  "char_of_byte b = char_of (unat b)"

definition bytes_of_string :: "string \<Rightarrow> u8 list" where
  "bytes_of_string s = map byte_of_char s"

definition string_of_bytes :: "u8 list \<Rightarrow> string" where
  "string_of_bytes bs = map char_of_byte bs"

lemma of_char_less [simp]: "(of_char c :: nat) < 256"
  using of_char_mod_256 [of c, where ?'a = nat] by (metis mod_less_divisor zero_less_numeral)

lemma char_of_byte_of_char [simp]: "char_of_byte (byte_of_char c) = c"
  by (simp add: char_of_byte_def byte_of_char_def unat_of_nat)

lemma byte_of_char_of_byte [simp]: "byte_of_char (char_of_byte b) = b"
proof -
  have "unat b < 2 ^ LENGTH(8)" by (rule unsigned_less)
  then show ?thesis by (simp add: char_of_byte_def byte_of_char_def)
qed

lemma string_of_bytes_of_string [simp]: "string_of_bytes (bytes_of_string s) = s"
  by (simp add: string_of_bytes_def bytes_of_string_def o_def)

lemma length_bytes_of_string [simp]: "length (bytes_of_string s) = length s"
  by (simp add: bytes_of_string_def)

section \<open>Integers\<close>

text \<open>C division truncates towards zero; \<^const>\<open>signed_divide\<close> does the same on \<^typ>\<open>int\<close>.\<close>

definition cdiv :: "int \<Rightarrow> int \<Rightarrow> int" where
  "cdiv a b = a sdiv b"

lemma cdiv_nonneg: "0 \<le> a \<Longrightarrow> 0 < b \<Longrightarrow> cdiv a b = a div b"
  by (cases "a = 0") (simp_all add: cdiv_def signed_divide_int_def)

text \<open>A difference of two \<open>size_t\<close> values wraps around when it would be negative.\<close>

definition size_diff :: "nat \<Rightarrow> nat \<Rightarrow> size_t" where
  "size_diff a b = of_nat a - of_nat b"

lemma unat_size_diff:
  assumes "a < 2 ^ 32" and "b < 2 ^ 32"
  shows "unat (size_diff a b) = (if b \<le> a then a - b else 2 ^ 32 + a - b)"
proof (cases "b \<le> a")
  case True
  then have "(of_nat (a - b) :: size_t) = of_nat a - of_nat b" by (rule of_nat_diff)
  with True assms show ?thesis by (simp add: size_diff_def unat_of_nat flip: of_nat_diff)
next
  case False
  have "(2 ^ 32 :: size_t) = 0" by simp
  then have "(of_nat a - of_nat b :: size_t) = of_nat (2 ^ 32 + a - b)"
    using False assms by (simp add: of_nat_diff)
  moreover have "2 ^ 32 + a - b < 2 ^ 32" using False by simp
  ultimately show ?thesis using False by (simp add: size_diff_def unat_of_nat)
qed

text \<open>
  The test \<open>0 < len && len <= n\<close> on such a difference: it holds exactly when the difference is
  positive and at most \<open>n\<close>, since a negative one wraps around to a huge value.
\<close>

lemma size_diff_between:
  assumes "a < 2 ^ 32" and "b < 2 ^ 31" and "n < 2 ^ 31"
  shows "0 < size_diff a b \<and> size_diff a b \<le> of_nat n \<longleftrightarrow> b < a \<and> a \<le> b + n"
proof -
  have n: "unat (of_nat n :: size_t) = n" using assms(3) by (simp add: unat_of_nat)
  have u: "unat (size_diff a b) = (if b \<le> a then a - b else 2 ^ 32 + a - b)"
    using assms by (intro unat_size_diff) simp_all
  have "0 < size_diff a b \<longleftrightarrow> 0 < unat (size_diff a b)" by (simp add: word_less_nat_alt)
  moreover have "size_diff a b \<le> of_nat n \<longleftrightarrow> unat (size_diff a b) \<le> n"
    by (simp add: word_le_nat_alt n)
  ultimately show ?thesis using u assms by auto
qed

section \<open>Lists\<close>

lemma take_map_nth_fun: "n \<le> length xs \<Longrightarrow> map (\<lambda>i. xs ! i) [0..<n] = take n xs"
  by (simp add: list_eq_iff_nth_eq)

lemma drop_take_split: "a \<le> length xs \<Longrightarrow> take a xs @ take n (drop a xs) = take (a + n) xs"
  by (simp add: take_add)

end
