(* ===== verification/Platform.thy ===== *)
theory Platform
  imports Prelude
begin

text \<open>
  The run-time state every component of the firmware shares: the standard output (the UART the
  host listens to), the C heap, the time spent in \<open>vTaskDelay\<close>.

  Memory the code does not initialise (a fresh block of \<open>malloc\<close>, an automatic array) holds
  arbitrary bytes: \<open>h_init\<close> and \<open>stack_junk\<close> are unconstrained functions, so a theorem about a
  function that reads such memory holds whatever the memory holds.  Whether the k-th allocation
  of a run succeeds is given by \<open>h_ok\<close>, so every path with a failing \<open>malloc\<close> is in the model.
  \<open>h_fault\<close> records a \<open>free\<close> of a block that is not live.
\<close>

section \<open>The heap\<close>

record heap =
  h_next :: nat
  h_live :: "nat set"
  h_fault :: bool
  h_ok :: "nat \<Rightarrow> bool"
  h_init :: "nat \<Rightarrow> nat \<Rightarrow> u8"

definition malloc :: "heap \<Rightarrow> nat option \<times> heap" where
  "malloc h =
     (if h_ok h (h_next h)
      then (Some (h_next h), h\<lparr>h_next := Suc (h_next h), h_live := insert (h_next h) (h_live h)\<rparr>)
      else (None, h\<lparr>h_next := Suc (h_next h)\<rparr>))"

definition release :: "nat \<Rightarrow> heap \<Rightarrow> heap" where
  "release p h =
     (if p \<in> h_live h then h\<lparr>h_live := h_live h - {p}\<rparr> else h\<lparr>h_fault := True\<rparr>)"

text \<open>\<open>free (NULL)\<close> does nothing.\<close>

definition free_opt :: "nat option \<Rightarrow> heap \<Rightarrow> heap" where
  "free_opt q h = (case q of None \<Rightarrow> h | Some p \<Rightarrow> release p h)"

text \<open>What a fresh block of \<open>n\<close> bytes with the number \<open>p\<close> holds.\<close>

definition fresh_block :: "heap \<Rightarrow> nat \<Rightarrow> nat \<Rightarrow> u8 list" where
  "fresh_block h p n = map (h_init h p) [0..<n]"

definition heap_wf :: "heap \<Rightarrow> bool" where
  "heap_wf h \<longleftrightarrow> (\<forall>p \<in> h_live h. p < h_next h)"

section \<open>The allocator interface\<close>

text \<open>
  What the clients of the heap rely on: a block that is handed out is new, it stays live until
  it is released, and releasing a live block is no fault.
\<close>

locale allocator =
  fixes alloc :: "'h \<Rightarrow> nat option \<times> 'h"
    and free :: "nat \<Rightarrow> 'h \<Rightarrow> 'h"
    and live :: "'h \<Rightarrow> nat set"
    and fault :: "'h \<Rightarrow> bool"
    and wf :: "'h \<Rightarrow> bool"
  assumes alloc_wf: "wf h \<Longrightarrow> alloc h = (q, h') \<Longrightarrow> wf h'"
    and alloc_fresh: "wf h \<Longrightarrow> alloc h = (Some p, h') \<Longrightarrow> p \<notin> live h"
    and alloc_live: "alloc h = (Some p, h') \<Longrightarrow> live h' = insert p (live h)"
    and alloc_none: "alloc h = (None, h') \<Longrightarrow> live h' = live h"
    and alloc_fault: "alloc h = (q, h') \<Longrightarrow> fault h' = fault h"
    and free_live: "p \<in> live h \<Longrightarrow> live (free p h) = live h - {p}"
    and free_fault: "p \<in> live h \<Longrightarrow> fault (free p h) = fault h"
    and free_wf: "wf h \<Longrightarrow> wf (free p h)"
begin

text \<open>Allocating a block and releasing it leaves the set of live blocks and the fault flag.\<close>

lemma bracket:
  assumes "wf h" and "alloc h = (Some p, h')"
  shows "live (free p h') = live h" and "fault (free p h') = fault h" and "wf (free p h')"
proof -
  have p: "p \<notin> live h" using assms by (rule alloc_fresh)
  have l: "live h' = insert p (live h)" using assms(2) by (rule alloc_live)
  then have "p \<in> live h'" by simp
  then show "live (free p h') = live h" and "fault (free p h') = fault h"
    using p l assms(2) by (auto simp: free_live free_fault alloc_fault)
  show "wf (free p h')" using assms by (blast intro: free_wf alloc_wf)
qed

text \<open>
  \<open>owned L f ps h\<close>: besides the blocks of \<open>L\<close> exactly the blocks of the list \<open>ps\<close> are live, each
  once, and the fault flag is \<open>f\<close>.  A function that starts and ends with \<open>owned L f []\<close> releases
  everything it allocates.
\<close>

definition owned :: "nat set \<Rightarrow> bool \<Rightarrow> nat list \<Rightarrow> 'h \<Rightarrow> bool" where
  "owned L f ps h \<longleftrightarrow>
     live h = L \<union> set ps \<and> distinct ps \<and> set ps \<inter> L = {} \<and> fault h = f \<and> wf h"

lemma owned_start: "wf h \<Longrightarrow> owned (live h) (fault h) [] h"
  by (simp add: owned_def)

lemma owned_alloc: "owned L f ps h \<Longrightarrow> alloc h = (Some p, h') \<Longrightarrow> owned L f (p # ps) h'"
  using alloc_fresh alloc_live alloc_fault alloc_wf by (auto simp: owned_def) blast+

lemma owned_alloc_none: "owned L f ps h \<Longrightarrow> alloc h = (None, h') \<Longrightarrow> owned L f ps h'"
  using alloc_none alloc_fault alloc_wf by (auto simp: owned_def)

lemma owned_free: "owned L f ps h \<Longrightarrow> p \<in> set ps \<Longrightarrow> owned L f (remove1 p ps) (free p h)"
  using free_live free_fault free_wf by (auto simp: owned_def)

lemma owned_end: "owned L f [] h \<Longrightarrow> live h = L \<and> fault h = f"
  by (simp add: owned_def)

text \<open>Two blocks from successive allocations are different.\<close>

lemma alloc_distinct:
  assumes "wf h" and "alloc h = (Some p, h1)" and "alloc h1 = (Some q, h2)"
  shows "p \<noteq> q"
  using alloc_fresh [OF alloc_wf [OF assms(1,2)] assms(3)] alloc_live [OF assms(2)] by auto

end

interpretation hp: allocator malloc release h_live h_fault heap_wf
  by unfold_locales (auto simp: malloc_def release_def heap_wf_def split: if_splits)

lemma malloc_next [simp]: "h_next (snd (malloc h)) = Suc (h_next h)"
  by (simp add: malloc_def)

lemma malloc_env [simp]:
  "h_ok (snd (malloc h)) = h_ok h" "h_init (snd (malloc h)) = h_init h"
  by (simp_all add: malloc_def)

lemma malloc_fst: "fst (malloc h) = (if h_ok h (h_next h) then Some (h_next h) else None)"
  by (simp add: malloc_def)

lemma release_env [simp]:
  "h_next (release p h) = h_next h" "h_ok (release p h) = h_ok h" "h_init (release p h) = h_init h"
  by (simp_all add: release_def)

lemma free_opt_env [simp]:
  "h_next (free_opt q h) = h_next h" "h_ok (free_opt q h) = h_ok h"
  "h_init (free_opt q h) = h_init h"
  by (simp_all add: free_opt_def split: option.splits)

section \<open>Output, delays\<close>

text \<open>One item for each call of \<open>printf\<close> (a text) and of \<open>fwrite\<close> (a block of bytes).\<close>

datatype out_item = Text string | Bytes "u8 list"

record io =
  stdout :: "out_item list"
  heap :: heap
  clock :: nat
  stack_junk :: "nat \<Rightarrow> nat \<Rightarrow> u8"

definition printf :: "string \<Rightarrow> 'a io_scheme \<Rightarrow> 'a io_scheme" where
  "printf t s = s\<lparr>stdout := stdout s @ [Text t]\<rparr>"

definition fwrite :: "u8 list \<Rightarrow> 'a io_scheme \<Rightarrow> 'a io_scheme" where
  "fwrite bs s = s\<lparr>stdout := stdout s @ [Bytes bs]\<rparr>"

definition vTaskDelay :: "nat \<Rightarrow> 'a io_scheme \<Rightarrow> 'a io_scheme" where
  "vTaskDelay n s = s\<lparr>clock := clock s + n\<rparr>"

text \<open>Allocation and release on the whole state.\<close>

definition io_malloc :: "'a io_scheme \<Rightarrow> nat option \<times> 'a io_scheme" where
  "io_malloc s = (case malloc (heap s) of (q, h) \<Rightarrow> (q, s\<lparr>heap := h\<rparr>))"

definition io_free :: "nat option \<Rightarrow> 'a io_scheme \<Rightarrow> 'a io_scheme" where
  "io_free q s = s\<lparr>heap := free_opt q (heap s)\<rparr>"

text \<open>The bytes an automatic array holds on entry to the function that declares it.\<close>

definition auto_junk :: "'a io_scheme \<Rightarrow> nat \<Rightarrow> u8" where
  "auto_junk s = stack_junk s (h_next (heap s))"

definition newline :: string where "newline = [CHR 0x0A]"

lemma printf_simps [io_simps]:
  "stdout (printf t s) = stdout s @ [Text t]" "heap (printf t s) = heap s"
  "clock (printf t s) = clock s" "stack_junk (printf t s) = stack_junk s"
  "io.more (printf t s) = io.more s"
  by (simp_all add: printf_def)

lemma fwrite_simps [io_simps]:
  "stdout (fwrite bs s) = stdout s @ [Bytes bs]" "heap (fwrite bs s) = heap s"
  "clock (fwrite bs s) = clock s" "stack_junk (fwrite bs s) = stack_junk s"
  "io.more (fwrite bs s) = io.more s"
  by (simp_all add: fwrite_def)

lemma vTaskDelay_simps [io_simps]:
  "stdout (vTaskDelay n s) = stdout s" "heap (vTaskDelay n s) = heap s"
  "clock (vTaskDelay n s) = clock s + n" "stack_junk (vTaskDelay n s) = stack_junk s"
  "io.more (vTaskDelay n s) = io.more s"
  by (simp_all add: vTaskDelay_def)

lemma io_malloc_simps [io_simps]:
  "stdout (snd (io_malloc s)) = stdout s" "clock (snd (io_malloc s)) = clock s"
  "stack_junk (snd (io_malloc s)) = stack_junk s" "io.more (snd (io_malloc s)) = io.more s"
  "heap (snd (io_malloc s)) = snd (malloc (heap s))" "fst (io_malloc s) = fst (malloc (heap s))"
  by (simp_all add: io_malloc_def split: prod.splits)

lemma io_free_simps [io_simps]:
  "stdout (io_free q s) = stdout s" "clock (io_free q s) = clock s"
  "stack_junk (io_free q s) = stack_junk s" "io.more (io_free q s) = io.more s"
  "heap (io_free q s) = free_opt q (heap s)"
  by (simp_all add: io_free_def)

text \<open>The same bracket on the whole state, for a block that is released through its pointer.\<close>

lemma io_bracket:
  assumes "heap_wf (heap s)"
  shows "h_live (free_opt (fst (malloc (heap s))) (snd (malloc (heap s)))) = h_live (heap s)"
    and "h_fault (free_opt (fst (malloc (heap s))) (snd (malloc (heap s)))) = h_fault (heap s)"
    and "heap_wf (free_opt (fst (malloc (heap s))) (snd (malloc (heap s))))"
proof -
  obtain q h' where m: "malloc (heap s) = (q, h')" by (cases "malloc (heap s)")
  show "h_live (free_opt (fst (malloc (heap s))) (snd (malloc (heap s)))) = h_live (heap s)"
    "h_fault (free_opt (fst (malloc (heap s))) (snd (malloc (heap s)))) = h_fault (heap s)"
    "heap_wf (free_opt (fst (malloc (heap s))) (snd (malloc (heap s))))"
    using m hp.bracket [OF assms] hp.alloc_none hp.alloc_fault hp.alloc_wf [OF assms]
    by (cases q; fastforce simp: free_opt_def)+
qed

section \<open>How a handler ends\<close>

text \<open>
  A handler returns, restarts the chip, never returns, or does something the C language leaves
  undefined: it dereferences a null pointer, leaves the bounds of an object or uses a block that is
  not live.
\<close>

datatype crash = Null_deref | Out_of_bounds | Use_after_free

datatype 's run = Done 's | Restart 's | Hang | Crash crash

section \<open>The GPIO driver\<close>

text \<open>
  The two functions of the GPIO driver of ESP-IDF that the firmware calls, over an unknown state
  \<open>'w\<close> of the outside world.  Every pin the firmware configures is an output.
\<close>

record gpio_config_t =
  gc_pin :: nat
  gc_output :: bool

record 'w gpio_api =
  gpio_config :: "gpio_config_t \<Rightarrow> 'w \<Rightarrow> 'w"
  gpio_set_level :: "nat \<Rightarrow> nat \<Rightarrow> 'w \<Rightarrow> 'w"

end
