(* ===== verification/Result_Out.thy ===== *)
theory Result_Out
  imports Platform
begin

text \<open>
  The result channel to the host (main/result\_out.c): one result line per call of
  \<open>out_print_result\<close>, numbered 40-byte-headed frames of recorded audio by \<open>out_print_data\<close>,
  the slicing of a whole recording into frames of 512 bytes by \<open>data_out_exec\<close>, the end mark
  and the reset of the frame counter by \<open>out_print_data_ctl\<close>.
\<close>

definition SUCCESS :: int where "SUCCESS = 0"
definition FAILED :: int where "FAILED = 1"
definition UART_OUT_SIZE :: nat where "UART_OUT_SIZE = 512"
definition RECORDER_HEAD :: nat where "RECORDER_HEAD = 40"

text \<open>The module's own state: the frame counter.\<close>

record sys = io +
  g_idx :: int

text \<open>The state at reset, with a heap that never runs out: the starting point of the examples.\<close>

definition sys0 :: sys where
  "sys0 = \<lparr>stdout = [],
     heap = \<lparr>h_next = 0, h_live = {}, h_fault = False, h_ok = \<lambda>_. True, h_init = \<lambda>_ _. 0\<rparr>,
     clock = 0, stack_junk = \<lambda>_ _. 0, g_idx = 0\<rparr>"

lemma sys0_simps [simp]:
  "stdout sys0 = []" "heap_wf (heap sys0)" "h_ok (heap sys0) k" "h_live (heap sys0) = {}"
  "h_fault (heap sys0) = False" "h_next (heap sys0) = 0" "g_idx sys0 = 0" "clock sys0 = 0"
  by (simp_all add: sys0_def heap_wf_def)

section \<open>Result lines\<close>

definition result_line :: "string \<Rightarrow> int \<Rightarrow> string \<Rightarrow> string" where
  "result_line test_case code error_string =
     (let result = (if code = SUCCESS then ''success'' else ''error'')
      in test_case @ '' '' @ result @ '' '' @ error_string @ newline)"

definition out_print_result :: "string \<Rightarrow> int \<Rightarrow> string \<Rightarrow> 'a io_scheme \<Rightarrow> 'a io_scheme" where
  "out_print_result test_case code error_string s =
     printf (result_line test_case code error_string) s"

lemma out_print_result_simps [io_simps]:
  "stdout (out_print_result t c e s) = stdout s @ [Text (result_line t c e)]"
  "heap (out_print_result t c e s) = heap s" "clock (out_print_result t c e s) = clock s"
  "stack_junk (out_print_result t c e s) = stack_junk s"
  "io.more (out_print_result t c e s) = io.more s"
  by (simp_all add: out_print_result_def io_simps)

section \<open>Frames\<close>

text \<open>
  The header: \<open>snprintf\<close> writes its text, cut to 39 characters, and a NUL into an automatic array
  of 40 bytes whose other bytes keep what they held.
\<close>

definition frame_head :: "string \<Rightarrow> nat \<Rightarrow> int \<Rightarrow> (nat \<Rightarrow> u8) \<Rightarrow> u8 list" where
  "frame_head test_case len idx junk =
     (let t = snprintf_str RECORDER_HEAD
                (test_case @ ''record '' @ show_d (int len) @ '' '' @ show_d idx @ '' '')
      in bytes_of_string t @ [0] @ map junk [Suc (length t)..<RECORDER_HEAD])"

definition frame :: "string \<Rightarrow> int \<Rightarrow> (nat \<Rightarrow> u8) \<Rightarrow> u8 list \<Rightarrow> u8 list" where
  "frame test_case idx junk data =
     frame_head test_case (length data) idx junk @ data @ [byte_of_char (CHR 0x0A)]"

definition out_print_data :: "string \<Rightarrow> u8 list \<Rightarrow> sys \<Rightarrow> sys" where
  "out_print_data test_case data s =
     (let idx = g_idx s;
          head = frame_head test_case (length data) idx (auto_junk s);
          s = s\<lparr>g_idx := idx + 1\<rparr>;
          (proto_data, s) = io_malloc s
      in case proto_data of
           None \<Rightarrow> printf (newline @ ''[cgf] Failed to malloc memory'' @ newline) s
         | Some p \<Rightarrow>
             io_free (Some p) (fwrite (head @ data @ [byte_of_char (CHR 0x0A)]) s))"

text \<open>
  The slicing loop: \<open>pcm_length\<close> counts the bytes sent, \<open>length data\<close> is the length argument.
\<close>

function data_out_loop :: "string \<Rightarrow> u8 list \<Rightarrow> nat \<Rightarrow> sys \<Rightarrow> sys" where
  "data_out_loop test_case data pcm_length s =
     (if length data < UART_OUT_SIZE then out_print_data test_case data s
      else if pcm_length + UART_OUT_SIZE > length data then s
      else
        let s = out_print_data test_case (take UART_OUT_SIZE (drop pcm_length data)) s;
            pcm_length = pcm_length + UART_OUT_SIZE
        in if pcm_length \<ge> length data then s
           else data_out_loop test_case data pcm_length
                  (vTaskDelay (6 div portTICK_PERIOD_MS) s))"
  by pat_completeness auto
termination
  by (relation "measure (\<lambda>(t, data, n, s). length data - n)") (auto simp: UART_OUT_SIZE_def)

declare data_out_loop.simps [simp del]

definition data_out_exec :: "string \<Rightarrow> u8 list \<Rightarrow> sys \<Rightarrow> sys" where
  "data_out_exec test_case data s =
     data_out_loop test_case data 0 (printf (''data out start'' @ newline) s)"

definition out_print_data_ctl :: "string \<Rightarrow> sys \<Rightarrow> sys" where
  "out_print_data_ctl test_case s =
     (let s = s\<lparr>g_idx := 0\<rparr>;
          s = printf (''idx '' @ show_d (g_idx s) @ newline) s
      in printf (test_case @ ''record_end'' @ newline) s)"

section \<open>The frame layout\<close>

lemma length_frame_head [simp]: "length (frame_head t n i j) = RECORDER_HEAD"
  using length_snprintf_str [of RECORDER_HEAD "t @ ''record '' @ show_d (int n) @ '' '' @ show_d i @ '' ''"]
  by (simp add: frame_head_def Let_def RECORDER_HEAD_def)

lemma length_frame [simp]: "length (frame t i j d) = RECORDER_HEAD + length d + 1"
  by (simp add: frame_def)

text \<open>What the host gets back: the payload between the header and the closing newline.\<close>

definition frame_payload :: "u8 list \<Rightarrow> u8 list" where
  "frame_payload f = butlast (drop RECORDER_HEAD f)"

lemma frame_payload_frame [simp]: "frame_payload (frame t i j d) = d"
  by (simp add: frame_payload_def frame_def)

section \<open>The console\<close>

text \<open>
  Standard output ends at the UART console, which is configured (CONFIG\_NEWLIB\_STDOUT\_LINE\_ENDING\_CRLF in
  sdkconfig) to send a carriage return before every newline byte, those inside of binary data included.
\<close>

definition crlf :: "u8 list \<Rightarrow> u8 list" where
  "crlf bs = concat (map (\<lambda>b. if b = 0x0A then [0x0D, 0x0A] else [b]) bs)"

text \<open>The host takes every carriage return out again that stands before a newline.\<close>

fun uncrlf :: "u8 list \<Rightarrow> u8 list" where
  "uncrlf (a # b # bs) = (if a = 0x0D \<and> b = 0x0A then b # uncrlf bs else a # uncrlf (b # bs))"
| "uncrlf bs = bs"

lemma uncrlf_crlf [simp]: "uncrlf (crlf bs) = bs"
proof (induction bs)
  case (Cons b bs)
  have "crlf bs = [] \<and> bs = [] \<or> (\<exists>c cs. crlf bs = c # cs \<and> c \<noteq> 0x0A)" by (cases bs) (auto simp: crlf_def)
  moreover have "crlf (b # bs) = (if b = 0x0A then [0x0D, 0x0A] else [b]) @ crlf bs" by (simp add: crlf_def)
  ultimately show ?case using Cons.IH by auto
qed (simp add: crlf_def)

text \<open>
  A frame is longer on the line than it says: by one byte for every newline byte of its payload and header, and for the
  newline behind it.
\<close>

lemma length_crlf: "length (crlf bs) = length bs + count_list bs 0x0A"
  by (induction bs) (auto simp: crlf_def)

lemma frame_on_the_line:
  "length (crlf (frame t i j d)) = RECORDER_HEAD + length d + 1 + count_list (frame t i j d) 0x0A"
  by (simp add: length_crlf)

section \<open>One frame\<close>

definition oom_text :: string where
  "oom_text = newline @ ''[cgf] Failed to malloc memory'' @ newline"

text \<open>
  The item that the \<open>k\<close>-th frame from state \<open>s\<close> on puts on the output: the frame, or the
  message when its allocation fails.  The frame counter advances in both cases.
\<close>

definition frame_item :: "string \<Rightarrow> sys \<Rightarrow> nat \<Rightarrow> u8 list \<Rightarrow> out_item" where
  "frame_item t s k d =
     (let n = h_next (heap s) + k
      in if h_ok (heap s) n then Bytes (frame t (g_idx s + int k) (stack_junk s n) d)
         else Text oom_text)"

lemma io_update_g_idx [io_simps]:
  "stdout (s\<lparr>g_idx := i\<rparr>) = stdout s" "heap (s\<lparr>g_idx := i\<rparr>) = heap s"
  "clock (s\<lparr>g_idx := i\<rparr>) = clock s" "stack_junk (s\<lparr>g_idx := i\<rparr>) = stack_junk s"
  by simp_all

lemma g_idx_io_ops [io_simps]:
  "g_idx (printf t s) = g_idx s" "g_idx (fwrite bs s) = g_idx s"
  "g_idx (vTaskDelay n s) = g_idx s" "g_idx (snd (io_malloc s)) = g_idx s"
  "g_idx (io_free q s) = g_idx s" "g_idx (out_print_result c r e s) = g_idx s"
  by (simp_all add: printf_def fwrite_def vTaskDelay_def io_malloc_def io_free_def
      out_print_result_def split: prod.splits)

lemma out_print_data_heap:
  "heap (out_print_data t d s) = free_opt (fst (malloc (heap s))) (snd (malloc (heap s)))"
  by (simp add: out_print_data_def Let_def io_malloc_def io_free_def printf_def fwrite_def
      free_opt_def split: prod.splits option.splits)

lemma out_print_data_simps [io_simps]:
  "stdout (out_print_data t d s) = stdout s @ [frame_item t s 0 d]"
  "g_idx (out_print_data t d s) = g_idx s + 1"
  "clock (out_print_data t d s) = clock s"
  "stack_junk (out_print_data t d s) = stack_junk s"
  by (simp_all add: out_print_data_def Let_def io_malloc_def io_free_def printf_def fwrite_def
      frame_item_def frame_def oom_text_def auto_junk_def malloc_def
      split: prod.splits option.splits)

lemma out_print_data_env [io_simps]:
  "h_next (heap (out_print_data t d s)) = Suc (h_next (heap s))"
  "h_ok (heap (out_print_data t d s)) = h_ok (heap s)"
  "h_init (heap (out_print_data t d s)) = h_init (heap s)"
  by (simp_all add: out_print_data_heap)

lemma frame_item_step [io_simps]:
  "frame_item t (out_print_data t' d' s) k d = frame_item t s (Suc k) d"
  "frame_item t (vTaskDelay n s) k d = frame_item t s k d"
  "frame_item t (printf x s) k d = frame_item t s k d"
  by (simp_all add: frame_item_def Let_def io_simps add.assoc)

lemma out_print_data_live:
  assumes "heap_wf (heap s)"
  shows "h_live (heap (out_print_data t d s)) = h_live (heap s)"
    and "h_fault (heap (out_print_data t d s)) = h_fault (heap s)"
    and "heap_wf (heap (out_print_data t d s))"
  using io_bracket [OF assms] by (simp_all add: out_print_data_heap)

section \<open>The slicing loop\<close>

definition chunk :: "u8 list \<Rightarrow> nat \<Rightarrow> u8 list" where
  "chunk d k = take UART_OUT_SIZE (drop (UART_OUT_SIZE * k) d)"

text \<open>The chunks of a recording, put together, are its first \<open>512 * n\<close> bytes.\<close>

lemma concat_chunks: "concat (map (chunk d) [0..<n]) = take (UART_OUT_SIZE * n) d"
proof (induction n)
  case (Suc n)
  have "UART_OUT_SIZE * Suc n = UART_OUT_SIZE * n + UART_OUT_SIZE" by simp
  with Suc show ?case by (simp only: take_add) (simp add: chunk_def)
qed simp

lemma upt_shift_map: "j < n \<Longrightarrow>
  map f [0..<n - j] = f 0 # map (\<lambda>i. f (Suc i)) [0..<n - Suc j]"
proof -
  assume "j < n"
  then have "n - j = Suc (n - Suc j)" by simp
  then have "map f [0..<n - j] = map f [0..<Suc (n - Suc j)]" by simp
  also have "\<dots> = f 0 # map (\<lambda>i. f (Suc i)) [0..<n - Suc j]"
    by (subst upt_conv_Cons, simp, subst map_Suc_upt [symmetric], simp)
  finally show ?thesis .
qed

lemma data_out_loop_step:
  assumes "UART_OUT_SIZE * Suc j \<le> length d"
  shows "data_out_loop t d (UART_OUT_SIZE * j) s =
    (let s1 = out_print_data t (chunk d j) s
     in if UART_OUT_SIZE * Suc j \<ge> length d then s1
        else data_out_loop t d (UART_OUT_SIZE * Suc j) (vTaskDelay 6 s1))"
proof -
  have "\<not> length d < UART_OUT_SIZE" "\<not> length d < UART_OUT_SIZE * j + UART_OUT_SIZE"
    using assms by simp_all
  then show ?thesis
    by (subst data_out_loop.simps) (simp add: Let_def chunk_def algebra_simps)
qed

lemma data_out_loop_end:
  assumes "length d < UART_OUT_SIZE * Suc j" and "UART_OUT_SIZE \<le> length d"
  shows "data_out_loop t d (UART_OUT_SIZE * j) s = s"
  using assms by (subst data_out_loop.simps) simp

lemma data_out_loop_stdout:
  assumes "UART_OUT_SIZE \<le> length d"
  shows "stdout (data_out_loop t d (UART_OUT_SIZE * j) s) =
           stdout s @ map (\<lambda>i. frame_item t s i (chunk d (j + i))) [0..<length d div UART_OUT_SIZE - j]
       \<and> g_idx (data_out_loop t d (UART_OUT_SIZE * j) s) =
           g_idx s + int (length d div UART_OUT_SIZE - j)"
proof (induction "length d div UART_OUT_SIZE - j" arbitrary: j s)
  case 0
  then have "length d div UART_OUT_SIZE \<le> j" by simp
  then have "length d < UART_OUT_SIZE * Suc j"
    by (simp add: UART_OUT_SIZE_def)
  with assms 0 show ?case by (simp add: data_out_loop_end)
next
  case (Suc m)
  then have j: "j < length d div UART_OUT_SIZE" by simp
  then have le: "UART_OUT_SIZE * Suc j \<le> length d" by (simp add: UART_OUT_SIZE_def)
  let ?s = "vTaskDelay 6 (out_print_data t (chunk d j) s)"
  have m: "m = length d div UART_OUT_SIZE - Suc j" using Suc.hyps(2) by simp
  note up = upt_shift_map [OF j, of "\<lambda>i. frame_item t s i (chunk d (j + i))"]
  show ?case
  proof (cases "UART_OUT_SIZE * Suc j \<ge> length d")
    case True
    with le have "length d = UART_OUT_SIZE * Suc j" by simp
    then have "length d div UART_OUT_SIZE - Suc j = 0" by (simp add: UART_OUT_SIZE_def)
    with True le up j show ?thesis
      by (simp add: data_out_loop_step Let_def io_simps)
  next
    case False
    with Suc.hyps(1) [OF m, of ?s] le up j m show ?thesis
      by (simp add: data_out_loop_step Let_def io_simps)
  qed
qed

lemma data_out_loop_live:
  "heap_wf (heap s) \<Longrightarrow>
     h_live (heap (data_out_loop t d n s)) = h_live (heap s) \<and>
     h_fault (heap (data_out_loop t d n s)) = h_fault (heap s) \<and>
     heap_wf (heap (data_out_loop t d n s))"
proof (induction t d n s rule: data_out_loop.induct)
  case (1 t d n s)
  let ?s = "out_print_data t (take UART_OUT_SIZE (drop n d)) s"
  note live = out_print_data_live [OF "1.prems"]
  show ?case
  proof (cases "length d < UART_OUT_SIZE \<or> n + UART_OUT_SIZE > length d \<or>
      n + UART_OUT_SIZE \<ge> length d")
    case True
    then show ?thesis
      using "1.prems" by (subst (1 2 3) data_out_loop.simps) (auto simp: Let_def live)
  next
    case False
    then have eq: "data_out_loop t d n s = data_out_loop t d (n + UART_OUT_SIZE) (vTaskDelay 6 ?s)"
      by (subst data_out_loop.simps) (simp add: Let_def)
    from False "1.IH" [OF _ _ refl refl] live show ?thesis
      unfolding eq by (simp add: io_simps)
  qed
qed

section \<open>Properties\<close>

lemma data_out_exec_items:
  assumes "UART_OUT_SIZE \<le> length data"
  shows "stdout (data_out_exec t data s) =
           stdout s @ Text (''data out start'' @ newline) #
             map (\<lambda>k. frame_item t s k (chunk data k)) [0..<length data div UART_OUT_SIZE]
       \<and> g_idx (data_out_exec t data s) = g_idx s + int (length data div UART_OUT_SIZE)"
  using data_out_loop_stdout [OF assms, of t 0 "printf (''data out start'' @ newline) s"]
  by (simp add: data_out_exec_def io_simps)

text \<open>
  C34. A recording of at least 512 bytes is sent as exactly \<open>length div 512\<close> items after the start
  message: the k-th one is the frame that carries the k-th 512 bytes under the next frame number,
  or the out-of-memory message when its allocation fails (the frame is then lost although its
  number is spent).  The frame counter has advanced by the number of frames.
\<close>

theorem data_out_exec_frames:
  assumes "UART_OUT_SIZE \<le> length data"
  shows "stdout (data_out_exec t data s) =
           stdout s @ Text (''data out start'' @ newline) #
             map (\<lambda>k. frame_item t s k (chunk data k)) [0..<length data div UART_OUT_SIZE]
       \<and> g_idx (data_out_exec t data s) = g_idx s + int (length data div UART_OUT_SIZE)"
  by (rule data_out_exec_items [OF assms])

theorem data_out_exec_frames_witness:
  "g_idx (data_out_exec ''prod_test pa_mic '' (replicate 1100 7) sys0) = 2"
  using data_out_exec_frames [of "replicate 1100 7" "''prod_test pa_mic ''" sys0]
  by (simp add: UART_OUT_SIZE_def)

text \<open>The payload bytes of a list of output items, in order.\<close>

fun payloads :: "out_item list \<Rightarrow> u8 list" where
  "payloads [] = []"
| "payloads (Bytes f # xs) = frame_payload f @ payloads xs"
| "payloads (Text t # xs) = payloads xs"

lemma payloads_append [simp]: "payloads (xs @ ys) = payloads xs @ payloads ys"
  by (induction xs rule: payloads.induct) simp_all

lemma payloads_frame_items:
  assumes "\<forall>k. h_ok (heap s) k"
  shows "payloads (map (\<lambda>k. frame_item t s k (f k)) ks) = concat (map f ks)"
  using assms by (induction ks) (simp_all add: frame_item_def Let_def)

text \<open>
  C18. Round trip of a recording: when no allocation fails, the payloads of the frames put together
  are the recording up to its last whole 512 bytes; what is left over after the last whole frame
  is never sent.
\<close>

theorem data_out_exec_roundtrip:
  assumes "UART_OUT_SIZE \<le> length data" and "\<forall>k. h_ok (heap s) k"
    and "payloads (stdout s) = []"
  shows "payloads (stdout (data_out_exec t data s)) =
           take (UART_OUT_SIZE * (length data div UART_OUT_SIZE)) data"
  using data_out_exec_items [OF assms(1), of t s] assms(2,3)
  by (simp add: payloads_frame_items concat_chunks)

theorem data_out_exec_roundtrip_witness:
  "payloads (stdout (data_out_exec ''prod_test pa_mic '' (replicate 1100 7) sys0)) = replicate 1024 7"
  using data_out_exec_roundtrip [of "replicate 1100 7" sys0 "''prod_test pa_mic ''"]
  by (simp add: UART_OUT_SIZE_def)

text \<open>
  No block of the frame output leaks and none is released twice, on any path, the ones with a
  failing allocation included.
\<close>

lemma data_out_exec_no_leak:
  assumes "heap_wf (heap s)"
  shows "h_live (heap (data_out_exec t data s)) = h_live (heap s)
       \<and> h_fault (heap (data_out_exec t data s)) = h_fault (heap s)"
  using data_out_loop_live [of "printf (''data out start'' @ newline) s" t data 0] assms
  by (simp add: data_out_exec_def io_simps)

lemma data_out_exec_no_leak_witness:
  "h_live (heap (data_out_exec ''prod_test pa_mic '' (replicate 1100 7) sys0)) = {}"
  using data_out_exec_no_leak [of sys0 "''prod_test pa_mic ''" "replicate 1100 7"] by simp

end
