(* ===== verification/Command_Match.thy ===== *)
theory Command_Match
  imports Prelude
begin

text \<open>
  The text functions of the command monitor (main/command\_monitor.c): reading a line, trimming
  it, and the two tests that decide whether a line is a given command.  \<open>string_equal\<close> compares up
  to the end of the line only, \<open>string_content\<close> scans for the command once from left to right.
\<close>

section \<open>Reading and trimming\<close>

text \<open>
  \<open>my_getline\<close> reads characters (\<open>None\<close> is EOF) until a \<open>#\<close>, the end of input or \<open>max_size\<close>
  characters.  The character read when the buffer is already full is consumed and dropped.
  The result is what is stored before the terminating NUL, and the input that is left.
\<close>

fun my_getline :: "char option list \<Rightarrow> nat \<Rightarrow> string \<Rightarrow> string \<times> char option list" where
  "my_getline [] max_size line = (line, [])"
| "my_getline (None # inp) max_size line = (line, inp)"
| "my_getline (Some c # inp) max_size line =
     (if length line < max_size
      then let line = line @ [c] in if c = CHR ''#'' then (line, inp) else my_getline inp max_size line
      else (line, inp))"

text \<open>The index of the NUL it writes: the buffer needs one byte more than \<open>max_size\<close>.\<close>

definition getline_nul_index :: "char option list \<Rightarrow> nat \<Rightarrow> nat" where
  "getline_nul_index inp max_size = length (fst (my_getline inp max_size []))"

text \<open>
  \<open>trim_trailing_space\<close> walks backwards from the last character while it is white space; \<open>k\<close> is
  the number of characters up to and including the one \<open>end\<close> points to.
\<close>

fun trim_loop :: "string \<Rightarrow> nat \<Rightarrow> string" where
  "trim_loop str 0 = take 0 str"
| "trim_loop str (Suc k) = (if isspace (str ! k) then trim_loop str k else take (Suc k) str)"

definition trim_trailing_space :: "string \<Rightarrow> string" where
  "trim_trailing_space str = trim_loop str (length str)"

section \<open>Comparing\<close>

text \<open>
  When the target is exhausted, its terminating NUL is compared with a character of the line,
  which is never NUL, so the answer is false.
\<close>

fun string_equal :: "string \<Rightarrow> string \<Rightarrow> bool" where
  "string_equal [] target = True"
| "string_equal (c # cmdline) [] = False"
| "string_equal (c # cmdline) (t # target) = (if c \<noteq> t then False else string_equal cmdline target)"

text \<open>
  \<open>content_loop ptemp p a\<close>: \<open>a\<close> and \<open>p\<close> are the suffixes the two pointers point to, \<open>ptemp\<close> the
  whole pattern.  One step advances \<open>a\<close> whether or not the characters agree.
\<close>

fun content_loop :: "string \<Rightarrow> string \<Rightarrow> string \<Rightarrow> bool" where
  "content_loop ptemp p [] = False"
| "content_loop ptemp p (x # a) =
     (let p = (case p of [] \<Rightarrow> ptemp | y # ys \<Rightarrow> if x = y then ys else ptemp)
      in if p = [] then True else content_loop ptemp p a)"

definition string_content :: "string \<Rightarrow> string \<Rightarrow> bool" where
  "string_content a p = content_loop p p a"

section \<open>Facts about the loops\<close>

lemma string_equal_prefix: "string_equal c t = prefix c t"
  by (induction c t rule: string_equal.induct) auto

lemma trim_loop_take:
  "k \<le> length s \<Longrightarrow> trim_loop s k = rev (dropWhile isspace (rev (take k s)))"
  by (induction s k rule: trim_loop.induct) (auto simp: take_Suc_conv_app_nth)

text \<open>
  While the scan is in the middle of a match, the pattern is what was matched, \<open>q\<close>, followed by
  what is left, \<open>p\<close>.
\<close>

lemma content_loop_sound:
  "content_loop (q @ p) p a \<Longrightarrow> sublist (q @ p) (q @ a)"
proof (induction a arbitrary: q p)
  case Nil
  then show ?case by simp
next
  case (Cons x a)
  have restart: "content_loop (q @ p) (q @ p) a \<Longrightarrow> sublist (q @ p) (q @ x # a)"
    using Cons.IH [of "[]" "q @ p"] by (auto simp: sublist_def) (metis append.assoc append_Cons)
  show ?case
  proof (cases p)
    case Nil
    then show ?thesis by simp
  next
    case (Cons y ys)
    show ?thesis
    proof (cases "x = y")
      case True
      with Cons.prems Cons have "ys = [] \<or> content_loop ((q @ [x]) @ ys) ys a"
        by (auto simp: Let_def split: if_splits)
      then show ?thesis
        using Cons.IH [of "q @ [x]" ys] True Cons by auto
    next
      case False
      with Cons.prems Cons restart show ?thesis by (auto simp: Let_def split: if_splits)
    qed
  qed
qed

lemma content_loop_match: "p \<noteq> [] \<Longrightarrow> content_loop pt p (p @ v)"
proof (induction p)
  case (Cons y ys)
  then show ?case by (cases ys) (auto simp: Let_def)
qed simp

lemma content_loop_skip:
  "pt \<noteq> [] \<Longrightarrow> hd pt \<notin> set u \<Longrightarrow> content_loop pt pt (u @ a) = content_loop pt pt a"
  by (induction u) (auto simp: Let_def neq_Nil_conv)

section \<open>The matching interface\<close>

text \<open>
  What the dispatcher relies on: the equality test accepts exactly the initial segments of the
  target, the content test accepts a line that starts with the pattern and only lines that
  contain it.
\<close>

locale matcher =
  fixes equal :: "string \<Rightarrow> string \<Rightarrow> bool"
    and content :: "string \<Rightarrow> string \<Rightarrow> bool"
  assumes equal_iff: "equal c t \<longleftrightarrow> prefix c t"
    and content_start: "p \<noteq> [] \<Longrightarrow> content (p @ v) p"
    and content_sound: "content c p \<Longrightarrow> sublist p c"
begin

lemma equal_refl: "equal t t"
  by (simp add: equal_iff)

lemma equal_longer: "length t < length c \<Longrightarrow> \<not> equal c t"
  by (auto simp: equal_iff dest: prefix_length_le)

lemma equal_diverge: "i < length c \<Longrightarrow> i < length t \<Longrightarrow> c ! i \<noteq> t ! i \<Longrightarrow> \<not> equal c t"
  by (auto simp: equal_iff prefix_def nth_append)

text \<open>A line too short for the pattern, or without one of its characters, does not contain it.\<close>

lemma content_short: "length c < length p \<Longrightarrow> \<not> content c p"
  using content_sound sublist_length_le by (metis leD)

lemma content_missing: "x \<in> set p \<Longrightarrow> x \<notin> set c \<Longrightarrow> \<not> content c p"
  using content_sound set_mono_sublist by blast

text \<open>A match has a position, from which the line agrees with the pattern.\<close>

lemma content_at:
  assumes "content c p"
  obtains k where "k + length p \<le> length c" and "\<And>i. i < length p \<Longrightarrow> c ! (k + i) = p ! i"
proof -
  from content_sound [OF assms] obtain u v where c: "c = u @ p @ v" by (auto simp: sublist_def)
  show thesis
  proof (rule that [of "length u"])
    show "length u + length p \<le> length c" by (simp add: c)
    show "c ! (length u + i) = p ! i" if "i < length p" for i
      using that by (simp add: c nth_append)
  qed
qed

end

interpretation cm: matcher string_equal string_content
  by unfold_locales
    (auto simp: string_equal_prefix string_content_def
      intro: content_loop_match content_loop_sound [of "[]", simplified])

section \<open>Properties\<close>

text \<open>
  C28. \<open>string_equal\<close> is not equality: it accepts exactly the lines that are an initial segment of
  the command, so a truncated command line is taken for the full command.
\<close>

theorem string_equal_iff_prefix: "string_equal cmdline target \<longleftrightarrow> prefix cmdline target"
  by (rule string_equal_prefix)

text \<open>
  \<open>trim_trailing_space\<close> removes exactly the white space at the end of the line: the line is
  the result followed by white space only, and the result does not end in white space.
\<close>

lemma trim_trailing_space_spec:
  "\<exists>ws. str = trim_trailing_space str @ ws \<and> filter isspace ws = ws \<and>
        (case rev (trim_trailing_space str) of [] \<Rightarrow> True | c # _ \<Rightarrow> \<not> isspace c)"
proof -
  let ?t = "rev (dropWhile isspace (rev str))"
  let ?w = "rev (takeWhile isspace (rev str))"
  have t: "trim_trailing_space str = ?t"
    by (simp add: trim_trailing_space_def trim_loop_take)
  have "str = ?t @ ?w" by (metis rev_append rev_rev_ident takeWhile_dropWhile_id)
  moreover have "filter isspace ?w = ?w" by (auto simp: filter_id_conv dest: set_takeWhileD)
  moreover have "case dropWhile isspace (rev str) of [] \<Rightarrow> True | c # _ \<Rightarrow> \<not> isspace c"
    by (auto split: list.splits dest: hd_dropWhile [of isspace "rev str"])
      (metis hd_dropWhile list.discI list.sel(1))
  ultimately show ?thesis unfolding t by auto
qed

text \<open>
  \<open>string_content\<close> never claims a command that is not in the line, and finds every command
  that is preceded only by text without the command's first character.
\<close>

lemma string_content_correct:
  "(string_content a p \<longrightarrow> sublist p a) \<and>
   (p \<noteq> [] \<longrightarrow> hd p \<notin> set u \<longrightarrow> string_content (u @ p @ v) p)"
  by (auto simp: string_content_def content_loop_skip content_loop_match
      intro: content_loop_sound [of "[]", simplified])

lemma string_content_correct_witness:
  "string_content (''> '' @ ''prod_test pa_mic'' @ '' 70'') ''prod_test pa_mic''"
  using string_content_correct [of "[]" "''prod_test pa_mic''" "''> ''" "'' 70''"] by simp

text \<open>
  But the scan is not a substring search: after a failed partial match it does not go back, so
  a command that follows directly on its own first character is missed although the line contains
  it (for a command whose first two characters differ, as in every command of the tool).
\<close>

lemma string_content_misses:
  assumes "p = a # b # t" and "a \<noteq> b"
  shows "sublist p (a # p) \<and> \<not> string_content (a # p) p"
proof
  show "sublist p (a # p)" by (simp add: sublist_Cons_right)
  have "\<not> content_loop p p (b # t)"
    using content_loop_sound [of "[]" p "b # t"] sublist_length_le [of p "b # t"] assms(1) by auto
  then show "\<not> string_content (a # p) p"
    using assms by (simp add: string_content_def Let_def)
qed

lemma string_content_misses_witness:
  "\<not> string_content ''pprod_test pa_mic'' ''prod_test pa_mic''"
  using string_content_misses [of "''prod_test pa_mic''"] by simp

lemma my_getline_length:
  "length line \<le> n \<Longrightarrow> length (fst (my_getline inp n line)) \<le> n"
  by (induction inp n line rule: my_getline.induct) (auto simp: Let_def)

lemma my_getline_full:
  "length line + length cs = n \<Longrightarrow> CHR ''#'' \<notin> set cs \<Longrightarrow>
     my_getline (map Some cs @ [Some d]) n line = (line @ cs, [])"
  by (induction cs arbitrary: line) (auto simp: Let_def)

text \<open>
  \<open>my_getline\<close> never stores more than \<open>max_size\<close> characters, so its terminating NUL lands at
  index \<open>max_size\<close> at most; and a line that fills the buffer does put it there, one past the end
  of a buffer of \<open>max_size\<close> bytes.
\<close>

lemma my_getline_bound:
  "getline_nul_index inp max_size \<le> max_size \<and>
   getline_nul_index (map Some (replicate max_size CHR ''a'') @ [Some d]) max_size = max_size"
  using my_getline_full [of "[]" "replicate max_size (CHR ''a'')" max_size d]
  by (simp add: getline_nul_index_def my_getline_length)

end
