(* ===== verification/Commands.thy ===== *)
theory Commands
  imports Prelude
begin

text \<open>
  The command and result prefixes of the host protocol (main/command\_monitor.h).  Adjacent string
  literals of the header are appended.
\<close>

definition MAX_DEVICE_SN_LENGTH :: nat where "MAX_DEVICE_SN_LENGTH = 31"
definition PROFILE_PARTITION :: nat where "PROFILE_PARTITION = 0x29"

definition CMD_PRE :: string where "CMD_PRE = ''prod_test ''"
definition RESULT_PRE :: string where "RESULT_PRE = CMD_PRE"

definition CMD_TASK :: string where "CMD_TASK = CMD_PRE @ ''task''"
definition CMD_PA_MIC :: string where "CMD_PA_MIC = CMD_PRE @ ''pa_mic''"
definition CMD_DSP :: string where "CMD_DSP = CMD_PRE @ ''dsp''"
definition CMD_NOLINEAR :: string where "CMD_NOLINEAR = CMD_PRE @ ''nolinear''"
definition CMD_GET_SN :: string where "CMD_GET_SN = CMD_PRE @ ''get_sn''"
definition CMD_SET_SN :: string where "CMD_SET_SN = CMD_PRE @ ''set_sn''"
definition CMD_RST :: string where "CMD_RST = CMD_PRE @ ''reset''"
definition CMD_OFF :: string where "CMD_OFF = CMD_PRE @ ''off''"
definition CMD_FAIL :: string where "CMD_FAIL = CMD_PRE @ ''fail''"
definition CMD_INTR :: string where "CMD_INTR = CMD_PRE @ ''intr''"
definition CMD_QUIT1 :: string where "CMD_QUIT1 = CMD_PRE @ ''quit1''"
definition CMD_QUIT2 :: string where "CMD_QUIT2 = CMD_PRE @ ''quit2''"
definition CMD_PROFILE :: string where "CMD_PROFILE = CMD_PRE @ ''profile''"
definition RD_PROFIEL :: string where "RD_PROFIEL = CMD_PRE @ ''rdprof''"
definition CMD_VERSION :: string where "CMD_VERSION = CMD_PRE @ ''version''"
definition CMD_SEAL :: string where "CMD_SEAL = CMD_PRE @ ''mic_seal''"

definition RESULT_PA_MIC_DATA :: string where "RESULT_PA_MIC_DATA = RESULT_PRE @ ''pa_mic ''"
definition RESULT_TASK :: string where "RESULT_TASK = RESULT_PRE @ ''task ''"
definition RESULT_DSP :: string where "RESULT_DSP = RESULT_PRE @ ''dsp ''"
definition RESULT_NOLINEAR :: string where "RESULT_NOLINEAR = RESULT_PRE @ ''nolinear ''"
definition RESULT_GET_SN :: string where "RESULT_GET_SN = RESULT_PRE @ ''get_sn''"
definition RESULT_SET_SN :: string where "RESULT_SET_SN = RESULT_PRE @ ''set_sn''"
definition RESULT_RST_LEVEL :: string where "RESULT_RST_LEVEL = RESULT_PRE @ ''reset''"
definition RESULT_OFF_LEVEL :: string where "RESULT_OFF_LEVEL = RESULT_PRE @ ''off''"
definition RESULT_FAIL_LEVEL :: string where "RESULT_FAIL_LEVEL = RESULT_PRE @ ''fail''"
definition RESULT_INTR_LEVEL :: string where "RESULT_INTR_LEVEL = RESULT_PRE @ ''intr''"
definition RESULT_QUIT1_LEVEL :: string where "RESULT_QUIT1_LEVEL = RESULT_PRE @ ''quit1''"
definition RESULT_QUIT2_LEVEL :: string where "RESULT_QUIT2_LEVEL = RESULT_PRE @ ''quit2''"
definition RESULT_PROFILE_LEVEL :: string where "RESULT_PROFILE_LEVEL = RESULT_PRE @ ''profile''"
definition RESULT_VERSION_LEVEL :: string where "RESULT_VERSION_LEVEL = RESULT_PRE @ ''version''"
definition RESULT_SEAL :: string where "RESULT_SEAL = RESULT_PRE @ ''mic_seal ''"

lemmas cmd_defs =
  CMD_PRE_def CMD_TASK_def CMD_PA_MIC_def CMD_DSP_def CMD_NOLINEAR_def CMD_GET_SN_def
  CMD_SET_SN_def CMD_RST_def CMD_OFF_def CMD_FAIL_def CMD_INTR_def CMD_QUIT1_def CMD_QUIT2_def
  CMD_PROFILE_def RD_PROFIEL_def CMD_VERSION_def CMD_SEAL_def

lemmas result_defs =
  RESULT_PRE_def CMD_PRE_def RESULT_PA_MIC_DATA_def RESULT_TASK_def RESULT_DSP_def
  RESULT_NOLINEAR_def RESULT_GET_SN_def RESULT_SET_SN_def RESULT_RST_LEVEL_def
  RESULT_OFF_LEVEL_def RESULT_FAIL_LEVEL_def RESULT_INTR_LEVEL_def RESULT_QUIT1_LEVEL_def
  RESULT_QUIT2_LEVEL_def RESULT_PROFILE_LEVEL_def RESULT_VERSION_LEVEL_def RESULT_SEAL_def

end
