(* ===== verification/Sn_Case.thy ===== *)
theory Sn_Case
  imports Result_Out Commands
begin

text \<open>
  The serial number cases (main/case/sn\_case.c).  The NVS library of ESP-IDF is not part of the
  repository: its four functions are the fields of a record that the definitions take as a
  parameter, over an unknown state \<open>'w\<close> of the outside world.
\<close>

section \<open>The NVS interface\<close>

text \<open>
  \<open>nvs_open\<close> takes the namespace and whether it is opened for writing and yields a status and a
  handle; \<open>nvs_get_str\<close> takes the size of the buffer and yields a status and, if it wrote the
  buffer, the string it wrote.  \<open>nvs_invalid_length\<close> is the code ESP\_ERR\_NVS\_INVALID\_LENGTH.
\<close>

record 'w nvs_api =
  nvs_open :: "string \<Rightarrow> bool \<Rightarrow> 'w \<Rightarrow> (esp_err_t \<times> nat) \<times> 'w"
  nvs_get_str :: "nat \<Rightarrow> string \<Rightarrow> nat \<Rightarrow> 'w \<Rightarrow> (esp_err_t \<times> string option) \<times> 'w"
  nvs_set_str :: "nat \<Rightarrow> string \<Rightarrow> string \<Rightarrow> 'w \<Rightarrow> esp_err_t \<times> 'w"
  nvs_close :: "nat \<Rightarrow> 'w \<Rightarrow> 'w"
  nvs_invalid_length :: esp_err_t

definition NVS_DEVICE_SN_NAMESPACE :: string where
  "NVS_DEVICE_SN_NAMESPACE = ''names_bd_device''"
definition NVS_DEVICE_SN_KEY :: string where "NVS_DEVICE_SN_KEY = ''bd_device_sn''"

section \<open>The cases\<close>

definition get_sn_nvs :: "'w nvs_api \<Rightarrow> string \<Rightarrow> nat \<Rightarrow> 'w \<Rightarrow> (esp_err_t \<times> string) \<times> 'w" where
  "get_sn_nvs api outSn len w =
     (let ((ret, h), w) = nvs_open api NVS_DEVICE_SN_NAMESPACE False w
      in if ret \<noteq> ESP_OK then ((ret, outSn), w)
         else
           let ((ret, r), w) = nvs_get_str api h NVS_DEVICE_SN_KEY len w;
               w = nvs_close api h w
           in ((ret, case r of None \<Rightarrow> outSn | Some v \<Rightarrow> v), w))"

definition set_sn_nvs :: "'w nvs_api \<Rightarrow> string \<Rightarrow> sys \<times> 'w \<Rightarrow> esp_err_t \<times> sys \<times> 'w" where
  "set_sn_nvs api inputSn = (\<lambda>(s, w).
     let s = printf (''start to write sn: '' @ inputSn @ '', key: '' @ NVS_DEVICE_SN_KEY @
               '', ns: '' @ NVS_DEVICE_SN_NAMESPACE @ newline) s;
         ((ret, h), w) = nvs_open api NVS_DEVICE_SN_NAMESPACE True w
     in if ret \<noteq> ESP_OK
        then (ret, printf (''open device ns: '' @ NVS_DEVICE_SN_NAMESPACE @ '' error '' @
                show_d ret @ newline) s, w)
        else
          let (ret, w) = nvs_set_str api h NVS_DEVICE_SN_KEY inputSn w;
              s = printf (''write sn ret: '' @ show_d ret @ newline) s;
              w = nvs_close api h w
          in (ret, s, w))"

text \<open>The second component of the result is what the caller's buffer holds afterwards.\<close>

definition get_sn_case ::
  "'w nvs_api \<Rightarrow> string \<Rightarrow> nat \<Rightarrow> sys \<times> 'w \<Rightarrow> (esp_err_t \<times> string) \<times> sys \<times> 'w" where
  "get_sn_case api deviceSn len = (\<lambda>(s, w).
     let ((ret, deviceSn), w) = get_sn_nvs api deviceSn len w
     in if ret = ESP_OK
        then ((ret, deviceSn), out_print_result RESULT_GET_SN SUCCESS deviceSn s, w)
        else
          let deviceSn = snprintf_str MAX_DEVICE_SN_LENGTH (show_d ret)
          in ((ret, deviceSn), out_print_result RESULT_GET_SN FAILED deviceSn s, w))"

definition sn_length_text :: string where
  "sn_length_text = ''sn length should be between 1 and 31''"

text \<open>\<open>inputSnLen\<close> is a difference of two \<open>size_t\<close> values: it wraps around for a short line.\<close>

definition set_sn_case :: "'w nvs_api \<Rightarrow> string \<Rightarrow> sys \<times> 'w \<Rightarrow> esp_err_t \<times> sys \<times> 'w" where
  "set_sn_case api cmdline = (\<lambda>(s, w).
     let preLen = length CMD_SET_SN + 1;
         inputSnLen = size_diff (length cmdline) preLen
     in if \<not> (inputSnLen > 0 \<and> inputSnLen \<le> of_nat MAX_DEVICE_SN_LENGTH)
        then (nvs_invalid_length api, out_print_result RESULT_SET_SN FAILED sn_length_text s, w)
        else
          let deviceSn = take (unat inputSnLen) (drop preLen cmdline);
              (ret, s, w) = set_sn_nvs api deviceSn (s, w)
          in if ret = ESP_OK
             then (ret, out_print_result RESULT_SET_SN SUCCESS deviceSn s, w)
             else
               let deviceSn = snprintf_str MAX_DEVICE_SN_LENGTH (show_d ret)
               in (ret, out_print_result RESULT_SET_SN FAILED deviceSn s, w))"

section \<open>What the NVS library documents\<close>

text \<open>
  \<open>nvs_documented api stored\<close>: with no flash error, a value set under the serial number key is
  what later reads see (\<open>stored\<close>), and \<open>nvs_get_str\<close> fails with ESP\_ERR\_NVS\_INVALID\_LENGTH when
  the buffer size it is given does not hold the value \<^emph>\<open>and its terminating NUL\<close>.
\<close>

definition nvs_documented :: "'w nvs_api \<Rightarrow> ('w \<Rightarrow> string option) \<Rightarrow> bool" where
  "nvs_documented api stored \<longleftrightarrow>
     nvs_invalid_length api \<noteq> ESP_OK \<and>
     (\<forall>ns rw w. \<exists>h w'. nvs_open api ns rw w = ((ESP_OK, h), w') \<and> stored w' = stored w) \<and>
     (\<forall>h v w. \<exists>w'. nvs_set_str api h NVS_DEVICE_SN_KEY v w = (ESP_OK, w') \<and> stored w' = Some v) \<and>
     (\<forall>h w. stored (nvs_close api h w) = stored w) \<and>
     (\<forall>h n v w. stored w = Some v \<longrightarrow>
        (\<exists>w'. stored w' = stored w \<and>
           nvs_get_str api h NVS_DEVICE_SN_KEY n w =
             (if length v + 1 \<le> n then ((ESP_OK, Some v), w')
              else ((nvs_invalid_length api, None), w'))))"

text \<open>
  \<open>nvs_handles api hs\<close>: \<open>hs\<close> is the set of open handles; opening adds a new one, closing removes it,
  the accesses leave it.
\<close>

definition nvs_handles :: "'w nvs_api \<Rightarrow> ('w \<Rightarrow> nat set) \<Rightarrow> bool" where
  "nvs_handles api hs \<longleftrightarrow>
     (\<forall>ns rw w. case nvs_open api ns rw w of ((ret, h), w') \<Rightarrow>
        if ret = ESP_OK then h \<notin> hs w \<and> hs w' = insert h (hs w) else hs w' = hs w) \<and>
     (\<forall>h k v w. hs (snd (nvs_set_str api h k v w)) = hs w) \<and>
     (\<forall>h k n w. hs (snd (nvs_get_str api h k n w)) = hs w) \<and>
     (\<forall>h w. hs (nvs_close api h w) = hs w - {h})"

text \<open>A concrete NVS: the stored value and the list of open handles.\<close>

definition mem_nvs :: "(string option \<times> nat list) nvs_api" where
  "mem_nvs = \<lparr>
     nvs_open = (\<lambda>ns rw (v, hs). ((ESP_OK, Suc (Max (set (0 # hs)))),
                                  (v, Suc (Max (set (0 # hs))) # hs))),
     nvs_get_str = (\<lambda>h k n (v, hs). ((case v of None \<Rightarrow> (0x1102, None)
         | Some x \<Rightarrow> if length x + 1 \<le> n then (ESP_OK, Some x) else (0x110C, None)), (v, hs))),
     nvs_set_str = (\<lambda>h k x (v, hs). (ESP_OK, (Some x, hs))),
     nvs_close = (\<lambda>h (v, hs). (v, removeAll h hs)),
     nvs_invalid_length = 0x110C\<rparr>"

lemma mem_nvs_documented: "nvs_documented mem_nvs fst"
  by (auto simp: nvs_documented_def mem_nvs_def)

lemma get_sn_nvs_documented:
  assumes "nvs_documented api stored" and "stored w = Some v"
  obtains w' where "stored w' = Some v" and
    "get_sn_nvs api d n w =
      ((if length v + 1 \<le> n then (ESP_OK, v) else (nvs_invalid_length api, d)), w')"
proof -
  from assms(1) obtain h w1 where o: "nvs_open api NVS_DEVICE_SN_NAMESPACE False w = ((ESP_OK, h), w1)"
    and s1: "stored w1 = stored w"
    unfolding nvs_documented_def by blast
  from assms s1 obtain w2 where g: "stored w2 = stored w1"
    "nvs_get_str api h NVS_DEVICE_SN_KEY n w1 =
       (if length v + 1 \<le> n then ((ESP_OK, Some v), w2) else ((nvs_invalid_length api, None), w2))"
    unfolding nvs_documented_def by metis
  have c: "stored (nvs_close api h w2) = stored w2"
    using assms(1) by (simp add: nvs_documented_def)
  show thesis
    by (rule that [of "nvs_close api h w2"])
      (use o s1 g c assms(2) in \<open>auto simp: get_sn_nvs_def\<close>)
qed

lemma set_sn_nvs_documented:
  assumes "nvs_documented api stored"
  obtains s' w' where "stored w' = Some v" and "set_sn_nvs api v (s, w) = (ESP_OK, s', w')"
proof -
  from assms obtain h w1 where o: "nvs_open api NVS_DEVICE_SN_NAMESPACE True w = ((ESP_OK, h), w1)"
    unfolding nvs_documented_def by blast
  from assms obtain w2 where g: "nvs_set_str api h NVS_DEVICE_SN_KEY v w1 = (ESP_OK, w2)"
    "stored w2 = Some v"
    unfolding nvs_documented_def by blast
  have "stored (nvs_close api h w2) = stored w2"
    using assms by (simp add: nvs_documented_def)
  with o g show thesis by (intro that [of "nvs_close api h w2"]) (auto simp: set_sn_nvs_def Let_def)
qed

lemma mem_nvs_handles: "nvs_handles mem_nvs (\<lambda>w. set (snd w))"
proof -
  have "Suc (Max (insert 0 (set hs))) \<notin> set hs" for hs :: "nat list"
  proof
    assume "Suc (Max (insert 0 (set hs))) \<in> set hs"
    then have "Suc (Max (insert 0 (set hs))) \<le> Max (insert 0 (set hs))"
      by (intro Max_ge) simp_all
    then show False by simp
  qed
  then show ?thesis by (auto simp: nvs_handles_def mem_nvs_def)
qed

lemma nvs_open_handles:
  assumes "nvs_handles api hs" and "nvs_open api ns rw w = ((ret, h), w')"
  shows "hs w' = (if ret = ESP_OK then insert h (hs w) else hs w)"
    and "ret = ESP_OK \<Longrightarrow> h \<notin> hs w"
proof -
  from assms(1) have "\<forall>ns rw w. case nvs_open api ns rw w of ((ret, h), w') \<Rightarrow>
      if ret = ESP_OK then h \<notin> hs w \<and> hs w' = insert h (hs w) else hs w' = hs w"
    unfolding nvs_handles_def by (rule conjunct1)
  then have "case nvs_open api ns rw w of ((ret, h), w') \<Rightarrow>
      if ret = ESP_OK then h \<notin> hs w \<and> hs w' = insert h (hs w) else hs w' = hs w"
    by (erule_tac x = ns in allE, erule_tac x = rw in allE, erule_tac x = w in allE)
  then have *: "if ret = ESP_OK then h \<notin> hs w \<and> hs w' = insert h (hs w) else hs w' = hs w"
    by (simp only: assms(2) prod.case)
  show "hs w' = (if ret = ESP_OK then insert h (hs w) else hs w)" using * by presburger
  show "ret = ESP_OK \<Longrightarrow> h \<notin> hs w" using * by presburger
qed

lemma get_sn_nvs_handles:
  assumes "nvs_handles api hs"
  shows "hs (snd (get_sn_nvs api d n w)) = hs w"
proof -
  obtain ret h w1 where o: "nvs_open api NVS_DEVICE_SN_NAMESPACE False w = ((ret, h), w1)"
    by (metis prod.exhaust)
  have "hs (nvs_close api h (snd (nvs_get_str api h k n w1))) = hs w1 - {h}" for k
    using assms by (simp add: nvs_handles_def)
  with nvs_open_handles [OF assms o] o show ?thesis
    by (auto simp: get_sn_nvs_def split_def Let_def)
qed

lemma set_sn_nvs_handles:
  assumes "nvs_handles api hs"
  shows "hs (snd (snd (set_sn_nvs api v (s, w)))) = hs w"
proof -
  obtain ret h w1 where o: "nvs_open api NVS_DEVICE_SN_NAMESPACE True w = ((ret, h), w1)"
    by (metis prod.exhaust)
  have "hs (nvs_close api h (snd (nvs_set_str api h k v w1))) = hs w1 - {h}" for k
    using assms by (simp add: nvs_handles_def)
  with nvs_open_handles [OF assms o] o show ?thesis
    by (auto simp: set_sn_nvs_def split_def Let_def)
qed

section \<open>The length check\<close>

lemma sn_len:
  assumes "length cmdline < 2 ^ 32"
  shows "0 < size_diff (length cmdline) (length CMD_SET_SN + 1) \<and>
         size_diff (length cmdline) (length CMD_SET_SN + 1) \<le> of_nat MAX_DEVICE_SN_LENGTH
     \<longleftrightarrow> length CMD_SET_SN + 1 < length cmdline \<and> length cmdline \<le> length CMD_SET_SN + 32"
  using size_diff_between [OF assms, of "length CMD_SET_SN + 1" MAX_DEVICE_SN_LENGTH]
  by (simp add: cmd_defs MAX_DEVICE_SN_LENGTH_def)

lemma sn_arg:
  assumes "length cmdline < 2 ^ 32" and "length CMD_SET_SN + 1 < length cmdline"
  shows "take (unat (size_diff (length cmdline) (length CMD_SET_SN + 1)))
           (drop (length CMD_SET_SN + 1) cmdline) = drop (length CMD_SET_SN + 1) cmdline"
  using unat_size_diff [OF assms(1), of "length CMD_SET_SN + 1"] assms(2)
  by (simp add: cmd_defs)

lemma set_sn_case_eq:
  assumes "length cmdline < 2 ^ 32"
  shows "set_sn_case api cmdline (s, w) =
    (if length CMD_SET_SN + 1 < length cmdline \<and> length cmdline \<le> length CMD_SET_SN + 32
     then let sn = drop (length CMD_SET_SN + 1) cmdline;
              (ret, s', w') = set_sn_nvs api sn (s, w)
          in (ret, out_print_result RESULT_SET_SN (if ret = ESP_OK then SUCCESS else FAILED)
                (if ret = ESP_OK then sn else snprintf_str 31 (show_d ret)) s', w')
     else (nvs_invalid_length api, out_print_result RESULT_SET_SN FAILED sn_length_text s, w))"
  unfolding set_sn_case_def Let_def prod.case sn_len [OF assms]
  by (auto simp: sn_arg [OF assms, simplified] MAX_DEVICE_SN_LENGTH_def split: prod.splits)

section \<open>Properties\<close>

text \<open>
  C25. The length check of \<open>set_sn_case\<close> works in spite of the unsigned subtraction: a line whose
  argument is empty, missing or longer than 31 characters is answered with one error line and the
  invalid length code and never reaches the NVS; every other argument is stored as it is.
\<close>

theorem set_sn_case_length_check:
  assumes "length cmdline < 2 ^ 32"
  shows "set_sn_case api cmdline (s, w) =
    (if length CMD_SET_SN + 1 < length cmdline \<and> length cmdline \<le> length CMD_SET_SN + 32
     then let sn = drop (length CMD_SET_SN + 1) cmdline;
              (ret, s', w') = set_sn_nvs api sn (s, w)
          in (ret, out_print_result RESULT_SET_SN (if ret = ESP_OK then SUCCESS else FAILED)
                (if ret = ESP_OK then sn else snprintf_str 31 (show_d ret)) s', w')
     else (nvs_invalid_length api, out_print_result RESULT_SET_SN FAILED sn_length_text s, w))"
  by (rule set_sn_case_eq [OF assms])

theorem set_sn_case_length_check_witness:
  "fst (set_sn_case mem_nvs ''prod_test set_sn'' (sys0, None, [])) = 0x110C"
  using set_sn_case_length_check [of "''prod_test set_sn''" mem_nvs sys0 "(None, [])"]
  by (simp add: cmd_defs mem_nvs_def)

lemma sn_set_get:
  assumes "nvs_documented api stored" and "0 < length sn" and "length sn \<le> 30"
  shows "\<exists>s1 w1. set_sn_case api (CMD_SET_SN @ '' '' @ sn) (s, w) = (ESP_OK, s1, w1) \<and>
    (\<forall>s'. \<exists>s2 w2. get_sn_case api d MAX_DEVICE_SN_LENGTH (s', w1) = ((ESP_OK, sn), s2, w2) \<and>
       stdout s2 = stdout s' @ [Text (result_line RESULT_GET_SN SUCCESS sn)])"
proof -
  let ?line = "CMD_SET_SN @ '' '' @ sn"
  have len: "length ?line < 2 ^ 32" using assms(3) by (simp add: cmd_defs)
  obtain s1 w1 where set1: "stored w1 = Some sn" "set_sn_nvs api sn (s, w) = (ESP_OK, s1, w1)"
    by (rule set_sn_nvs_documented [OF assms(1)])
  obtain w2 where get: "get_sn_nvs api d MAX_DEVICE_SN_LENGTH w1 = ((ESP_OK, sn), w2)"
    using get_sn_nvs_documented [OF assms(1) set1(1), of d MAX_DEVICE_SN_LENGTH] assms(3)
    by (auto simp: MAX_DEVICE_SN_LENGTH_def)
  have "set_sn_case api ?line (s, w) =
      (ESP_OK, out_print_result RESULT_SET_SN SUCCESS sn s1, w1)"
    using set1(2) assms(2,3) by (subst set_sn_case_eq [OF len]) simp
  moreover have "get_sn_case api d MAX_DEVICE_SN_LENGTH (s', w1) =
      ((ESP_OK, sn), out_print_result RESULT_GET_SN SUCCESS sn s', w2)" for s'
    using get by (simp add: get_sn_case_def)
  ultimately show ?thesis by (simp add: io_simps)
qed

text \<open>
  Round trip: a serial number of 1 to 30 characters that the host sets is the one that the
  device reports afterwards.
\<close>

lemma sn_set_get_roundtrip:
  assumes "nvs_documented api stored" and "0 < length sn" and "length sn \<le> 30"
  shows "\<exists>s1 w1 s2 w2.
    set_sn_case api (CMD_SET_SN @ '' '' @ sn) (s, w) = (ESP_OK, s1, w1) \<and>
    get_sn_case api d MAX_DEVICE_SN_LENGTH (s1, w1) = ((ESP_OK, sn), s2, w2) \<and>
    stdout s2 = stdout s1 @ [Text (result_line RESULT_GET_SN SUCCESS sn)]"
  using sn_set_get [OF assms, of s w d] by blast

lemma sn_set_get_roundtrip_witness:
  "\<exists>s1 w1. set_sn_case mem_nvs (CMD_SET_SN @ '' '' @ ''11223344'') (sys0, None, []) = (ESP_OK, s1, w1)"
  using sn_set_get_roundtrip [OF mem_nvs_documented, of "''11223344''" sys0 "(None, [])" "[]"] by auto

text \<open>
  A serial number of the full 31 characters that \<open>set_sn_case\<close> advertises is stored with a
  success line but can never be read back: the read is given a buffer size of 31, one short of the
  terminating NUL, and fails.
\<close>

lemma sn_31_set_but_unreadable:
  assumes "nvs_documented api stored" and "length sn = 31"
  shows "\<exists>s1 w1 d' s2 w2.
    set_sn_case api (CMD_SET_SN @ '' '' @ sn) (s, w) = (ESP_OK, s1, w1) \<and>
    stdout s1 \<noteq> [] \<and> last (stdout s1) = Text (result_line RESULT_SET_SN SUCCESS sn) \<and>
    get_sn_case api d MAX_DEVICE_SN_LENGTH (s1, w1) = ((nvs_invalid_length api, d'), s2, w2) \<and>
    nvs_invalid_length api \<noteq> ESP_OK"
proof -
  let ?line = "CMD_SET_SN @ '' '' @ sn"
  have len: "length ?line < 2 ^ 32" using assms(2) by (simp add: cmd_defs)
  obtain s1 w1 where set1: "stored w1 = Some sn" "set_sn_nvs api sn (s, w) = (ESP_OK, s1, w1)"
    by (rule set_sn_nvs_documented [OF assms(1)])
  obtain w2 where get: "get_sn_nvs api d MAX_DEVICE_SN_LENGTH w1 = ((nvs_invalid_length api, d), w2)"
    using get_sn_nvs_documented [OF assms(1) set1(1), of d MAX_DEVICE_SN_LENGTH] assms(2)
    by (auto simp: MAX_DEVICE_SN_LENGTH_def)
  have bad: "nvs_invalid_length api \<noteq> ESP_OK" using assms(1) by (simp add: nvs_documented_def)
  have "set_sn_case api ?line (s, w) =
      (ESP_OK, out_print_result RESULT_SET_SN SUCCESS sn s1, w1)"
    using set1(2) assms(2) by (subst set_sn_case_eq [OF len]) simp
  moreover have "\<exists>d' s2. get_sn_case api d MAX_DEVICE_SN_LENGTH (s', w1) =
      ((nvs_invalid_length api, d'), s2, w2)" for s'
    using get bad by (auto simp: get_sn_case_def Let_def)
  ultimately show ?thesis using bad by (fastforce simp: io_simps)
qed

lemma sn_31_set_but_unreadable_witness:
  "\<exists>s1 w1. set_sn_case mem_nvs (CMD_SET_SN @ '' '' @ replicate 31 (CHR ''7'')) (sys0, None, [])
     = (ESP_OK, s1, w1)"
  using sn_31_set_but_unreadable [OF mem_nvs_documented, of "replicate 31 (CHR ''7'')" sys0 "(None, [])" "[]"]
  by auto

text \<open>
  Every NVS handle that the serial number cases open is closed again, whichever call fails.
\<close>

lemma sn_cases_close_handles:
  assumes "nvs_handles api hs"
  shows "hs (snd (snd (get_sn_case api d n (s, w)))) = hs w
       \<and> hs (snd (snd (set_sn_case api cmdline (s, w)))) = hs w"
  by (simp add: get_sn_case_def set_sn_case_def Let_def split_def
      get_sn_nvs_handles [OF assms] set_sn_nvs_handles [OF assms])

lemma sn_cases_close_handles_witness:
  "set (snd (snd (snd (get_sn_case mem_nvs [] 31 (sys0, None, [7]))))) = {7}"
  using sn_cases_close_handles [OF mem_nvs_handles, of "[]" 31 sys0 "(None, [7])"]
  by simp

end
