(* ===== verification/System_Control.thy ===== *)
theory System_Control
  imports Result_Out Commands
begin

text \<open>
  The system cases (main/case/system\_control.c): reset, power off, the failure lamp, quitting,
  writing the profile partition from the command line and reading it back, the version.
  The partition, GPIO and restart functions of ESP-IDF are parameters.  The ESP\_LOG lines are not
  modelled.
\<close>

section \<open>Interfaces of the environment\<close>

text \<open>
  Partitions: \<open>part_find\<close> takes subtype and label, \<open>part_size\<close> gives the size of the partition found,
  \<open>part_erase\<close> takes offset and size, \<open>part_write\<close> offset and bytes, \<open>part_read\<close> offset and size.
\<close>

record 'w part_api =
  part_find :: "nat \<Rightarrow> string \<Rightarrow> 'w \<Rightarrow> nat option"
  part_size :: "nat \<Rightarrow> nat"
  part_erase :: "nat \<Rightarrow> nat \<Rightarrow> nat \<Rightarrow> 'w \<Rightarrow> esp_err_t \<times> 'w"
  part_write :: "nat \<Rightarrow> nat \<Rightarrow> u8 list \<Rightarrow> 'w \<Rightarrow> esp_err_t \<times> 'w"
  part_read :: "nat \<Rightarrow> nat \<Rightarrow> nat \<Rightarrow> 'w \<Rightarrow> (esp_err_t \<times> u8 list) \<times> 'w"

section \<open>Reset, power, failure lamp, quit, version\<close>

definition SOFT_VERSION :: string where "SOFT_VERSION = ''1.1.0''"
definition GPIO_POWER :: nat where "GPIO_POWER = 19"
definition GPIO_LED_R :: nat where "GPIO_LED_R = 33"

definition start_reset_system :: "sys \<times> 'w \<Rightarrow> (sys \<times> 'w) run" where
  "start_reset_system = (\<lambda>(s, w).
     Restart (out_print_result RESULT_RST_LEVEL SUCCESS ''software reset success!'' s, w))"

definition start_poweroff_system :: "'w gpio_api \<Rightarrow> sys \<times> 'w \<Rightarrow> sys \<times> 'w" where
  "start_poweroff_system api = (\<lambda>(s, w).
     let io_conf = \<lparr>gc_pin = GPIO_POWER, gc_output = True\<rparr>;
         s = out_print_result RESULT_OFF_LEVEL SUCCESS ''software power off success!'' s;
         w = gpio_config api io_conf w;
         w = gpio_set_level api GPIO_POWER 0 w;
         s = vTaskDelay (10000 div portTICK_PERIOD_MS) s
     in (s, w))"

text \<open>The part of \<open>start_test_fail\<close> before its endless loop, one round of the loop, and the loop.\<close>

definition test_fail_setup :: "'w gpio_api \<Rightarrow> sys \<times> 'w \<Rightarrow> sys \<times> 'w" where
  "test_fail_setup api = (\<lambda>(s, w).
     let io_conf = \<lparr>gc_pin = GPIO_LED_R, gc_output = True\<rparr>;
         w = gpio_config api io_conf w;
         w = gpio_set_level api GPIO_LED_R 1 w;
         s = out_print_result RESULT_FAIL_LEVEL SUCCESS ''software power off success!'' s
     in (s, w))"

definition test_fail_round :: "'w gpio_api \<Rightarrow> sys \<times> 'w \<Rightarrow> sys \<times> 'w" where
  "test_fail_round api = (\<lambda>(s, w).
     let w = gpio_set_level api GPIO_LED_R 1 w;
         s = vTaskDelay (150 div portTICK_PERIOD_MS) s;
         w = gpio_set_level api GPIO_LED_R 0 w;
         s = vTaskDelay (150 div portTICK_PERIOD_MS) s
     in (s, w))"

partial_function (option) test_fail_loop :: "'w gpio_api \<Rightarrow> sys \<times> 'w \<Rightarrow> (sys \<times> 'w) option" where
  "test_fail_loop api st = test_fail_loop api (test_fail_round api st)"

definition start_test_fail :: "'w gpio_api \<Rightarrow> sys \<times> 'w \<Rightarrow> (sys \<times> 'w) run" where
  "start_test_fail api st =
     (case test_fail_loop api (test_fail_setup api st) of None \<Rightarrow> Hang | Some st' \<Rightarrow> Done st')"

definition start_quit1_case :: "sys \<Rightarrow> sys" where
  "start_quit1_case s = out_print_result RESULT_QUIT1_LEVEL SUCCESS ''quit all of tests!'' s"

definition start_quit2_case :: "sys \<Rightarrow> sys" where
  "start_quit2_case s = out_print_result RESULT_QUIT2_LEVEL SUCCESS ''quit all of tests!'' s"

definition start_version_case :: "sys \<Rightarrow> sys" where
  "start_version_case s = out_print_result RESULT_VERSION_LEVEL SUCCESS SOFT_VERSION s"

section \<open>The profile\<close>

definition dquote :: char where "dquote = CHR 0x22"

text \<open>
  \<open>get_param\<close> copies what stands between the first two double quotes into a fresh block.  A
  result \<open>Some (p, v)\<close> is a pointer to block \<open>p\<close>, which holds the string \<open>v\<close>.
\<close>

definition get_param :: "string \<Rightarrow> 'a io_scheme \<Rightarrow> (nat \<times> string) option \<times> 'a io_scheme" where
  "get_param src s =
     (case strchr src dquote of
        None \<Rightarrow> (None, s)
      | Some temp1 \<Rightarrow>
          (case strchr (tl temp1) dquote of
             None \<Rightarrow> (None, s)
           | Some temp2 \<Rightarrow>
               let len = length temp1 - length temp2;
                   (dst, s) = io_malloc s
               in case dst of
                    None \<Rightarrow> (None, s)
                  | Some p \<Rightarrow> (Some (p, take (len - 1) (tl temp1)), s)))"

text \<open>\<open>temp1_param = strchr (temp1_param + 1, \<dots>)\<close> done twice: the second quote from here on.\<close>

definition second_quote :: "string \<Rightarrow> string" where
  "second_quote t = the (strchr (tl (the (strchr t dquote))) dquote)"

definition fc_header :: string where
  "fc_header = ''{'' @ [dquote] @ ''fc'' @ [dquote] @ '':'' @ [dquote]"
definition pk_header :: string where
  "pk_header = [dquote] @ '','' @ [dquote] @ ''pk'' @ [dquote] @ '':'' @ [dquote]"
definition ak_header :: string where
  "ak_header = [dquote] @ '','' @ [dquote] @ ''ak'' @ [dquote] @ '':'' @ [dquote]"
definition sk_header :: string where
  "sk_header = [dquote] @ '','' @ [dquote] @ ''sk'' @ [dquote] @ '':'' @ [dquote]"

text \<open>The array \<open>tail\<close> holds a NUL after the brace, so as a string it ends there.\<close>

definition profile_tail :: string where
  "profile_tail = [dquote] @ ''}''"

definition profile_len :: "string \<Rightarrow> string \<Rightarrow> string \<Rightarrow> string \<Rightarrow> nat" where
  "profile_len fc pk ak sk =
     length fc + length pk + length ak + length sk + length fc_header + length pk_header +
     length ak_header + length sk_header + length profile_tail + 1"

text \<open>What \<open>strcpy\<close> and the eight \<open>strcat\<close> calls build, without the terminating NUL.\<close>

definition profile_text :: "string \<Rightarrow> string \<Rightarrow> string \<Rightarrow> string \<Rightarrow> string" where
  "profile_text fc pk ak sk =
     fc_header @ fc @ pk_header @ pk @ ak_header @ ak @ sk_header @ sk @ profile_tail"

text \<open>
  The bytes at the addresses \<open>profile_str \<dots> profile_str + n - 1\<close>: the block has
  \<open>profile_len\<close> bytes, what lies behind it is whatever memory holds there.
\<close>

definition profile_bytes :: "heap \<Rightarrow> nat \<Rightarrow> string \<Rightarrow> nat \<Rightarrow> u8 list" where
  "profile_bytes h p t n = take n (bytes_of_string t @ [0] @ map (h_init h p) [Suc (length t)..<n])"

text \<open>Erasing and writing the partition: a status for \<open>res\<close> and the new state.\<close>

definition profile_store ::
  "'w part_api \<Rightarrow> nat \<Rightarrow> string \<Rightarrow> nat \<Rightarrow> sys \<times> 'w \<Rightarrow> int \<times> sys \<times> 'w" where
  "profile_store api profile_str t len = (\<lambda>(s, w).
     case part_find api PROFILE_PARTITION ''profile'' w of
       None \<Rightarrow> (1, s, w)
     | Some part \<Rightarrow>
         let (flash_ret, w) = part_erase api part 0 4096 w
         in if flash_ret \<noteq> ESP_OK
            then (1, out_print_result RESULT_PROFILE_LEVEL FAILED ''flash partition erase error''
                      (printf (''flash erase_ret '' @ show_x flash_ret @ newline) s), w)
            else
              let (flash_ret, w) = part_write api part 0
                    (profile_bytes (heap s) profile_str t (len + 1)) w
              in if flash_ret \<noteq> ESP_OK
                 then (1, out_print_result RESULT_PROFILE_LEVEL FAILED ''flash partition write error''
                           (printf (''flash write_ret '' @ show_x flash_ret @ newline) s), w)
                 else (0, s, w))"

definition block_of :: "(nat \<times> string) option \<Rightarrow> nat option" where
  "block_of q = map_option fst q"

text \<open>The code behind the loop: release what was allocated, print the result.\<close>

definition profile_exit ::
  "(nat \<times> string) option \<Rightarrow> (nat \<times> string) option \<Rightarrow> (nat \<times> string) option \<Rightarrow>
   (nat \<times> string) option \<Rightarrow> nat option \<Rightarrow> int \<Rightarrow> sys \<Rightarrow> sys" where
  "profile_exit fc pk ak sk profile_str res s =
     (let s = io_free (block_of fc) s;
          s = io_free (block_of pk) s;
          s = io_free (block_of ak) s;
          s = io_free (block_of sk) s;
          s = io_free profile_str s
      in if res = 0 then out_print_result RESULT_PROFILE_LEVEL SUCCESS ''profile pass!'' s
         else out_print_result RESULT_PROFILE_LEVEL FAILED ''param error!'' s)"

definition start_profile_case :: "'w part_api \<Rightarrow> string \<Rightarrow> sys \<times> 'w \<Rightarrow> (sys \<times> 'w) run" where
  "start_profile_case api params = (\<lambda>(s, w).
     let (fc, s) = get_param params s
     in case fc of
       None \<Rightarrow> Done (profile_exit None None None None None 1 s, w)
     | Some (_, fc_str) \<Rightarrow>
     let temp1_param = second_quote params;
         (pk, s) = get_param (tl temp1_param) s
     in case pk of
       None \<Rightarrow> Done (profile_exit fc None None None None 1 s, w)
     | Some (_, pk_str) \<Rightarrow>
     let temp1_param = second_quote (tl temp1_param);
         (ak, s) = get_param (tl temp1_param) s
     in case ak of
       None \<Rightarrow> Done (profile_exit fc pk None None None 1 s, w)
     | Some (_, ak_str) \<Rightarrow>
     let temp1_param = second_quote (tl temp1_param);
         (sk, s) = get_param (tl temp1_param) s
     in case sk of
       None \<Rightarrow> Done (profile_exit fc pk ak None None 1 s, w)
     | Some (_, sk_str) \<Rightarrow>
     let len = profile_len fc_str pk_str ak_str sk_str;
         (profile_str, s) = io_malloc s
     in case profile_str of
       None \<Rightarrow> Crash Null_deref
     | Some p \<Rightarrow>
     let (res, s, w) = profile_store api p (profile_text fc_str pk_str ak_str sk_str) len (s, w)
     in Done (profile_exit fc pk ak sk profile_str res s, w))"

text \<open>
  Reading it back: the block of the partition's size is filled by the read and printed as a
  string, that is up to its first NUL.
\<close>

definition profile_read :: "'w part_api \<Rightarrow> sys \<times> 'w \<Rightarrow> (sys \<times> 'w) run" where
  "profile_read api = (\<lambda>(s, w).
     case part_find api PROFILE_PARTITION ''profile'' w of
       None \<Rightarrow> Done (s, w)
     | Some part \<Rightarrow>
         let (buf, s) = io_malloc s
         in case buf of
              None \<Rightarrow> Crash Null_deref
            | Some p \<Rightarrow>
                let ((flash_ret, bs), w) = part_read api part 0 (part_size api part) w
                in if flash_ret \<noteq> ESP_OK then Done (io_free buf s, w)
                   else if 0 \<notin> set bs then Crash Out_of_bounds
                   else
                     let s = printf (''profile read as:'' @
                               string_of_bytes (takeWhile (\<lambda>b. b \<noteq> 0) bs) @ newline) s
                     in Done (out_print_result RESULT_PROFILE_LEVEL SUCCESS ''read profile pass!'' s, w))"

section \<open>What the flash driver documents\<close>

text \<open>
  \<open>flash_documented api p n content\<close>: the profile partition is \<open>p\<close> with \<open>n \<ge> 4096\<close> bytes; erasing sets
  its first 4096 bytes to 0xFF, writing into an erased area stores the bytes, reading returns the
  content.
\<close>

definition flash_documented :: "'w part_api \<Rightarrow> nat \<Rightarrow> nat \<Rightarrow> ('w \<Rightarrow> u8 list) \<Rightarrow> bool" where
  "flash_documented api p n content \<longleftrightarrow>
     4096 \<le> n \<and> part_size api p = n \<and>
     (\<forall>w. part_find api PROFILE_PARTITION ''profile'' w = Some p) \<and>
     (\<forall>w. \<exists>w'. part_erase api p 0 4096 w = (ESP_OK, w') \<and>
             content w' = replicate 4096 0xFF @ drop 4096 (content w)) \<and>
     (\<forall>bs w. length bs \<le> 4096 \<longrightarrow> take 4096 (content w) = replicate 4096 0xFF \<longrightarrow>
        (\<exists>w'. part_write api p 0 bs w = (ESP_OK, w') \<and>
              content w' = bs @ drop (length bs) (content w))) \<and>
     (\<forall>w. \<exists>w'. part_read api p 0 n w = ((ESP_OK, content w), w'))"

text \<open>A concrete flash: the content of a partition of 4096 bytes.\<close>

definition mem_flash :: "u8 list part_api" where
  "mem_flash = \<lparr>
     part_find = (\<lambda>t l w. Some 0),
     part_size = (\<lambda>p. 4096),
     part_erase = (\<lambda>p off n w. (ESP_OK, replicate 4096 0xFF @ drop 4096 w)),
     part_write = (\<lambda>p off bs w. (ESP_OK, bs @ drop (length bs) w)),
     part_read = (\<lambda>p off n w. ((ESP_OK, w), w))\<rparr>"

lemma mem_flash_documented: "flash_documented mem_flash 0 4096 (\<lambda>w. w)"
  by (simp add: flash_documented_def mem_flash_def)

section \<open>Quoted parameters\<close>

definition quoted :: "string \<Rightarrow> string" where "quoted v = [dquote] @ v @ [dquote]"

lemma get_param_quoted:
  assumes "dquote \<notin> set u" and "dquote \<notin> set v"
  shows "get_param (u @ quoted v @ r) s =
           (map_option (\<lambda>p. (p, v)) (fst (io_malloc s)), snd (io_malloc s))"
  using assms
  by (auto simp: get_param_def quoted_def c_string Let_def split: prod.splits option.splits)

lemma second_quote_quoted:
  assumes "dquote \<notin> set u" and "dquote \<notin> set v"
  shows "second_quote (u @ quoted v @ r) = dquote # r"
  using assms by (simp add: second_quote_def quoted_def c_string)

text \<open>The line the host sends.\<close>

definition profile_line :: "string \<Rightarrow> string \<Rightarrow> string \<Rightarrow> string \<Rightarrow> string" where
  "profile_line fc pk ak sk =
     (CMD_PROFILE @ '' '') @ quoted fc @ '' '' @ quoted pk @ '' '' @ quoted ak @ '' '' @ quoted sk"

definition plain :: "string \<Rightarrow> bool" where
  "plain v \<longleftrightarrow> dquote \<notin> set v \<and> CHR 0x00 \<notin> set v"

lemma io_malloc_ok:
  "\<forall>k. h_ok (heap s) k \<Longrightarrow> fst (io_malloc s) = Some (h_next (heap s))"
  "\<forall>k. h_ok (heap s) k \<Longrightarrow> \<forall>k. h_ok (heap (snd (io_malloc s))) k"
  by (simp_all add: io_simps malloc_fst)

lemma start_profile_case_line:
  assumes "plain fc" "plain pk" "plain ak" "plain sk" and "\<forall>k. h_ok (heap s) k"
  shows "\<exists>a b c d p s5. stdout s5 = stdout s \<and>
    start_profile_case api (profile_line fc pk ak sk) (s, w) =
      (let (res, s6, w6) = profile_store api p (profile_text fc pk ak sk)
                             (profile_len fc pk ak sk) (s5, w)
       in Done (profile_exit (Some (a, fc)) (Some (b, pk)) (Some (c, ak)) (Some (d, sk)) (Some p)
                  res s6, w6))"
proof -
  define s1 where "s1 = snd (io_malloc s)"
  define s2 where "s2 = snd (io_malloc s1)"
  define s3 where "s3 = snd (io_malloc s2)"
  define s4 where "s4 = snd (io_malloc s3)"
  note ok = assms(5) and sdefs = s1_def s2_def s3_def s4_def
  have ok1: "\<forall>k. h_ok (heap s1) k" unfolding s1_def by (rule io_malloc_ok(2) [OF ok])
  have ok2: "\<forall>k. h_ok (heap s2) k" unfolding s2_def by (rule io_malloc_ok(2) [OF ok1])
  have ok3: "\<forall>k. h_ok (heap s3) k" unfolding s3_def by (rule io_malloc_ok(2) [OF ok2])
  have ok4: "\<forall>k. h_ok (heap s4) k" unfolding s4_def by (rule io_malloc_ok(2) [OF ok3])
  have nq: "dquote \<notin> set fc" "dquote \<notin> set pk" "dquote \<notin> set ak" "dquote \<notin> set sk"
    using assms by (auto simp: plain_def)
  have pre: "dquote \<notin> set (CMD_PROFILE @ '' '')" "dquote \<notin> set '' ''"
    by (simp_all add: cmd_defs dquote_def)
  let ?t3 = "'' '' @ quoted sk @ []"
  let ?t2 = "'' '' @ quoted ak @ ?t3"
  let ?t1 = "'' '' @ quoted pk @ ?t2"
  have line: "profile_line fc pk ak sk = (CMD_PROFILE @ '' '') @ quoted fc @ ?t1"
    by (simp add: profile_line_def)
  note gp = get_param_quoted [OF pre(1) nq(1)] get_param_quoted [OF pre(2) nq(2)]
    get_param_quoted [OF pre(2) nq(3)] get_param_quoted [OF pre(2) nq(4)]
  note sq = second_quote_quoted [OF pre(1) nq(1)] second_quote_quoted [OF pre(2) nq(2)]
    second_quote_quoted [OF pre(2) nq(3)]
  have out: "stdout (snd (io_malloc s4)) = stdout s"
    by (simp add: sdefs io_simps)
  have "start_profile_case api (profile_line fc pk ak sk) (s, w) =
      (let (res, s6, w6) = profile_store api (h_next (heap s4)) (profile_text fc pk ak sk)
                             (profile_len fc pk ak sk) (snd (io_malloc s4), w)
       in Done (profile_exit (Some (h_next (heap s), fc)) (Some (h_next (heap s1), pk))
            (Some (h_next (heap s2), ak)) (Some (h_next (heap s3), sk)) (Some (h_next (heap s4)))
                  res s6, w6))"
    unfolding start_profile_case_def line
    by (simp only: prod.case Let_def gp sq io_malloc_ok(1) [OF ok] option.map option.case list.sel
          s1_def [symmetric] io_malloc_ok(1) [OF ok1] s2_def [symmetric]
          io_malloc_ok(1) [OF ok2] s3_def [symmetric] io_malloc_ok(1) [OF ok3] s4_def [symmetric]
          split_def io_malloc_ok(1) [OF ok4] fst_conv snd_conv)
  with out show ?thesis by blast
qed

section \<open>The bytes that are written\<close>

lemma profile_len_text: "profile_len fc pk ak sk = length (profile_text fc pk ak sk) + 1"
  by (simp add: profile_len_def profile_text_def)

lemma profile_bytes_over:
  "profile_bytes h p t (Suc (Suc (length t))) = bytes_of_string t @ [0, h_init h p (length t + 1)]"
  by (simp add: profile_bytes_def)

lemma byte_of_char_zero: "byte_of_char c = 0 \<longleftrightarrow> c = CHR 0x00"
proof -
  have "byte_of_char (CHR 0x00) = 0" by (simp add: byte_of_char_def)
  then show ?thesis by (metis char_of_byte_of_char)
qed

lemma takeWhile_nonzero_string:
  assumes "CHR 0x00 \<notin> set t"
  shows "takeWhile (\<lambda>b. b \<noteq> 0) (bytes_of_string t @ 0 # r) = bytes_of_string t"
  using assms by (induction t) (auto simp: bytes_of_string_def byte_of_char_zero)

lemma profile_text_no_nul:
  "plain fc \<Longrightarrow> plain pk \<Longrightarrow> plain ak \<Longrightarrow> plain sk \<Longrightarrow> CHR 0x00 \<notin> set (profile_text fc pk ak sk)"
  by (auto simp: profile_text_def plain_def fc_header_def pk_header_def ak_header_def
      sk_header_def profile_tail_def dquote_def)

lemma profile_store_documented:
  assumes "flash_documented api p n content" and "length t + 2 \<le> 4096"
  obtains w' where "profile_store api q t (length t + 1) (s, w) = (0, s, w')"
    and "\<exists>r. content w' = bytes_of_string t @ 0 # r"
proof -
  have find: "part_find api PROFILE_PARTITION ''profile'' w = Some p"
    using assms(1) by (simp add: flash_documented_def)
  from assms(1) obtain w1 where e: "part_erase api p 0 4096 w = (ESP_OK, w1)"
    "content w1 = replicate 4096 0xFF @ drop 4096 (content w)"
    unfolding flash_documented_def by blast
  let ?bs = "profile_bytes (heap s) q t (length t + 2)"
  have "length ?bs \<le> 4096" using assms(2) by (simp add: profile_bytes_over)
  moreover have "take 4096 (content w1) = replicate 4096 0xFF" using e(2) by simp
  ultimately obtain w2 where wr: "part_write api p 0 ?bs w1 = (ESP_OK, w2)"
    "content w2 = ?bs @ drop (length ?bs) (content w1)"
    using assms(1) unfolding flash_documented_def by blast
  show thesis
    by (rule that [of w2]) (use find e wr in \<open>simp_all add: profile_store_def profile_bytes_over\<close>)
qed

lemma profile_exit_stdout:
  "stdout (profile_exit a b c d q r s) = stdout s @
     [Text (if r = 0 then result_line RESULT_PROFILE_LEVEL SUCCESS ''profile pass!''
            else result_line RESULT_PROFILE_LEVEL FAILED ''param error!'')]"
  by (simp add: profile_exit_def Let_def io_simps)

lemma profile_exit_ok:
  "h_ok (heap (profile_exit a b c d q r s)) = h_ok (heap s)"
  by (simp add: profile_exit_def Let_def io_simps)

section \<open>Properties\<close>

text \<open>The JSON object that the command line asks for, as a specification of \<open>profile_text\<close>.\<close>

definition profile_json :: "string \<Rightarrow> string \<Rightarrow> string \<Rightarrow> string \<Rightarrow> string" where
  "profile_json fc pk ak sk =
     ''{'' @ quoted ''fc'' @ '':'' @ quoted fc @ '','' @ quoted ''pk'' @ '':'' @ quoted pk @ '','' @
       quoted ''ak'' @ '':'' @ quoted ak @ '','' @ quoted ''sk'' @ '':'' @ quoted sk @ ''}''"

lemma profile_text_json: "profile_text fc pk ak sk = profile_json fc pk ak sk"
  by (simp add: profile_text_def profile_json_def quoted_def fc_header_def pk_header_def
      ak_header_def sk_header_def profile_tail_def)

text \<open>
  C20. Round trip of the profile: the four quoted values of the command line are stored as the
  JSON object \<open>{"fc":\<dots>,"pk":\<dots>,"ak":\<dots>,"sk":\<dots>}\<close> with the answer "profile pass!", and the read
  command prints exactly this object.
\<close>

theorem profile_write_read_roundtrip:
  assumes "flash_documented api p n content"
    and "plain fc" "plain pk" "plain ak" "plain sk"
    and "profile_len fc pk ak sk + 1 \<le> 4096"
    and "\<forall>k. h_ok (heap s) k"
  shows "\<exists>s1 w1.
    start_profile_case api (profile_line fc pk ak sk) (s, w) = Done (s1, w1) \<and>
    stdout s1 = stdout s @ [Text (result_line RESULT_PROFILE_LEVEL SUCCESS ''profile pass!'')] \<and>
    (\<forall>s'. (\<forall>k. h_ok (heap s') k) \<longrightarrow> (\<exists>s2 w2. profile_read api (s', w1) = Done (s2, w2) \<and>
       stdout s2 = stdout s' @
         [Text (''profile read as:'' @ profile_json fc pk ak sk @ newline),
          Text (result_line RESULT_PROFILE_LEVEL SUCCESS ''read profile pass!'')]))"
proof -
  let ?t = "profile_text fc pk ak sk"
  have len: "length ?t + 2 \<le> 4096" using assms(6) by (simp add: profile_len_text)
  obtain a b c d q s5 where s5: "stdout s5 = stdout s" and
    start: "start_profile_case api (profile_line fc pk ak sk) (s, w) =
      (let (res, s6, w6) = profile_store api q ?t (profile_len fc pk ak sk) (s5, w)
       in Done (profile_exit (Some (a, fc)) (Some (b, pk)) (Some (c, ak)) (Some (d, sk)) (Some q)
                  res s6, w6))"
    using start_profile_case_line [OF assms(2-5,7), of api w] by blast
  obtain w1 r where st: "profile_store api q ?t (length ?t + 1) (s5, w) = (0, s5, w1)"
    and c: "content w1 = bytes_of_string ?t @ 0 # r"
    using profile_store_documented [OF assms(1) len] by metis
  have rd: "\<exists>s2 w2. profile_read api (s', w1) = Done (s2, w2) \<and> stdout s2 = stdout s' @
         [Text (''profile read as:'' @ ?t @ newline),
          Text (result_line RESULT_PROFILE_LEVEL SUCCESS ''read profile pass!'')]"
    if "\<forall>k. h_ok (heap s') k" for s' :: sys
  proof -
    from assms(1) obtain w2 where "part_read api p 0 n w1 = ((ESP_OK, content w1), w2)"
      unfolding flash_documented_def by blast
    moreover have "part_find api PROFILE_PARTITION ''profile'' w1 = Some p" "part_size api p = n"
      using assms(1) by (simp_all add: flash_documented_def)
    moreover have "takeWhile (\<lambda>b. b \<noteq> 0) (content w1) = bytes_of_string ?t"
      unfolding c using profile_text_no_nul [OF assms(2-5)] by (rule takeWhile_nonzero_string)
    ultimately show ?thesis
      using io_malloc_ok(1) [OF that] c
      by (simp add: profile_read_def Let_def split_def io_simps)
  qed
  show ?thesis
    using start st s5 rd by (fastforce simp: profile_len_text profile_exit_stdout simp flip: profile_text_json)
qed

theorem profile_write_read_roundtrip_witness:
  "\<exists>s1 w1. start_profile_case mem_flash (profile_line ''f'' ''p'' ''a'' ''s'')
     (sys0, replicate 4096 0xFF) = Done (s1, w1)"
  using profile_write_read_roundtrip [OF mem_flash_documented, of "''f''" "''p''" "''a''" "''s''" sys0
      "replicate 4096 0xFF"]
  by (auto simp: plain_def dquote_def profile_len_def fc_header_def pk_header_def ak_header_def
      sk_header_def profile_tail_def)

text \<open>
  The buffer the profile is built in is filled exactly: text and NUL take all of its
  \<open>profile_len\<close> bytes.  But one byte more is handed to the flash writer, so the last byte written is
  the byte behind the allocated block.
\<close>

lemma profile_write_overreads:
  "profile_bytes h p (profile_text fc pk ak sk) (profile_len fc pk ak sk) =
     bytes_of_string (profile_text fc pk ak sk) @ [0] \<and>
   profile_bytes h p (profile_text fc pk ak sk) (profile_len fc pk ak sk + 1) =
     bytes_of_string (profile_text fc pk ak sk) @ [0, h_init h p (profile_len fc pk ak sk)]"
  using profile_bytes_over [of h p "profile_text fc pk ak sk"]
  by (simp add: profile_len_text profile_bytes_def)

section \<open>Memory\<close>

lemma get_param_owned:
  assumes "hp.owned L f ps (heap s)" and "get_param src s = (q, s')"
  shows "hp.owned L f (case q of None \<Rightarrow> ps | Some x \<Rightarrow> fst x # ps) (heap s')"
  using assms
  by (auto simp: get_param_def io_malloc_def Let_def split: option.splits prod.splits
      dest: hp.owned_alloc hp.owned_alloc_none)

lemma io_malloc_owned:
  assumes "hp.owned L f ps (heap s)" and "io_malloc s = (q, s')"
  shows "hp.owned L f (case q of None \<Rightarrow> ps | Some p \<Rightarrow> p # ps) (heap s')"
  using assms
  by (auto simp: io_malloc_def split: option.splits prod.splits
      dest: hp.owned_alloc hp.owned_alloc_none)

lemma profile_store_heap: "profile_store api p t n (s, w) = (r, s', w') \<Longrightarrow> heap s' = heap s"
  by (auto simp: profile_store_def Let_def io_simps split: option.splits prod.splits if_splits)

fun opt_cons :: "nat option \<Rightarrow> nat list \<Rightarrow> nat list" where
  "opt_cons None ps = ps"
| "opt_cons (Some p) ps = p # ps"

lemma io_free_owned:
  assumes "hp.owned L f ps (heap s)" and "set (opt_cons q []) \<subseteq> set ps"
  shows "hp.owned L f (case q of None \<Rightarrow> ps | Some p \<Rightarrow> remove1 p ps) (heap (io_free q s))"
  using assms by (cases q) (auto simp: io_simps free_opt_def intro: hp.owned_free)

text \<open>\<open>profile_exit\<close> releases everything when it is given exactly the blocks that are owned.\<close>

lemma profile_exit_owned:
  assumes "hp.owned L f (opt_cons e (opt_cons (block_of d) (opt_cons (block_of c)
             (opt_cons (block_of b) (opt_cons (block_of a) []))))) (heap s)"
  shows "hp.owned L f [] (heap (profile_exit a b c d e r s))"
proof -
  let ?e = "opt_cons e []" and ?d = "opt_cons (block_of d)" and ?c = "opt_cons (block_of c)"
    and ?b = "opt_cons (block_of b)"
  let ?s1 = "io_free (block_of a) s"
  let ?s2 = "io_free (block_of b) ?s1"
  let ?s3 = "io_free (block_of c) ?s2"
  let ?s4 = "io_free (block_of d) ?s3"
  have dist: "distinct (opt_cons e (?d (?c (?b (opt_cons (block_of a) [])))))"
    using assms by (simp add: hp.owned_def)
  have 1: "hp.owned L f (opt_cons e (?d (?c (?b [])))) (heap ?s1)"
    using io_free_owned [OF assms, of "block_of a"] dist
    by (cases e; cases "block_of d"; cases "block_of c"; cases "block_of b"; cases "block_of a") auto
  have 2: "hp.owned L f (opt_cons e (?d (?c []))) (heap ?s2)"
    using io_free_owned [OF 1, of "block_of b"] dist
    by (cases e; cases "block_of d"; cases "block_of c"; cases "block_of b") auto
  have 3: "hp.owned L f (opt_cons e (?d [])) (heap ?s3)"
    using io_free_owned [OF 2, of "block_of c"] dist
    by (cases e; cases "block_of d"; cases "block_of c") auto
  have 4: "hp.owned L f (opt_cons e []) (heap ?s4)"
    using io_free_owned [OF 3, of "block_of d"] dist by (cases e; cases "block_of d") auto
  have "hp.owned L f [] (heap (io_free e ?s4))"
    using io_free_owned [OF 4, of e] by (cases e) auto
  then show ?thesis by (simp add: profile_exit_def Let_def io_simps)
qed

lemma start_profile_case_owned:
  assumes "heap_wf (heap s)" and "start_profile_case api params (s, w) = Done (s', w')"
  shows "hp.owned (h_live (heap s)) (h_fault (heap s)) [] (heap s')"
proof -
  have o0: "hp.owned (h_live (heap s)) (h_fault (heap s)) [] (heap s)"
    using assms(1) by (rule hp.owned_start)
  obtain fc s1 where g1: "get_param params s = (fc, s1)" by (cases "get_param params s")
  let ?t1 = "second_quote params"
  obtain pk s2 where g2: "get_param (tl ?t1) s1 = (pk, s2)" by (cases "get_param (tl ?t1) s1")
  let ?t2 = "second_quote (tl ?t1)"
  obtain ak s3 where g3: "get_param (tl ?t2) s2 = (ak, s3)" by (cases "get_param (tl ?t2) s2")
  let ?t3 = "second_quote (tl ?t2)"
  obtain sk s4 where g4: "get_param (tl ?t3) s3 = (sk, s4)" by (cases "get_param (tl ?t3) s3")
  obtain q s5 where g5: "io_malloc s4 = (q, s5)" by (cases "io_malloc s4")
  note o1 = get_param_owned [OF o0 g1]
  note o2 = get_param_owned [OF o1 g2]
  note o3 = get_param_owned [OF o2 g3]
  note o4 = get_param_owned [OF o3 g4]
  note o5 = io_malloc_owned [OF o4 g5]
  show ?thesis
    using assms(2) o1 o2 o3 o4 o5
    by (auto simp: start_profile_case_def g1 g2 g3 g4 g5 block_of_def Let_def
        dest: profile_store_heap split: option.splits prod.splits
        intro!: profile_exit_owned)
qed

text \<open>
  C21. \<open>start_profile_case\<close> releases every block it allocates, once, on every path that returns: with
  a missing quote at any of the four parameters, with any failing allocation of a parameter, with
  a missing partition, a failing erase or a failing write.
\<close>

theorem start_profile_case_no_leak:
  assumes "heap_wf (heap s)" and "start_profile_case api params (s, w) = Done (s', w')"
  shows "h_live (heap s') = h_live (heap s) \<and> h_fault (heap s') = h_fault (heap s)"
  by (rule hp.owned_end [OF start_profile_case_owned [OF assms]])

theorem start_profile_case_no_leak_witness:
  "\<exists>s' w'. start_profile_case mem_flash (profile_line ''f'' ''p'' ''a'' ''s'')
     (sys0, replicate 4096 0xFF) = Done (s', w') \<and> h_live (heap s') = {}"
proof -
  have p: "plain ''f''" "plain ''p''" "plain ''a''" "plain ''s''"
    by (simp_all add: plain_def dquote_def)
  obtain s' w' where d: "start_profile_case mem_flash (profile_line ''f'' ''p'' ''a'' ''s'')
     (sys0, replicate 4096 0xFF) = Done (s', w')"
    using start_profile_case_line [OF p, of sys0 mem_flash "replicate 4096 0xFF"]
    by (auto simp: Let_def split_def)
  have "h_live (heap s') = {}" using start_profile_case_no_leak [OF _ d] by simp
  with d show ?thesis by blast
qed

text \<open>
  \<open>profile_read\<close> does not release the block it reads the partition into: each successful read
  leaves one more live block, on top of those that were live before.
\<close>

lemma profile_read_leaks:
  assumes "heap_wf (heap s)" and "profile_read api (s, w) = Done (s', w')"
    and "stdout s' \<noteq> stdout s"
  shows "h_live (heap s') = insert (h_next (heap s)) (h_live (heap s)) \<and>
         h_next (heap s) \<notin> h_live (heap s)"
proof -
  have "h_next (heap s) \<notin> h_live (heap s)" using assms(1) by (auto simp: heap_wf_def)
  moreover have "h_live (heap s') = insert (h_next (heap s)) (h_live (heap s))"
    using assms(2,3)
    by (auto simp: profile_read_def io_malloc_def malloc_def Let_def io_simps
        split: option.splits prod.splits if_splits)
  ultimately show ?thesis by blast
qed

lemma profile_read_leaks_witness:
  "\<exists>s' w'. profile_read mem_flash (sys0, replicate 4096 0) = Done (s', w') \<and>
     h_live (heap s') = {0}"
proof -
  let ?w = "replicate 4096 0 :: u8 list"
  obtain s' w' where d: "profile_read mem_flash (sys0, ?w) = Done (s', w')"
    and o: "stdout s' \<noteq> stdout sys0"
    using io_malloc_ok(1) [of sys0]
    by (auto simp: profile_read_def mem_flash_def Let_def split_def io_simps)
  from profile_read_leaks [OF _ d o] d show ?thesis by auto
qed

lemma test_fail_loop_None: "test_fail_loop api st = None"
proof (rule ccontr)
  assume "test_fail_loop api st \<noteq> None"
  then obtain r where r: "test_fail_loop api st = Some r" by auto
  show False by (rule test_fail_loop.raw_induct [where P = "\<lambda>_ _ _. False", OF _ r]) blast
qed

text \<open>
  \<open>start_test_fail\<close> never returns: the command task is stuck in its endless loop, in which each
  round leaves the lamp switched off and takes 300 ms.
\<close>

lemma start_test_fail_never_returns:
  "start_test_fail api st = Hang \<and>
   (\<forall>s w. clock (fst (test_fail_round api (s, w))) = clock s + 300 \<and>
          (\<exists>w1. snd (test_fail_round api (s, w)) = gpio_set_level api GPIO_LED_R 0 w1))"
  by (auto simp: start_test_fail_def test_fail_loop_None test_fail_round_def Let_def io_simps)

end
