(* ===== verification/Board_Pins.thy ===== *)
theory Board_Pins
  imports Prelude
begin

text \<open>
  The wiring of the two boards (components/codec/include/userconfig.h): the header gives the pins by
  the configuration CONFIG\_CUPID\_BOARD\_V2, the argument \<open>v2\<close> here.  The configuration of the
  repository (sdkconfig) does not set it: \<open>BOARD_V2\<close> is the value the firmware is built with.
  \<open>-1\<close> stands for a signal that is not connected.
\<close>

definition BOARD_V2 :: bool where "BOARD_V2 = False"

definition IIC_CLK :: nat where "IIC_CLK = 23"
definition IIC_DATA :: nat where "IIC_DATA = 18"

definition IIS_SCLK :: "bool \<Rightarrow> int" where "IIS_SCLK v2 = (if v2 then 5 else 4)"
definition IIS_DSIN :: "bool \<Rightarrow> int" where "IIS_DSIN v2 = (if v2 then 26 else 16)"
definition IIS_LCLK :: "bool \<Rightarrow> int" where "IIS_LCLK v2 = (if v2 then 25 else 13)"
definition IIS_DSOUT :: "bool \<Rightarrow> int" where "IIS_DSOUT v2 = (if v2 then -1 else 39)"

definition IIS1_SCLK :: int where "IIS1_SCLK = 33"
definition IIS1_DSIN :: int where "IIS1_DSIN = -1"
definition IIS1_LCLK :: int where "IIS1_LCLK = 32"
definition IIS1_DSOUT :: int where "IIS1_DSOUT = 35"

definition GPIO_DSP_IRQ :: "bool \<Rightarrow> nat" where "GPIO_DSP_IRQ v2 = (if v2 then 35 else 38)"
definition GPIO_DSP_RST :: "bool \<Rightarrow> nat" where "GPIO_DSP_RST v2 = (if v2 then 21 else 27)"
definition GPIO_POWER_ONOFF :: nat where "GPIO_POWER_ONOFF = 19"
definition GPIO_PA_RST :: "bool \<Rightarrow> nat" where "GPIO_PA_RST v2 = (if v2 then 2 else 12)"

lemmas pin_defs = BOARD_V2_def IIC_CLK_def IIC_DATA_def IIS_SCLK_def IIS_DSIN_def IIS_LCLK_def IIS_DSOUT_def
  IIS1_SCLK_def IIS1_DSIN_def IIS1_LCLK_def IIS1_DSOUT_def GPIO_DSP_IRQ_def GPIO_DSP_RST_def
  GPIO_POWER_ONOFF_def GPIO_PA_RST_def

text \<open>The pins of a board, in the order of the header.\<close>

definition board_pins :: "bool \<Rightarrow> int list" where
  "board_pins v2 = [int IIC_CLK, int IIC_DATA, IIS_SCLK v2, IIS_DSIN v2, IIS_LCLK v2, IIS_DSOUT v2,
     IIS1_SCLK, IIS1_DSIN, IIS1_LCLK, IIS1_DSOUT, int (GPIO_DSP_IRQ v2), int (GPIO_DSP_RST v2),
     int GPIO_POWER_ONOFF, int (GPIO_PA_RST v2)]"

text \<open>
  On the board the firmware is built for no two signals share a pin.  The header gives the other board one
  pin twice: the second sound channel and the interrupt of the DSP.
\<close>

lemma pins_distinct:
  "distinct (filter (\<lambda>q. 0 \<le> q) (board_pins False))"
  "\<not> distinct (filter (\<lambda>q. 0 \<le> q) (board_pins True))"
  "IIS1_DSOUT = int (GPIO_DSP_IRQ True)"
  by (simp_all add: board_pins_def pin_defs)

end
