(* ===== verification/Dsp_Case.thy ===== *)
theory Dsp_Case
  imports Result_Out Commands Board_Pins
begin

text \<open>
  The DSP cases (main/case/dsp\_check\_case.c, main/case/dsp\_intr.c): booting the DSP through the
  client of the voice SDK and testing its interrupt line.  The SDK is a binary library
  (components/bds\_light): its functions are the fields of a record, over an unknown state \<open>'w\<close>.
\<close>

section \<open>The SDK interface\<close>

datatype LAUNCH_MODE_T = LAUNCH_LOAD_DSP | LAUNCH_CHECK_DSP

record bds_client_params_t =
  launch_mode :: LAUNCH_MODE_T
  dsp_subtype :: int

text \<open>A client handle is a pointer: \<open>None\<close> is NULL.\<close>

record 'w bds_api =
  bds_client_create :: "'w \<Rightarrow> nat option \<times> 'w"
  bds_client_config :: "nat \<Rightarrow> bds_client_params_t \<Rightarrow> 'w \<Rightarrow> 'w"
  bds_set_log_level :: "nat \<Rightarrow> 'w \<Rightarrow> 'w"
  bds_client_start :: "nat \<Rightarrow> 'w \<Rightarrow> int \<times> 'w"
  bds_switch_self_test :: "bool \<Rightarrow> 'w \<Rightarrow> 'w"
  bds_gpio_intr_test :: "nat \<Rightarrow> nat \<Rightarrow> 'w \<Rightarrow> int \<times> 'w"

section \<open>The cases\<close>

definition dsp_sdk_init :: "'w bds_api \<Rightarrow> sys \<times> 'w \<Rightarrow> nat option \<times> sys \<times> 'w" where
  "dsp_sdk_init api = (\<lambda>(s, w).
     let (handle, w) = bds_client_create api w
     in case handle of
          None \<Rightarrow> (handle, out_print_result RESULT_DSP FAILED ''bds client create fail'' s, w)
        | Some h \<Rightarrow>
            let params = \<lparr>launch_mode = LAUNCH_LOAD_DSP, dsp_subtype = 0x24\<rparr>;
                w = bds_client_config api h params w;
                w = bds_set_log_level api 2 w;
                (ret, w) = bds_client_start api h w
            in if ret \<noteq> 0
               then (handle, out_print_result RESULT_DSP FAILED ''bds client start fail'' s, w)
               else (handle, s, bds_switch_self_test api True w))"

definition start_dsp_check_case ::
  "'w bds_api \<Rightarrow> nat option \<Rightarrow> sys \<times> 'w \<Rightarrow> int \<times> sys \<times> 'w" where
  "start_dsp_check_case api handle = (\<lambda>(s, w).
     if handle \<noteq> None
     then (0, out_print_result RESULT_DSP SUCCESS ''dsp run success'' s, w)
     else
       let (handle, s, w) = dsp_sdk_init api (s, w)
       in case handle of
            None \<Rightarrow> (-1, out_print_result RESULT_DSP FAILED ''dsp boot error'' s, w)
          | Some _ \<Rightarrow> (0, out_print_result RESULT_DSP SUCCESS ''dsp run success'' s, w))"

definition start_dsp_intr :: "'w bds_api \<Rightarrow> sys \<times> 'w \<Rightarrow> int \<times> sys \<times> 'w" where
  "start_dsp_intr api = (\<lambda>(s, w).
     let (r, w) = bds_gpio_intr_test api (GPIO_DSP_IRQ BOARD_V2) 100 w
     in if r \<noteq> 0 then (-1, out_print_result RESULT_INTR_LEVEL FAILED ''dsp error'' s, w)
        else (0, out_print_result RESULT_INTR_LEVEL SUCCESS ''dsp interrupt detected'' s, w))"

section \<open>Properties\<close>

text \<open>The start status that the sequence create, configure, log level, start comes to.\<close>

definition dsp_start_status :: "'w bds_api \<Rightarrow> nat \<Rightarrow> 'w \<Rightarrow> int \<times> 'w" where
  "dsp_start_status api h w =
     bds_client_start api h (bds_set_log_level api 2
       (bds_client_config api h \<lparr>launch_mode = LAUNCH_LOAD_DSP, dsp_subtype = 0x24\<rparr> w))"

text \<open>
  The DSP check called with no client answers exactly one final verdict: the boot error (and
  -1) when the client cannot be created.  When it can be created the answer is "dsp run success"
  and 0 whatever the start of the client returned: a failing start only adds the line
  "bds client start fail" before it and leaves the self test off.
\<close>

lemma start_dsp_check_case_verdict:
  "start_dsp_check_case api None (s, w) =
     (case bds_client_create api w of
        (None, w1) \<Rightarrow>
          (-1, out_print_result RESULT_DSP FAILED ''dsp boot error''
                 (out_print_result RESULT_DSP FAILED ''bds client create fail'' s), w1)
      | (Some h, w1) \<Rightarrow>
          (let (ret, w2) = dsp_start_status api h w1
           in (0, out_print_result RESULT_DSP SUCCESS ''dsp run success''
                    (if ret = 0 then s
                     else out_print_result RESULT_DSP FAILED ''bds client start fail'' s),
               if ret = 0 then bds_switch_self_test api True w2 else w2)))"
  by (auto simp: start_dsp_check_case_def dsp_sdk_init_def dsp_start_status_def Let_def
      split: prod.splits option.splits)

text \<open>
  Both DSP cases leave the heap and the frame counter alone, add at least one and at most two
  lines to the output and return 0 or -1.  The interrupt case returns 0 exactly when it reports
  success; the check does so exactly when the client was created.
\<close>

lemma dsp_cases_frame:
  "(case start_dsp_check_case api handle (s, w) of (r, s', w') \<Rightarrow>
     heap s' = heap s \<and> g_idx s' = g_idx s \<and>
     (r = 0 \<longleftrightarrow> last (stdout s') = Text (result_line RESULT_DSP SUCCESS ''dsp run success'')) \<and>
     r \<in> {0, -1} \<and> length (stdout s') - length (stdout s) \<in> {1, 2})
 \<and> (case start_dsp_intr api (s, w) of (r, s', w') \<Rightarrow>
     heap s' = heap s \<and> g_idx s' = g_idx s \<and> r \<in> {0, -1} \<and>
     stdout s' = stdout s @ [Text (if r = 0
       then result_line RESULT_INTR_LEVEL SUCCESS ''dsp interrupt detected''
       else result_line RESULT_INTR_LEVEL FAILED ''dsp error'')])"
  by (auto simp: start_dsp_check_case_def dsp_sdk_init_def start_dsp_intr_def Let_def io_simps
      result_line_def result_defs SUCCESS_def FAILED_def split: prod.splits option.splits)

end
