(* ===== verification/I2c_Bus.thy ===== *)
theory I2c_Bus
  imports Platform
begin

text \<open>
  The I2C bus layer (components/codec/utility/i2c\_bus.c): one shared lock, a table of bus objects by
  port, and transactions built as command links of the ESP-IDF driver.  The driver and the
  FreeRTOS semaphores are not part of the repository: their functions are the fields of a record
  over an unknown state \<open>'w\<close>.
\<close>

section \<open>The driver interface\<close>

record i2c_config_t =
  master_mode :: bool
  sda_io_num :: nat
  scl_io_num :: nat
  sda_pullup_en :: bool
  scl_pullup_en :: bool
  clk_speed :: nat

text \<open>
  What the functions \<open>i2c_master_start\<close>, \<open>_write_byte\<close>, \<open>_write\<close>, \<open>_read_byte\<close> and \<open>_stop\<close> put into a
  command link.  The destination of a read is an index into the caller's buffer.
\<close>

datatype link_op =
  Start | Write_byte u8 bool | Write "u8 list" bool | Read_byte nat nat | Stop

record 'w i2c_api =
  i2c_param_config :: "nat \<Rightarrow> i2c_config_t \<Rightarrow> 'w \<Rightarrow> esp_err_t \<times> 'w"
  i2c_driver_install :: "nat \<Rightarrow> bool \<Rightarrow> nat \<Rightarrow> nat \<Rightarrow> nat \<Rightarrow> 'w \<Rightarrow> esp_err_t \<times> 'w"
  i2c_driver_delete :: "nat \<Rightarrow> 'w \<Rightarrow> 'w"
  i2c_cmd_link_create :: "'w \<Rightarrow> nat option \<times> 'w"
  i2c_link_add :: "nat option \<Rightarrow> link_op \<Rightarrow> 'w \<Rightarrow> esp_err_t \<times> 'w"
  i2c_master_cmd_begin :: "nat \<Rightarrow> nat option \<Rightarrow> nat \<Rightarrow> 'w \<Rightarrow> (esp_err_t \<times> (nat \<times> u8) list) \<times> 'w"
  i2c_cmd_link_delete :: "nat option \<Rightarrow> 'w \<Rightarrow> 'w"
  sem_create :: "nat \<Rightarrow> nat \<Rightarrow> 'w \<Rightarrow> nat option \<times> 'w"
  sem_take :: "nat \<Rightarrow> 'w \<Rightarrow> bool \<times> 'w"
  sem_give :: "nat \<Rightarrow> 'w \<Rightarrow> bool \<times> 'w"
  sem_delete :: "nat \<Rightarrow> 'w \<Rightarrow> 'w"

text \<open>\<open>I2C_NUM_MAX\<close> of the ESP32.\<close>

definition I2C_NUM_MAX :: nat where "I2C_NUM_MAX = 2"

section \<open>The lock\<close>

definition mutex_init :: "'w i2c_api \<Rightarrow> 'w \<Rightarrow> nat option \<times> 'w" where
  "mutex_init api w = sem_create api 1 1 w"

definition mutex_lock :: "'w i2c_api \<Rightarrow> nat option \<Rightarrow> 'w \<Rightarrow> int \<times> 'w" where
  "mutex_lock api sem w =
     (case sem of None \<Rightarrow> (-1, w)
      | Some h \<Rightarrow> let (taken, w) = sem_take api h w in if taken then (0, w) else (-1, w))"

definition mutex_unlock :: "'w i2c_api \<Rightarrow> nat option \<Rightarrow> 'w \<Rightarrow> int \<times> 'w" where
  "mutex_unlock api sem w =
     (case sem of None \<Rightarrow> (-1, w)
      | Some h \<Rightarrow> let (given, w) = sem_give api h w in if given then (0, w) else (-1, w))"

definition mutex_destroy :: "'w i2c_api \<Rightarrow> nat option \<Rightarrow> 'w \<Rightarrow> int \<times> 'w" where
  "mutex_destroy api sem w =
     (case sem of None \<Rightarrow> (-1, w) | Some h \<Rightarrow> (0, sem_delete api h w))"

section \<open>Bus objects\<close>

record i2c_bus_t =
  i2c_conf :: i2c_config_t
  i2c_port :: nat

text \<open>
  The module's state: the table \<open>i2c_bus\<close> of pointers by port, the contents of the heap blocks that
  hold bus objects, and the lock \<open>_busLock\<close>.
\<close>

record i2c_mod =
  i2c_bus :: "nat \<Rightarrow> nat option"
  bus_obj :: "nat \<Rightarrow> i2c_bus_t"
  busLock :: "nat option"

definition i2c_bus_create ::
  "'w i2c_api \<Rightarrow> nat \<Rightarrow> i2c_config_t option \<Rightarrow> 'a io_scheme \<times> i2c_mod \<times> 'w \<Rightarrow>
     (nat option \<times> 'a io_scheme \<times> i2c_mod \<times> 'w) run" where
  "i2c_bus_create api port conf = (\<lambda>(s, m, w).
     if \<not> port < I2C_NUM_MAX then Done (None, s, m, w)
     else case conf of
       None \<Rightarrow> Done (None, s, m, w)
     | Some conf \<Rightarrow>
       (case i2c_bus m port of
          Some p \<Rightarrow> Done (Some p, s, m, w)
        | None \<Rightarrow>
            let (q, s) = io_malloc s; m = m\<lparr>i2c_bus := (i2c_bus m)(port := q)\<rparr>
            in case q of
                 None \<Rightarrow> Crash Null_deref
               | Some p \<Rightarrow>
                   let m = m\<lparr>bus_obj := (bus_obj m)(p := \<lparr>i2c_conf = conf, i2c_port = port\<rparr>)\<rparr>;
                       (ret, w) = i2c_param_config api port conf w;
                       (ret, w) = (if ret = ESP_OK
                                   then i2c_driver_install api port (master_mode conf) 0 0 0 w
                                   else (ret, w))
                   in if ret = ESP_OK
                      then
                        let w = (if busLock m \<noteq> None then snd (mutex_destroy api (busLock m) w) else w);
                            (lock, w) = mutex_init api w
                        in Done (Some p, s, m\<lparr>busLock := lock\<rparr>, w)
                      else Done (None, io_free (Some p) s, m, w)))"

text \<open>Reading the fields of a bus object through a handle; a dead block is undefined behaviour.\<close>

definition i2c_bus_delete ::
  "'w i2c_api \<Rightarrow> nat option \<Rightarrow> 'a io_scheme \<times> i2c_mod \<times> 'w \<Rightarrow>
     (esp_err_t \<times> 'a io_scheme \<times> i2c_mod \<times> 'w) run" where
  "i2c_bus_delete api bus = (\<lambda>(s, m, w).
     case bus of
       None \<Rightarrow> Done (ESP_FAIL, s, m, w)
     | Some p \<Rightarrow>
         if p \<notin> h_live (heap s) then Crash Use_after_free
         else
           let port = i2c_port (bus_obj m p);
               w = i2c_driver_delete api port w;
               m = m\<lparr>i2c_bus := (i2c_bus m)(port := None)\<rparr>;
               s = io_free (Some p) s;
               w = snd (mutex_destroy api (busLock m) w)
           in Done (ESP_OK, s, m\<lparr>busLock := None\<rparr>, w))"

definition i2c_bus_cmd_begin ::
  "'w i2c_api \<Rightarrow> nat option \<Rightarrow> nat option \<Rightarrow> nat \<Rightarrow> 'a io_scheme \<times> i2c_mod \<times> 'w \<Rightarrow>
     ((esp_err_t \<times> (nat \<times> u8) list) \<times> 'a io_scheme \<times> i2c_mod \<times> 'w) run" where
  "i2c_bus_cmd_begin api bus cmd ticks_to_wait = (\<lambda>(s, m, w).
     case bus of
       None \<Rightarrow> Done ((ESP_FAIL, []), s, m, w)
     | Some p \<Rightarrow>
         (case cmd of
            None \<Rightarrow> Done ((ESP_FAIL, []), s, m, w)
          | Some c \<Rightarrow>
              if p \<notin> h_live (heap s) then Crash Use_after_free
              else let (r, w) = i2c_master_cmd_begin api (i2c_port (bus_obj m p)) (Some c) ticks_to_wait w
                   in Done (r, s, m, w)))"

section \<open>Transactions\<close>

text \<open>The commands of a link are added one by one and their statuses collected with \<open>|=\<close>.\<close>

fun link_ops :: "'w i2c_api \<Rightarrow> nat option \<Rightarrow> link_op list \<Rightarrow> int \<Rightarrow> 'w \<Rightarrow> int \<times> 'w" where
  "link_ops api cmd [] res w = (res, w)"
| "link_ops api cmd (op # ops) res w =
     (let (r, w) = i2c_link_add api cmd op w in link_ops api cmd ops (res OR r) w)"

text \<open>One transaction: create the link, fill it, run it on the port for at most a second, delete it.\<close>

definition transaction ::
  "'w i2c_api \<Rightarrow> nat \<Rightarrow> link_op list \<Rightarrow> int \<Rightarrow> 'w \<Rightarrow> (int \<times> (nat \<times> u8) list) \<times> 'w" where
  "transaction api port ops res w =
     (let (cmd, w) = i2c_cmd_link_create api w;
          (res, w) = link_ops api cmd ops res w;
          ((r, bytes), w) = i2c_master_cmd_begin api port cmd (1000 div portTICK_PERIOD_MS) w;
          w = i2c_cmd_link_delete api cmd w
      in ((res OR r, bytes), w))"

text \<open>\<open>locked api sem f\<close> runs \<open>f\<close> between \<open>mutex_lock\<close> and \<open>mutex_unlock\<close>, whose results are dropped.\<close>

definition locked :: "'w i2c_api \<Rightarrow> nat option \<Rightarrow> ('w \<Rightarrow> 'r \<times> 'w) \<Rightarrow> 'w \<Rightarrow> 'r \<times> 'w" where
  "locked api sem f w =
     (let (_, w) = mutex_lock api sem w; (r, w) = f w; (_, w) = mutex_unlock api sem w in (r, w))"

definition i2c_bus_write_bytes ::
  "'w i2c_api \<Rightarrow> i2c_mod \<Rightarrow> nat \<Rightarrow> u8 \<Rightarrow> u8 list \<Rightarrow> u8 list option \<Rightarrow> 'w \<Rightarrow> esp_err_t \<times> 'w" where
  "i2c_bus_write_bytes api m port addr reg data w =
     (if \<not> port < I2C_NUM_MAX then (ESP_FAIL, w)
      else case data of
        None \<Rightarrow> (ESP_FAIL, w)
      | Some data \<Rightarrow>
          let ((res, _), w) = locked api (busLock m) (transaction api port
                [Start, Write_byte addr True, Write reg True, Write data True, Stop] 0) w
          in if res = 0 then (res, w) else (ESP_FAIL, w))"

definition i2c_bus_write_data ::
  "'w i2c_api \<Rightarrow> i2c_mod \<Rightarrow> nat \<Rightarrow> u8 \<Rightarrow> u8 list option \<Rightarrow> 'w \<Rightarrow> esp_err_t \<times> 'w" where
  "i2c_bus_write_data api m port addr data w =
     (if \<not> port < I2C_NUM_MAX then (ESP_FAIL, w)
      else case data of
        None \<Rightarrow> (ESP_FAIL, w)
      | Some data \<Rightarrow>
          let ((res, _), w) = locked api (busLock m) (transaction api port
                [Start, Write_byte addr True, Write data True, Stop] 0) w
          in if res = 0 then (res, w) else (ESP_FAIL, w))"

text \<open>
  The reads of a transaction: \<open>len - 1\<close> bytes that are acknowledged and a last one that is not.
  The last byte is read for every \<open>len\<close>, also for zero and below.
\<close>

definition read_ops :: "int \<Rightarrow> link_op list" where
  "read_ops len = map (\<lambda>i. Read_byte i 0) [0..<nat (len - 1)] @ [Read_byte (nat (len - 1)) 1]"

text \<open>The driver stores the bytes it received at their destinations.\<close>

fun deliver :: "(nat \<times> u8) list \<Rightarrow> u8 list \<Rightarrow> u8 list option" where
  "deliver [] buf = Some buf"
| "deliver ((i, b) # rs) buf = (if i < length buf then deliver rs (buf[i := b]) else None)"

text \<open>
  The same into the two-byte buffer of a register reader, which asks for one byte at index 0; the
  driver stores nothing anywhere else.
\<close>

definition read_value :: "(nat \<times> u8) list \<Rightarrow> u8 list \<Rightarrow> u8" where
  "read_value bytes buf = (case deliver bytes buf of None \<Rightarrow> hd buf | Some b \<Rightarrow> hd b)"

definition i2c_bus_read_bytes ::
  "'w i2c_api \<Rightarrow> i2c_mod \<Rightarrow> nat \<Rightarrow> u8 \<Rightarrow> u8 list option \<Rightarrow> int \<Rightarrow> 'w \<Rightarrow>
     ((esp_err_t \<times> u8 list option) \<times> 'w) run" where
  "i2c_bus_read_bytes api m port addr outdata len w =
     (if \<not> port < I2C_NUM_MAX then Done ((ESP_FAIL, outdata), w)
      else case outdata of
        None \<Rightarrow> Done ((ESP_FAIL, outdata), w)
      | Some buf \<Rightarrow>
          let ((res, bytes), w) = locked api (busLock m) (transaction api port
                ([Start, Write_byte addr True] @ read_ops len @ [Stop]) 0) w
          in case deliver bytes buf of
               None \<Rightarrow> Crash Out_of_bounds
             | Some buf \<Rightarrow> Done ((if res = 0 then res else ESP_FAIL, Some buf), w))"

text \<open>
  The register read that the three codec drivers share word for word (\<open>es8156_read\<close>,
  \<open>es7243e_read\<close>, \<open>tas5805mReadReg_2\<close>): one transaction selects the register, a second one reads.
  It goes past the lock.  The received bytes are left to the caller's buffer.
\<close>

definition codec_read ::
  "'w i2c_api \<Rightarrow> u8 \<Rightarrow> u8 \<Rightarrow> int \<Rightarrow> 'w \<Rightarrow> (int \<times> (nat \<times> u8) list) \<times> 'w" where
  "codec_read api addr regAdd len w =
     (let ((res, _), w) = transaction api 0
            [Start, Write_byte addr True, Write_byte regAdd True, Stop] 0 w
      in transaction api 0
           ([Start, Write_byte (addr OR 1) True] @ read_ops len @ [Stop]) res w)"

section \<open>The result of a transaction\<close>

lemma int_or_zero: "(a OR b :: int) = 0 \<longleftrightarrow> a = 0 \<and> b = 0"
  by (rule or_eq_0_iff)

text \<open>The statuses of the commands of a link, in order, and the state after the last one.\<close>

fun link_statuses :: "'w i2c_api \<Rightarrow> nat option \<Rightarrow> link_op list \<Rightarrow> 'w \<Rightarrow> int list \<times> 'w" where
  "link_statuses api cmd [] w = ([], w)"
| "link_statuses api cmd (op # ops) w =
     (let (r, w) = i2c_link_add api cmd op w; (rs, w) = link_statuses api cmd ops w in (r # rs, w))"

lemma link_ops_statuses:
  "link_ops api cmd ops res w =
     (let (rs, w') = link_statuses api cmd ops w in (foldl (OR) res rs, w'))"
  by (induction ops arbitrary: res w) (auto simp: Let_def split: prod.splits)

lemma foldl_or_zero: "foldl (OR) (r :: int) rs = 0 \<longleftrightarrow> r = 0 \<and> (\<forall>x \<in> set rs. x = 0)"
  by (induction rs arbitrary: r) (auto simp: int_or_zero)

section \<open>The documented driver\<close>

text \<open>
  What the documentation of the driver and of the chips promises, on a view of the outside world:
  the links that exist with their commands, the registers of the chips by write address, the
  register that is selected for reading, and the counts of the semaphores.
\<close>

record i2c_view =
  v_links :: "nat \<Rightarrow> link_op list option"
  v_regs :: "u8 \<Rightarrow> u8 \<Rightarrow> u8"
  v_sel :: "u8 \<Rightarrow> u8"
  v_count :: "nat \<Rightarrow> nat option"

text \<open>
  What the chip at write address \<open>a\<close> does with the rest of a link, after its address was sent for
  writing or (\<open>rd\<close>) for reading: a register write, a register selection, a read of one byte.
  \<open>None\<close>: nothing is promised about such a link here.
\<close>

fun chip_xfer :: "u8 \<Rightarrow> bool \<Rightarrow> link_op list \<Rightarrow> i2c_view \<Rightarrow> ((nat \<times> u8) list \<times> i2c_view) option" where
  "chip_xfer a False [Write rs c, Write vs c', Stop] d =
     (case (rs, vs) of
        ([r], [v]) \<Rightarrow> Some ([], d\<lparr>v_regs := (v_regs d)(a := (v_regs d a)(r := v))\<rparr>)
      | _ \<Rightarrow> None)"
| "chip_xfer a False [Write_byte r c, Stop] d = Some ([], d\<lparr>v_sel := (v_sel d)(a := r)\<rparr>)"
| "chip_xfer a True [Read_byte i n, Stop] d =
     (if i = 0 then Some ([(0, v_regs d a (v_sel d a))], d) else None)"
| "chip_xfer a rd ops d = None"

text \<open>No chip of the set \<open>dev\<close> at the address: nothing acknowledges and the transfer fails.\<close>

definition xfer :: "u8 set \<Rightarrow> link_op list \<Rightarrow> i2c_view \<Rightarrow> (int \<times> (nat \<times> u8) list \<times> i2c_view) option" where
  "xfer dev ops d =
     (case ops of
        Start # Write_byte b ack # body \<Rightarrow>
          let a = b AND 0xFE
          in if a \<in> dev
             then (case chip_xfer a (bit b 0) body d of
                     None \<Rightarrow> None | Some (bytes, d) \<Rightarrow> Some (0, bytes, d))
             else Some (ESP_FAIL, [], d)
      | _ \<Rightarrow> None)"

definition i2c_documented :: "'w i2c_api \<Rightarrow> u8 set \<Rightarrow> ('w \<Rightarrow> i2c_view) \<Rightarrow> bool" where
  "i2c_documented api dev view \<longleftrightarrow>
     (\<forall>w. \<exists>h w'. i2c_cmd_link_create api w = (Some h, w') \<and> v_links (view w) h = None \<and>
        view w' = view w\<lparr>v_links := (v_links (view w))(h \<mapsto> [])\<rparr>) \<and>
     (\<forall>w h ops op. v_links (view w) h = Some ops \<longrightarrow>
        (\<exists>w'. i2c_link_add api (Some h) op w = (0, w') \<and>
           view w' = view w\<lparr>v_links := (v_links (view w))(h \<mapsto> ops @ [op])\<rparr>)) \<and>
     (\<forall>w h t ops r bytes d. v_links (view w) h = Some ops \<longrightarrow>
        xfer dev ops (view w) = Some (r, bytes, d) \<longrightarrow>
        (\<exists>w'. i2c_master_cmd_begin api 0 (Some h) t w = ((r, bytes), w') \<and> view w' = d)) \<and>
     (\<forall>w h. view (i2c_cmd_link_delete api (Some h) w) =
        view w\<lparr>v_links := (v_links (view w))(h := None)\<rparr>) \<and>
     (\<forall>w h n. v_count (view w) h = Some (Suc n) \<longrightarrow>
        (\<exists>w'. sem_take api h w = (True, w') \<and>
           view w' = view w\<lparr>v_count := (v_count (view w))(h \<mapsto> n)\<rparr>)) \<and>
     (\<forall>w h. v_count (view w) h = Some 0 \<longrightarrow>
        (\<exists>w'. sem_give api h w = (True, w') \<and>
           view w' = view w\<lparr>v_count := (v_count (view w))(h \<mapsto> 1)\<rparr>))"

lemma documented_create:
  assumes "i2c_documented api dev view"
  obtains h w' where "i2c_cmd_link_create api w = (Some h, w')" and "v_links (view w) h = None"
    and "view w' = view w\<lparr>v_links := (v_links (view w))(h \<mapsto> [])\<rparr>"
  using assms unfolding i2c_documented_def by (elim conjE) (metis (no_types))

lemma documented_add:
  assumes "i2c_documented api dev view" and "v_links (view w) h = Some ops"
  obtains w' where "i2c_link_add api (Some h) op w = (0, w')"
    and "view w' = view w\<lparr>v_links := (v_links (view w))(h \<mapsto> ops @ [op])\<rparr>"
  using assms unfolding i2c_documented_def by (elim conjE) (metis (no_types))

lemma documented_begin:
  assumes "i2c_documented api dev view" and "v_links (view w) h = Some ops"
    and "xfer dev ops (view w) = Some (r, bytes, d)"
  obtains w' where "i2c_master_cmd_begin api 0 (Some h) t w = ((r, bytes), w')" and "view w' = d"
  using assms unfolding i2c_documented_def by (elim conjE) (metis (no_types))

lemma documented_delete:
  assumes "i2c_documented api dev view"
  shows "view (i2c_cmd_link_delete api (Some h) w) =
    view w\<lparr>v_links := (v_links (view w))(h := None)\<rparr>"
  using assms unfolding i2c_documented_def by (elim conjE) (metis (no_types))

lemma documented_take:
  assumes "i2c_documented api dev view" and "v_count (view w) h = Some (Suc n)"
  obtains w' where "sem_take api h w = (True, w')"
    and "view w' = view w\<lparr>v_count := (v_count (view w))(h \<mapsto> n)\<rparr>"
  using assms unfolding i2c_documented_def by (elim conjE) (metis (no_types))

lemma documented_give:
  assumes "i2c_documented api dev view" and "v_count (view w) h = Some 0"
  obtains w' where "sem_give api h w = (True, w')"
    and "view w' = view w\<lparr>v_count := (v_count (view w))(h \<mapsto> 1)\<rparr>"
  using assms unfolding i2c_documented_def by (elim conjE) (metis (no_types))

text \<open>The lock exists and nobody holds it.\<close>

definition lock_free :: "i2c_mod \<Rightarrow> i2c_view \<Rightarrow> bool" where
  "lock_free m d \<longleftrightarrow> (\<exists>h. busLock m = Some h \<and> v_count d h = Some 1)"

lemma link_ops_documented:
  assumes "i2c_documented api dev view" and "v_links (view w) h = Some ops0"
  shows "\<exists>w'. link_ops api (Some h) ops res w = (res, w') \<and>
     view w' = view w\<lparr>v_links := (v_links (view w))(h \<mapsto> ops0 @ ops)\<rparr>"
  using assms(2)
proof (induction ops arbitrary: w ops0)
  case Nil
  then have "(v_links (view w))(h \<mapsto> ops0) = v_links (view w)" by auto
  then show ?case by simp
next
  case (Cons op ops)
  obtain w1 where 1: "i2c_link_add api (Some h) op w = (0, w1)"
    "view w1 = view w\<lparr>v_links := (v_links (view w))(h \<mapsto> ops0 @ [op])\<rparr>"
    using documented_add [OF assms(1) Cons.prems] .
  then have "v_links (view w1) h = Some (ops0 @ [op])" by simp
  from Cons.IH [OF this] 1 show ?case by (auto simp del: fun_upd_apply)
qed

text \<open>A transaction does to the chips what running its link does; it leaves no link behind.\<close>

lemma transaction_documented:
  assumes doc: "i2c_documented api dev view"
    and x: "\<And>l. xfer dev ops (view w\<lparr>v_links := l\<rparr>) = Some (r, bytes, d l)"
    and d: "\<And>l. v_links (d l) = l" "\<And>l l'. (d l)\<lparr>v_links := l'\<rparr> = d l'"
  shows "\<exists>w'. transaction api 0 ops res w = ((res OR r, bytes), w') \<and> view w' = d (v_links (view w))"
proof -
  obtain h w1 where 1: "i2c_cmd_link_create api w = (Some h, w1)"
    "v_links (view w) h = None" "view w1 = view w\<lparr>v_links := (v_links (view w))(h \<mapsto> [])\<rparr>"
    using documented_create [OF doc] .
  then have "v_links (view w1) h = Some []" by simp
  from link_ops_documented [OF doc this, of ops res] 1(3) obtain w2 where
    2: "link_ops api (Some h) ops res w1 = (res, w2)"
    "view w2 = view w\<lparr>v_links := (v_links (view w))(h \<mapsto> ops)\<rparr>"
    by (auto simp del: fun_upd_apply)
  then have l2: "v_links (view w2) h = Some ops" by simp
  have "xfer dev ops (view w2) = Some (r, bytes, d ((v_links (view w))(h \<mapsto> ops)))"
    unfolding 2 by (rule x)
  then obtain w3 where
    3: "i2c_master_cmd_begin api 0 (Some h) (1000 div portTICK_PERIOD_MS) w2 = ((r, bytes), w3)"
    "view w3 = d ((v_links (view w))(h \<mapsto> ops))"
    by (rule documented_begin [OF doc l2])
  have "view (i2c_cmd_link_delete api (Some h) w3) =
      view w3\<lparr>v_links := (v_links (view w3))(h := None)\<rparr>"
    using doc by (rule documented_delete)
  also have "\<dots> = d (v_links (view w))"
    using 1(2) by (simp add: 3(2) d fun_upd_idem)
  finally show ?thesis
    using 1(1) 2(1) 3(1) by (simp add: transaction_def)
qed

lemma locked_documented:
  assumes doc: "i2c_documented api dev view" and free: "lock_free m (view w)"
    and f: "\<And>w1. view w1 = view w\<lparr>v_count := v_count (view w1)\<rparr> \<Longrightarrow>
       \<exists>w2. f w1 = (r, w2) \<and> view w2 = (d (view w))\<lparr>v_count := v_count (view w1)\<rparr>"
    and d: "v_count (d (view w)) = v_count (view w)"
  shows "\<exists>w'. locked api (busLock m) f w = (r, w') \<and> view w' = d (view w)"
proof -
  from free obtain h where h: "busLock m = Some h" "v_count (view w) h = Some 1"
    by (auto simp: lock_free_def)
  then have "v_count (view w) h = Some (Suc 0)" by simp
  then obtain w1 where 1: "sem_take api h w = (True, w1)"
    "view w1 = view w\<lparr>v_count := (v_count (view w))(h \<mapsto> 0)\<rparr>"
    by (rule documented_take [OF doc])
  then have "view w1 = view w\<lparr>v_count := v_count (view w1)\<rparr>" by simp
  from f [OF this] obtain w2 where 2: "f w1 = (r, w2)"
    "view w2 = (d (view w))\<lparr>v_count := (v_count (view w))(h \<mapsto> 0)\<rparr>"
    using 1(2) by auto
  then have "v_count (view w2) h = Some 0" by simp
  then obtain w3 where 3: "sem_give api h w2 = (True, w3)"
    "view w3 = view w2\<lparr>v_count := (v_count (view w2))(h \<mapsto> 1)\<rparr>"
    by (rule documented_give [OF doc])
  have "(v_count (view w))(h \<mapsto> 1) = v_count (view w)" using h(2) by auto
  then have "view w3 = d (view w)" by (simp add: 3(2) 2(2) d [symmetric])
  with h 1 2 3 show ?thesis by (simp add: locked_def mutex_lock_def mutex_unlock_def)
qed

text \<open>A write address is even; the read address has bit 0 set.\<close>

lemma bit_FE: "bit (0xFE :: u8) n \<longleftrightarrow> 0 < n \<and> n < 8"
proof -
  have "n < 8 \<Longrightarrow> n \<in> {0, 1, 2, 3, 4, 5, 6, 7}" by auto
  moreover have "\<not> n < 8 \<Longrightarrow> \<not> bit (0xFE :: u8) n" using impossible_bit [where ?'a = u8, of n] by simp
  ultimately show ?thesis by (cases "n < 8") (auto simp: bit_iff_odd)
qed

lemma write_address:
  fixes a :: u8
  assumes "\<not> bit a 0"
  shows "a AND 0xFE = a" and "(a OR 1) AND 0xFE = a" and "bit (a OR 1) 0"
proof -
  have nz: "0 < n \<and> n < 8" if "bit a n" for n
    using assms that bit_imp_le_length [OF that] by (cases n) auto
  have odd: "bit (1 :: u8) n \<longleftrightarrow> n = 0" for n by (simp add: bit_1_iff)
  show "a AND 0xFE = a"
    using nz by (intro bit_word_eqI) (auto simp only: bit_and_iff bit_FE)
  show "(a OR 1) AND 0xFE = a"
    using nz by (intro bit_word_eqI) (auto simp only: bit_and_iff bit_or_iff bit_FE odd)
  show "bit (a OR 1) 0" by (simp only: bit_or_iff odd refl simp_thms)
qed

lemma write_register_documented:
  assumes doc: "i2c_documented api dev view" and free: "lock_free m (view w)" and a: "\<not> bit a 0"
  shows "\<exists>w'. i2c_bus_write_bytes api m 0 a [r] (Some [v]) w =
           (if a \<in> dev then ESP_OK else ESP_FAIL, w') \<and>
         view w' = (if a \<in> dev
           then view w\<lparr>v_regs := (v_regs (view w))(a := (v_regs (view w) a)(r := v))\<rparr> else view w)"
proof -
  let ?ops = "[Start, Write_byte a True, Write [r] True, Write [v] True, Stop]"
  let ?r = "if a \<in> dev then ESP_OK else ESP_FAIL"
  let ?d = "\<lambda>d. if a \<in> dev then d\<lparr>v_regs := (v_regs d)(a := (v_regs d a)(r := v))\<rparr> else d"
  have "\<exists>w'. locked api (busLock m) (transaction api 0 ?ops 0) w = ((?r, []), w') \<and>
      view w' = ?d (view w)"
  proof (rule locked_documented [OF doc free])
    fix w1 assume w1: "view w1 = view w\<lparr>v_count := v_count (view w1)\<rparr>"
    have x: "xfer dev ?ops (view w1\<lparr>v_links := l\<rparr>) = Some (?r, [], ?d (view w1\<lparr>v_links := l\<rparr>))" for l
      using a by (simp add: xfer_def write_address)
    obtain w2 where "transaction api 0 ?ops 0 w1 = ((?r, []), w2)"
      "view w2 = ?d (view w1\<lparr>v_links := v_links (view w1)\<rparr>)"
      using transaction_documented [OF doc x, of 0] by (cases "a \<in> dev") auto
    moreover have "view w1\<lparr>v_links := v_links (view w1)\<rparr> = view w1" by simp
    moreover have "?d (view w1) = (?d (view w))\<lparr>v_count := v_count (view w1)\<rparr>"
      by (subst (1 2 3 4) w1) simp
    ultimately show "\<exists>w2. transaction api 0 ?ops 0 w1 = ((?r, []), w2) \<and>
        view w2 = (?d (view w))\<lparr>v_count := v_count (view w1)\<rparr>"
      by auto
  qed simp
  then show ?thesis by (auto simp: i2c_bus_write_bytes_def I2C_NUM_MAX_def Let_def)
qed

lemma codec_read_documented:
  assumes doc: "i2c_documented api dev view" and a: "\<not> bit a 0" and dev: "a \<in> dev"
  shows "\<exists>w'. codec_read api a r 1 w = ((0, [(0, v_regs (view w) a r)]), w') \<and>
         view w' = view w\<lparr>v_sel := (v_sel (view w))(a := r)\<rparr>"
proof -
  let ?sel = "[Start, Write_byte a True, Write_byte r True, Stop]"
  let ?d = "\<lambda>l. view w\<lparr>v_links := l, v_sel := (v_sel (view w))(a := r)\<rparr>"
  have "xfer dev ?sel (view w\<lparr>v_links := l\<rparr>) = Some (0, [], ?d l)" for l
    using a dev by (simp add: xfer_def write_address)
  from transaction_documented [OF doc this, of 0] obtain w1 where
    1: "transaction api 0 ?sel 0 w = ((0, []), w1)" "view w1 = ?d (v_links (view w))" by auto
  let ?rd = "[Start, Write_byte (a OR 1) True] @ read_ops 1 @ [Stop]"
  have "xfer dev ?rd (view w1\<lparr>v_links := l\<rparr>) =
      Some (0, [(0, v_regs (view w) a r)], view w1\<lparr>v_links := l\<rparr>)" for l
    using a dev by (simp add: xfer_def write_address read_ops_def 1)
  from transaction_documented [OF doc this, of 0] obtain w2 where
    2: "transaction api 0 ?rd 0 w1 = ((0, [(0, v_regs (view w) a r)]), w2)" "view w2 = view w1"
    by auto
  from 1 2 show ?thesis by (simp add: codec_read_def)
qed

section \<open>Register devices\<close>

text \<open>
  The drivers of the chips program them by sequences of register writes whose statuses are
  collected with \<open>|=\<close>.
\<close>

fun write_regs :: "(u8 \<Rightarrow> u8 \<Rightarrow> 'w \<Rightarrow> int \<times> 'w) \<Rightarrow> (u8 \<times> u8) list \<Rightarrow> int \<Rightarrow> 'w \<Rightarrow> int \<times> 'w" where
  "write_regs wr [] ret w = (ret, w)"
| "write_regs wr ((r, v) # rvs) ret w =
     (let (x, w) = wr r v w in write_regs wr rvs (ret OR x) w)"

text \<open>The registers after a sequence of writes, and the last value written to each register.\<close>

definition apply_regs :: "(u8 \<times> u8) list \<Rightarrow> (u8 \<Rightarrow> u8) \<Rightarrow> u8 \<Rightarrow> u8" where
  "apply_regs rvs f = foldl (\<lambda>f (r, v). f(r := v)) f rvs"

lemma apply_regs_simps [bus_simps]:
  "apply_regs [] f = f" "apply_regs ((r, v) # rvs) f = apply_regs rvs (f(r := v))"
  "apply_regs (xs @ ys) f = apply_regs ys (apply_regs xs f)"
  by (simp_all add: apply_regs_def)

lemma apply_regs_last:
  "apply_regs rvs f r = (case map_of (rev rvs) r of None \<Rightarrow> f r | Some v \<Rightarrow> v)"
  by (induction rvs arbitrary: f) (auto simp: bus_simps map_add_def split: option.splits)

text \<open>Writing the same sequence a second time changes nothing.\<close>

lemma apply_regs_idem: "apply_regs rvs (apply_regs rvs f) = apply_regs rvs f"
  by (rule ext) (simp add: apply_regs_last split: option.splits)

text \<open>
  The interface of a register driver: a write answers success or -1, and with a working chip
  (\<open>ok\<close>) it succeeds and changes this one register.
\<close>

locale reg_writer =
  fixes wr :: "u8 \<Rightarrow> u8 \<Rightarrow> 'w \<Rightarrow> int \<times> 'w"
    and ok :: "'w \<Rightarrow> bool"
    and regs :: "'w \<Rightarrow> u8 \<Rightarrow> u8"
  assumes wr_status: "fst (wr r v w) \<in> {0, -1}"
    and wr_ok: "ok w \<Longrightarrow> \<exists>w'. wr r v w = (0, w') \<and> ok w' \<and> regs w' = (regs w)(r := v)"
begin

lemma seq_status: "ret \<in> {0, -1} \<Longrightarrow> fst (write_regs wr rvs ret w) \<in> {0, -1}"
proof (induction rvs arbitrary: ret w)
  case (Cons rv rvs)
  obtain r v where rv: "rv = (r, v)" by (cases rv)
  obtain x w' where x: "wr r v w = (x, w')" by (cases "wr r v w")
  with wr_status [of r v w] Cons.prems have "ret OR x \<in> {0, -1}" by auto
  from Cons.IH [OF this] show ?case by (simp add: rv x)
qed simp

lemma seq_ok: "ok w \<Longrightarrow>
  \<exists>w'. write_regs wr rvs ret w = (ret, w') \<and> ok w' \<and> regs w' = apply_regs rvs (regs w)"
proof (induction rvs arbitrary: ret w)
  case (Cons rv rvs)
  obtain r v where rv: "rv = (r, v)" by (cases rv)
  obtain w1 where 1: "wr r v w = (0, w1)" "ok w1" "regs w1 = (regs w)(r := v)"
    using wr_ok [OF Cons.prems, of r v] by blast
  show ?case using Cons.IH [OF 1(2), of ret] 1 by (simp add: rv bus_simps del: fun_upd_apply)
qed (simp add: bus_simps)

end

text \<open>A register device can be read back as well.\<close>

locale reg_device = reg_writer +
  fixes rd :: "u8 \<Rightarrow> 'w \<Rightarrow> int \<times> 'w"
  assumes rd_ok: "ok w \<Longrightarrow> \<exists>w'. rd r w = (uint (regs w r), w') \<and> ok w' \<and> regs w' = regs w"
begin

lemma read_back: "ok w \<Longrightarrow>
  \<exists>w1 w2. wr r v w = (0, w1) \<and> rd r w1 = (uint v, w2) \<and> ok w2 \<and> regs w2 = (regs w)(r := v)"
  using wr_ok [of w r v] rd_ok by (metis fun_upd_same)

end

text \<open>The condition \<open>ok\<close> of the drivers on this bus: a documented driver, a chip at the address,
  a lock nobody holds; and the registers of the chip.\<close>

definition chip_ok :: "'w i2c_api \<Rightarrow> u8 set \<Rightarrow> ('w \<Rightarrow> i2c_view) \<Rightarrow> i2c_mod \<Rightarrow> u8 \<Rightarrow> 'w \<Rightarrow> bool" where
  "chip_ok api dev view m a w \<longleftrightarrow>
     i2c_documented api dev view \<and> \<not> bit a 0 \<and> a \<in> dev \<and> lock_free m (view w)"

definition chip_regs :: "('w \<Rightarrow> i2c_view) \<Rightarrow> u8 \<Rightarrow> 'w \<Rightarrow> u8 \<Rightarrow> u8" where
  "chip_regs view a w = v_regs (view w) a"

text \<open>The two operations of the bus in the form the driver interface asks for.\<close>

lemma chip_write_status: "fst (i2c_bus_write_bytes api m p a rs v w) \<in> {0, -1}"
  by (auto simp: i2c_bus_write_bytes_def Let_def split: prod.splits option.splits)

lemma chip_write_ok:
  assumes "chip_ok api dev view m a w"
  shows "\<exists>w'. i2c_bus_write_bytes api m 0 a [r] (Some [v]) w = (0, w') \<and>
     chip_ok api dev view m a w' \<and> chip_regs view a w' = (chip_regs view a w)(r := v)"
  using assms write_register_documented [of api dev view m w a r v]
  by (auto simp: chip_ok_def chip_regs_def lock_free_def)

lemma chip_read_ok:
  assumes "chip_ok api dev view m a w"
  shows "\<exists>w'. codec_read api a r 1 w = ((0, [(0, chip_regs view a w r)]), w') \<and>
     chip_ok api dev view m a w' \<and> chip_regs view a w' = chip_regs view a w"
  using assms codec_read_documented [of api dev view a r w]
  by (auto simp: chip_ok_def chip_regs_def lock_free_def)

section \<open>A driver that behaves as documented\<close>

text \<open>A link is a place in a list that is \<open>None\<close> once the link is deleted.\<close>

record mem_i2c =
  mi_links :: "link_op list option list"
  mi_regs :: "u8 \<Rightarrow> u8 \<Rightarrow> u8"
  mi_sel :: "u8 \<Rightarrow> u8"
  mi_count :: "nat \<Rightarrow> nat option"

definition mem_view :: "mem_i2c \<Rightarrow> i2c_view" where
  "mem_view w = \<lparr>v_links = (\<lambda>h. if h < length (mi_links w) then mi_links w ! h else None),
     v_regs = mi_regs w, v_sel = mi_sel w, v_count = mi_count w\<rparr>"

definition mem_api :: "u8 set \<Rightarrow> mem_i2c i2c_api" where
  "mem_api dev = \<lparr>
     i2c_param_config = \<lambda>p c w. (ESP_OK, w),
     i2c_driver_install = \<lambda>p b r t f w. (ESP_OK, w),
     i2c_driver_delete = \<lambda>p w. w,
     i2c_cmd_link_create = \<lambda>w.
       (Some (length (mi_links w)), w\<lparr>mi_links := mi_links w @ [Some []]\<rparr>),
     i2c_link_add = \<lambda>c op w.
       (case c of None \<Rightarrow> (ESP_FAIL, w)
        | Some h \<Rightarrow> (case v_links (mem_view w) h of None \<Rightarrow> (ESP_FAIL, w)
            | Some ops \<Rightarrow> (ESP_OK, w\<lparr>mi_links := (mi_links w)[h := Some (ops @ [op])]\<rparr>))),
     i2c_master_cmd_begin = \<lambda>p c t w.
       (case c of None \<Rightarrow> ((ESP_FAIL, []), w)
        | Some h \<Rightarrow> (case v_links (mem_view w) h of None \<Rightarrow> ((ESP_FAIL, []), w)
            | Some ops \<Rightarrow> (case xfer dev ops (mem_view w) of None \<Rightarrow> ((ESP_FAIL, []), w)
                | Some (r, bytes, d) \<Rightarrow>
                    ((r, bytes), w\<lparr>mi_regs := v_regs d, mi_sel := v_sel d\<rparr>)))),
     i2c_cmd_link_delete = \<lambda>c w.
       (case c of None \<Rightarrow> w | Some h \<Rightarrow> w\<lparr>mi_links := (mi_links w)[h := None]\<rparr>),
     sem_create = \<lambda>m i w. (Some 0, w\<lparr>mi_count := (mi_count w)(0 \<mapsto> i)\<rparr>),
     sem_take = \<lambda>h w.
       (case mi_count w h of Some (Suc n) \<Rightarrow> (True, w\<lparr>mi_count := (mi_count w)(h \<mapsto> n)\<rparr>)
        | _ \<Rightarrow> (False, w)),
     sem_give = \<lambda>h w.
       (case mi_count w h of Some 0 \<Rightarrow> (True, w\<lparr>mi_count := (mi_count w)(h \<mapsto> 1)\<rparr>)
        | _ \<Rightarrow> (False, w)),
     sem_delete = \<lambda>h w. w\<lparr>mi_count := (mi_count w)(h := None)\<rparr>\<rparr>"

lemma chip_xfer_frame: "chip_xfer a rd ops d = Some (bytes, d') \<Longrightarrow>
    v_links d' = v_links d \<and> v_count d' = v_count d"
  by (induction a rd ops d rule: chip_xfer.induct) (auto split: list.splits if_splits)

lemma xfer_frame: "xfer dev ops d = Some (r, bytes, d') \<Longrightarrow>
    v_links d' = v_links d \<and> v_count d' = v_count d"
  by (auto simp: xfer_def Let_def dest: chip_xfer_frame
      split: list.splits link_op.splits if_splits option.splits)

lemma mem_i2c_documented: "i2c_documented (mem_api dev) dev mem_view"
  unfolding i2c_documented_def
proof (intro conjI allI impI)
  fix w
  show "\<exists>h w'. i2c_cmd_link_create (mem_api dev) w = (Some h, w') \<and> v_links (mem_view w) h = None \<and>
      mem_view w' = mem_view w\<lparr>v_links := (v_links (mem_view w))(h \<mapsto> [])\<rparr>"
    by (auto simp: mem_api_def mem_view_def fun_eq_iff nth_append)
next
  fix w h ops op assume "v_links (mem_view w) h = Some ops"
  then show "\<exists>w'. i2c_link_add (mem_api dev) (Some h) op w = (0, w') \<and>
      mem_view w' = mem_view w\<lparr>v_links := (v_links (mem_view w))(h \<mapsto> ops @ [op])\<rparr>"
    by (auto simp: mem_api_def mem_view_def fun_eq_iff split: if_splits)
next
  fix w h t ops r bytes d
  assume "v_links (mem_view w) h = Some ops" and x: "xfer dev ops (mem_view w) = Some (r, bytes, d)"
  then show "\<exists>w'. i2c_master_cmd_begin (mem_api dev) 0 (Some h) t w = ((r, bytes), w') \<and>
      mem_view w' = d"
    using xfer_frame [OF x] by (simp add: mem_api_def) (cases d, simp add: mem_view_def cong: if_cong)
next
  fix w h
  show "mem_view (i2c_cmd_link_delete (mem_api dev) (Some h) w) =
      mem_view w\<lparr>v_links := (v_links (mem_view w))(h := None)\<rparr>"
    by (auto simp: mem_api_def mem_view_def fun_eq_iff)
next
  fix w h n assume "v_count (mem_view w) h = Some (Suc n)"
  then show "\<exists>w'. sem_take (mem_api dev) h w = (True, w') \<and>
      mem_view w' = mem_view w\<lparr>v_count := (v_count (mem_view w))(h \<mapsto> n)\<rparr>"
    by (auto simp: mem_api_def mem_view_def)
next
  fix w h assume "v_count (mem_view w) h = Some 0"
  then show "\<exists>w'. sem_give (mem_api dev) h w = (True, w') \<and>
      mem_view w' = mem_view w\<lparr>v_count := (v_count (mem_view w))(h \<mapsto> 1)\<rparr>"
    by (auto simp: mem_api_def mem_view_def)
qed

text \<open>A state in which the bus is up: the lock 0 is free, all registers hold zero.\<close>

definition mem0 :: mem_i2c where
  "mem0 = \<lparr>mi_links = [], mi_regs = \<lambda>_ _. 0, mi_sel = \<lambda>_. 0, mi_count = [0 \<mapsto> 1]\<rparr>"

definition i2c_up :: i2c_mod where
  "i2c_up = \<lparr>i2c_bus = \<lambda>_. None,
     bus_obj = \<lambda>_. \<lparr>i2c_conf = \<lparr>master_mode = True, sda_io_num = 18, scl_io_num = 23,
       sda_pullup_en = True, scl_pullup_en = True, clk_speed = 100000\<rparr>, i2c_port = 0\<rparr>,
     busLock = Some 0\<rparr>"

lemma mem0_ok: "a \<in> dev \<Longrightarrow> \<not> bit a 0 \<Longrightarrow> chip_ok (mem_api dev) dev mem_view i2c_up a mem0"
  by (simp add: chip_ok_def mem_i2c_documented lock_free_def i2c_up_def mem0_def mem_view_def)

section \<open>Properties of transactions\<close>

text \<open>
  The answer of a register write is exact: with a valid port and data it is success when the
  status of every command put into the link and of the transfer itself is zero, and ESP\_FAIL
  otherwise, whatever the codes were; no code is lost by collecting them with "or".
\<close>

lemma i2c_write_bytes_status:
  "fst (i2c_bus_write_bytes api m port addr reg data w) =
     (if port < I2C_NUM_MAX \<and> data \<noteq> None
      then
        let (_, w1) = mutex_lock api (busLock m) w;
            (cmd, w2) = i2c_cmd_link_create api w1;
            (rs, w3) = link_statuses api cmd
              [Start, Write_byte addr True, Write reg True, Write (the data) True, Stop] w2;
            ((r, _), w4) = i2c_master_cmd_begin api port cmd 1000 w3
        in if (\<forall>x \<in> set (rs @ [r]). x = 0) then ESP_OK else ESP_FAIL
      else ESP_FAIL)"
  by (auto simp: i2c_bus_write_bytes_def locked_def transaction_def link_ops_statuses Let_def
      foldl_or_zero int_or_zero split: prod.splits option.splits)

text \<open>
  C22. With a driver and a chip that behave as documented and a free lock, a register write changes
  exactly that register of the chip, a write to an address where no chip answers fails and changes
  nothing; in both cases the lock is free again and the command link is gone.
\<close>

theorem i2c_write_register:
  assumes "i2c_documented api dev view" and "lock_free m (view w)" and "\<not> bit a 0"
  shows "\<exists>w'. i2c_bus_write_bytes api m 0 a [r] (Some [v]) w =
           (if a \<in> dev then ESP_OK else ESP_FAIL, w') \<and>
         lock_free m (view w') \<and> v_links (view w') = v_links (view w) \<and>
         view w' = (if a \<in> dev
           then view w\<lparr>v_regs := (v_regs (view w))(a := (v_regs (view w) a)(r := v))\<rparr> else view w)"
  using write_register_documented [OF assms, of r v] assms(2)
  by (auto simp: lock_free_def)

theorem i2c_write_register_witness:
  "\<exists>w'. i2c_bus_write_bytes (mem_api {0x10}) i2c_up 0 0x10 [0x14] (Some [0xBF]) mem0 = (0, w') \<and>
     v_regs (mem_view w') 0x10 0x14 = 0xBF"
proof -
  have "lock_free i2c_up (mem_view mem0)"
    by (simp add: lock_free_def i2c_up_def mem0_def mem_view_def)
  from i2c_write_register [OF mem_i2c_documented this, of "0x10" "{0x10}" "0x14" "0xBF"]
  show ?thesis by auto
qed

text \<open>Every transaction is over before the next one starts: nothing but the lock changes hands.\<close>

definition sem_balanced :: "'w i2c_api \<Rightarrow> ('w \<Rightarrow> nat \<Rightarrow> nat option) \<Rightarrow> bool" where
  "sem_balanced api cnt \<longleftrightarrow>
     (\<forall>w h n. cnt w h = Some (Suc n) \<longrightarrow>
        fst (sem_take api h w) \<and> cnt (snd (sem_take api h w)) = (cnt w)(h \<mapsto> n)) \<and>
     (\<forall>w h. cnt w h = Some 0 \<longrightarrow> cnt (snd (sem_give api h w)) = (cnt w)(h \<mapsto> 1)) \<and>
     (\<forall>w. cnt (snd (i2c_cmd_link_create api w)) = cnt w) \<and>
     (\<forall>c op w. cnt (snd (i2c_link_add api c op w)) = cnt w) \<and>
     (\<forall>p c t w. cnt (snd (i2c_master_cmd_begin api p c t w)) = cnt w) \<and>
     (\<forall>c w. cnt (i2c_cmd_link_delete api c w) = cnt w)"

lemma link_ops_count:
  "sem_balanced api cnt \<Longrightarrow> cnt (snd (link_ops api cmd ops res w)) = cnt w"
proof (induction ops arbitrary: res w)
  case (Cons op ops)
  have "cnt (snd (i2c_link_add api cmd op w)) = cnt w"
    using Cons.prems unfolding sem_balanced_def by blast
  with Cons show ?case by (simp add: split_def Let_def)
qed simp

lemma transaction_count:
  assumes "sem_balanced api cnt"
  shows "cnt (snd (transaction api port ops res w)) = cnt w"
  using assms link_ops_count [OF assms]
  by (simp add: transaction_def split_def Let_def sem_balanced_def)

lemma locked_count:
  assumes "sem_balanced api cnt" and "cnt w h = Some 1" and "\<And>w. cnt (snd (f w)) = cnt w"
  shows "cnt (snd (locked api (Some h) f w)) = cnt w"
proof -
  have take: "fst (sem_take api h w)" "cnt (snd (sem_take api h w)) = (cnt w)(h \<mapsto> 0)"
    using assms(1,2) unfolding sem_balanced_def by auto
  let ?w2 = "snd (f (snd (sem_take api h w)))"
  have "cnt ?w2 h = Some 0" by (simp add: assms(3) take(2))
  then have "cnt (snd (sem_give api h ?w2)) = (cnt ?w2)(h \<mapsto> 1)"
    using assms(1) unfolding sem_balanced_def by auto
  also have "\<dots> = cnt w" using assms(2) by (auto simp: assms(3) take(2))
  finally show ?thesis
    using take(1) by (simp add: locked_def mutex_lock_def mutex_unlock_def split_def Let_def)
qed

section \<open>The life of a bus object\<close>

text \<open>Every entry of the table points to a live bus object of its port.\<close>

definition bus_wf :: "'a io_scheme \<Rightarrow> i2c_mod \<Rightarrow> bool" where
  "bus_wf s m \<longleftrightarrow> heap_wf (heap s) \<and> (\<forall>port p. i2c_bus m port = Some p \<longrightarrow>
     p \<in> h_live (heap s) \<and> i2c_port (bus_obj m p) = port)"

lemma bus_create_cases:
  assumes "i2c_bus_create api port (Some conf) (s, m, w) = Done (r, s', m', w')"
    and "port < I2C_NUM_MAX" and "i2c_bus m port = None"
  obtains p where "malloc (heap s) = (Some p, snd (malloc (heap s)))"
    and "bus_obj m' = (bus_obj m)(p := \<lparr>i2c_conf = conf, i2c_port = port\<rparr>)"
    and "i2c_bus m' = (i2c_bus m)(port := Some p)"
    and "r = Some p \<and> heap s' = snd (malloc (heap s)) \<or>
         r = None \<and> heap s' = release p (snd (malloc (heap s)))"
  using assms
  by (auto simp: i2c_bus_create_def io_malloc_def io_free_def free_opt_def Let_def
      split: option.splits prod.splits if_splits)

lemma bus_create_wf:
  assumes "bus_wf s m" and "i2c_bus_create api port conf (s, m, w) = Done (Some p, s', m', w')"
  shows "bus_wf s' m' \<and> i2c_bus m' port = Some p \<and>
    i2c_bus_create api port conf (s', m', w') = Done (Some p, s', m', w')"
proof -
  obtain c where c: "conf = Some c" and port: "port < I2C_NUM_MAX"
    using assms(2) by (auto simp: i2c_bus_create_def split: if_splits option.splits)
  show ?thesis
  proof (cases "i2c_bus m port")
    case (Some q)
    with assms c port show ?thesis by (auto simp: i2c_bus_create_def)
  next
    case None
    obtain q where q: "malloc (heap s) = (Some q, snd (malloc (heap s)))"
      "bus_obj m' = (bus_obj m)(q := \<lparr>i2c_conf = c, i2c_port = port\<rparr>)"
      "i2c_bus m' = (i2c_bus m)(port := Some q)" "p = q" "heap s' = snd (malloc (heap s))"
      using assms(2) c port None by (auto elim: bus_create_cases)
    have wf: "heap_wf (heap s)" using assms(1) by (simp add: bus_wf_def)
    have "q \<notin> h_live (heap s)" "h_live (heap s') = insert q (h_live (heap s))" "heap_wf (heap s')"
      using hp.alloc_fresh [OF wf q(1)] hp.alloc_live [OF q(1)] hp.alloc_wf [OF wf q(1)] q(5)
      by simp_all
    with assms(1) q have "bus_wf s' m'" by (auto simp: bus_wf_def)
    with q c port show ?thesis by (simp add: i2c_bus_create_def)
  qed
qed

lemma bus_delete_wf:
  assumes "bus_wf s m" and "i2c_bus m port = Some p"
    and "i2c_bus_delete api (Some p) (s, m, w) = Done (r, s', m', w')"
  shows "bus_wf s' m' \<and> i2c_bus m' port = None \<and> h_live (heap s') = h_live (heap s) - {p} \<and>
    busLock m' = None \<and> r = ESP_OK"
proof -
  have p: "p \<in> h_live (heap s)" "i2c_port (bus_obj m p) = port" and wf: "heap_wf (heap s)"
    using assms(1,2) by (auto simp: bus_wf_def)
  have "heap s' = release p (heap s)" "i2c_bus m' = (i2c_bus m)(port := None)"
    "bus_obj m' = bus_obj m" "busLock m' = None" "r = ESP_OK"
    using assms(3) p by (auto simp: i2c_bus_delete_def Let_def io_free_def free_opt_def split: if_splits)
  with assms(1) p hp.free_live [OF p(1)] hp.free_wf [OF wf, of p] show ?thesis
    by (auto simp: bus_wf_def)
qed

text \<open>
  C24. The life of a bus object keeps the table well formed: a handle that \<open>i2c_bus_create\<close> returns is
  the table's entry for the port, a live bus object of that port, and a second call returns the
  same handle and does nothing else; \<open>i2c_bus_delete\<close> of that handle succeeds, removes the entry,
  releases exactly this object and leaves no lock behind.
\<close>

theorem i2c_bus_life:
  assumes "bus_wf s m" and "i2c_bus_create api port conf (s, m, w) = Done (Some p, s1, m1, w1)"
  shows "bus_wf s1 m1 \<and> i2c_bus m1 port = Some p \<and>
    i2c_bus_create api port conf (s1, m1, w1) = Done (Some p, s1, m1, w1) \<and>
    (\<exists>s2 m2 w2. i2c_bus_delete api (Some p) (s1, m1, w1) = Done (ESP_OK, s2, m2, w2) \<and>
       bus_wf s2 m2 \<and> i2c_bus m2 port = None \<and> h_live (heap s2) = h_live (heap s1) - {p} \<and>
       busLock m2 = None)"
proof -
  note c = bus_create_wf [OF assms]
  then have "p \<in> h_live (heap s1)" by (auto simp: bus_wf_def)
  then obtain r s2 m2 w2 where d: "i2c_bus_delete api (Some p) (s1, m1, w1) = Done (r, s2, m2, w2)"
    by (auto simp: i2c_bus_delete_def Let_def)
  from bus_delete_wf [OF _ _ d] c d show ?thesis by blast
qed

definition i2c_cfg0 :: i2c_config_t where
  "i2c_cfg0 = \<lparr>master_mode = True, sda_io_num = 18, scl_io_num = 23,
     sda_pullup_en = True, scl_pullup_en = True, clk_speed = 100000\<rparr>"

text \<open>The state of an output channel and heap at reset.\<close>

definition io0 :: io where
  "io0 = \<lparr>stdout = [],
     heap = \<lparr>h_next = 0, h_live = {}, h_fault = False, h_ok = \<lambda>_. True, h_init = \<lambda>_ _. 0\<rparr>,
     clock = 0, stack_junk = \<lambda>_ _. 0\<rparr>"

lemma bus_wf0: "bus_wf io0 i2c_up"
  by (simp add: bus_wf_def io0_def heap_wf_def i2c_up_def)

theorem i2c_bus_life_witness:
  "\<exists>s1 m1 w1 s2 m2 w2.
     i2c_bus_create (mem_api {0x10}) 0 (Some i2c_cfg0) (io0, i2c_up, mem0) = Done (Some 0, s1, m1, w1) \<and>
     i2c_bus_delete (mem_api {0x10}) (Some 0) (s1, m1, w1) = Done (ESP_OK, s2, m2, w2)"
proof -
  obtain s1 m1 w1 where c:
    "i2c_bus_create (mem_api {0x10}) 0 (Some i2c_cfg0) (io0, i2c_up, mem0) = Done (Some 0, s1, m1, w1)"
    by (simp add: i2c_bus_create_def I2C_NUM_MAX_def i2c_up_def io_malloc_def malloc_def io0_def
        mem_api_def mutex_init_def mutex_destroy_def i2c_cfg0_def)
  from i2c_bus_life [OF bus_wf0 c] c show ?thesis by blast
qed

text \<open>
  After a failed driver start the module is left with a dangling pointer: \<open>i2c_bus_create\<close> returns
  NULL and releases the object, but the table still points to it.  The next call for the port does
  not try again: it returns the dead object as a valid handle, and using this handle is undefined.
\<close>

lemma i2c_bus_create_dangling:
  assumes "bus_wf s m" and "port < I2C_NUM_MAX" and "i2c_bus m port = None"
    and "i2c_bus_create api port (Some conf) (s, m, w) = Done (None, s1, m1, w1)"
  shows "\<exists>p. i2c_bus m1 port = Some p \<and> p \<notin> h_live (heap s1) \<and>
    i2c_bus_create api port (Some conf) (s1, m1, w1) = Done (Some p, s1, m1, w1) \<and>
    i2c_bus_delete api (Some p) (s1, m1, w1) = Crash Use_after_free"
proof -
  obtain q where q: "malloc (heap s) = (Some q, snd (malloc (heap s)))"
    "i2c_bus m1 = (i2c_bus m)(port := Some q)" "heap s1 = release q (snd (malloc (heap s)))"
    using assms(2-4) by (auto elim: bus_create_cases)
  have wf: "heap_wf (heap s)" using assms(1) by (simp add: bus_wf_def)
  have "q \<notin> h_live (heap s1)"
    using hp.bracket(1) [OF wf q(1)] hp.alloc_fresh [OF wf q(1)] by (simp add: q(3))
  with assms(2) q(2) show ?thesis by (simp add: i2c_bus_create_def i2c_bus_delete_def)
qed

definition broken_api :: "u8 set \<Rightarrow> mem_i2c i2c_api" where
  "broken_api dev = (mem_api dev)\<lparr>i2c_driver_install := \<lambda>p b r t f w. (ESP_FAIL, w)\<rparr>"

lemma i2c_bus_create_dangling_witness:
  "\<exists>s1 m1 w1 p.
     i2c_bus_create (broken_api {}) 0 (Some i2c_cfg0) (io0, i2c_up, mem0) = Done (None, s1, m1, w1) \<and>
     i2c_bus_create (broken_api {}) 0 (Some i2c_cfg0) (s1, m1, w1) = Done (Some p, s1, m1, w1) \<and>
     p \<notin> h_live (heap s1)"
proof -
  obtain s1 m1 w1 where c:
    "i2c_bus_create (broken_api {}) 0 (Some i2c_cfg0) (io0, i2c_up, mem0) = Done (None, s1, m1, w1)"
    by (simp add: i2c_bus_create_def I2C_NUM_MAX_def i2c_up_def io_malloc_def malloc_def io0_def
        mem_api_def broken_api_def i2c_cfg0_def)
  have "(0 :: nat) < I2C_NUM_MAX" "i2c_bus i2c_up 0 = None" by (simp_all add: I2C_NUM_MAX_def i2c_up_def)
  from i2c_bus_create_dangling [OF bus_wf0 this c] c show ?thesis by blast
qed

text \<open>
  C35. Whatever the driver answers, a write or read gives the lock back: if nobody held it before,
  the count of every semaphore is afterwards what it was.
\<close>

theorem i2c_ops_release_lock:
  assumes "sem_balanced api cnt" and "busLock m = Some h" and "cnt w h = Some 1"
  shows "cnt (snd (i2c_bus_write_bytes api m port addr reg data w)) = cnt w \<and>
    cnt (snd (i2c_bus_write_data api m port addr data w)) = cnt w \<and>
    (case i2c_bus_read_bytes api m port addr buf len w of Done (r, w') \<Rightarrow> cnt w' = cnt w
     | Crash c \<Rightarrow> c = Out_of_bounds | _ \<Rightarrow> False)"
proof -
  note lc = locked_count [of api cnt, OF assms(1,3) transaction_count [OF assms(1)]]
  have "cnt (snd (i2c_bus_write_bytes api m port addr reg data w)) = cnt w"
    by (simp add: i2c_bus_write_bytes_def assms(2) split_def Let_def lc split: option.splits)
  moreover have "cnt (snd (i2c_bus_write_data api m port addr data w)) = cnt w"
    by (simp add: i2c_bus_write_data_def assms(2) split_def Let_def lc split: option.splits)
  moreover have "case i2c_bus_read_bytes api m port addr buf len w of Done (r, w') \<Rightarrow> cnt w' = cnt w
     | Crash c \<Rightarrow> c = Out_of_bounds | _ \<Rightarrow> False"
    by (simp add: i2c_bus_read_bytes_def assms(2) split_def Let_def lc split: option.splits)
  ultimately show ?thesis by blast
qed

lemma mem_balanced: "sem_balanced (mem_api dev) mi_count"
  by (auto simp: sem_balanced_def mem_api_def split: option.splits prod.splits)

theorem i2c_ops_release_lock_witness:
  "mi_count (snd (i2c_bus_write_bytes (mem_api {}) i2c_up 0 0x10 [0x14] (Some [0]) mem0)) 0 = Some 1"
  using i2c_ops_release_lock [OF mem_balanced, of i2c_up 0 mem0 "{}" 0 "0x10" "[0x14]" "Some [0]"]
  by (simp add: i2c_up_def mem0_def)

end
