(* ===== verification/Es8156.thy ===== *)
theory Es8156
  imports I2c_Bus
begin

text \<open>
  The driver of the ES8156 DAC (components/codec/TAS5805M/es8156.c): the clock coefficient table
  and its look-up, register access over the I2C bus, initialisation, mute, suspend, volume.  The
  functions that the file switches off with \<open>#if 0\<close> are not part of the program.
\<close>

section \<open>The clock coefficients\<close>

record coeff_div_t =
  mclk :: nat
  rate :: nat
  pre_div :: u8
  pre_multi :: u8
  adc_div :: u8
  dac_div :: u8
  fs_mode :: u8
  lrck_h :: u8
  lrck_l :: u8
  bclk_div :: u8
  adc_osr :: u8
  dac_osr :: u8

definition coeff_div :: "coeff_div_t list" where
  "coeff_div = [
     coeff_div_t.make 12288000 8000 0x06 0x01 0x01 0x01 0x00 0x00 0xff 0x04 0x10 0x10,
     coeff_div_t.make 18432000 8000 0x03 0x02 0x03 0x03 0x00 0x05 0xff 0x18 0x10 0x10,
     coeff_div_t.make 16384000 8000 0x08 0x01 0x01 0x01 0x00 0x00 0xff 0x04 0x10 0x10,
     coeff_div_t.make 8192000 8000 0x04 0x01 0x01 0x01 0x00 0x00 0xff 0x04 0x10 0x10,
     coeff_div_t.make 6144000 8000 0x03 0x01 0x01 0x01 0x00 0x00 0xff 0x04 0x10 0x10,
     coeff_div_t.make 4096000 8000 0x02 0x01 0x01 0x01 0x00 0x00 0xff 0x04 0x10 0x10,
     coeff_div_t.make 3072000 8000 0x01 0x01 0x01 0x01 0x00 0x00 0xff 0x04 0x10 0x10,
     coeff_div_t.make 2048000 8000 0x01 0x01 0x01 0x01 0x00 0x00 0xff 0x04 0x10 0x10,
     coeff_div_t.make 1536000 8000 0x03 0x04 0x01 0x01 0x00 0x00 0xff 0x04 0x10 0x10,
     coeff_div_t.make 1024000 8000 0x01 0x02 0x01 0x01 0x00 0x00 0xff 0x04 0x10 0x10,
     coeff_div_t.make 11289600 11025 0x04 0x01 0x01 0x01 0x00 0x00 0xff 0x04 0x10 0x10,
     coeff_div_t.make 5644800 11025 0x02 0x01 0x01 0x01 0x00 0x00 0xff 0x04 0x10 0x10,
     coeff_div_t.make 2822400 11025 0x01 0x01 0x01 0x01 0x00 0x00 0xff 0x04 0x10 0x10,
     coeff_div_t.make 1411200 11025 0x01 0x02 0x01 0x01 0x00 0x00 0xff 0x04 0x10 0x10,
     coeff_div_t.make 12288000 12000 0x04 0x01 0x01 0x01 0x00 0x00 0xff 0x04 0x10 0x10,
     coeff_div_t.make 6144000 12000 0x02 0x01 0x01 0x01 0x00 0x00 0xff 0x04 0x10 0x10,
     coeff_div_t.make 3072000 12000 0x01 0x01 0x01 0x01 0x00 0x00 0xff 0x04 0x10 0x10,
     coeff_div_t.make 1536000 12000 0x01 0x02 0x01 0x01 0x00 0x00 0xff 0x04 0x10 0x10,
     coeff_div_t.make 12288000 16000 0x03 0x01 0x01 0x01 0x00 0x00 0xff 0x04 0x10 0x10,
     coeff_div_t.make 18432000 16000 0x03 0x02 0x03 0x03 0x00 0x02 0xff 0x0c 0x10 0x10,
     coeff_div_t.make 16384000 16000 0x04 0x01 0x01 0x01 0x00 0x00 0xff 0x04 0x10 0x10,
     coeff_div_t.make 8192000 16000 0x02 0x01 0x01 0x01 0x00 0x00 0xff 0x04 0x10 0x10,
     coeff_div_t.make 6144000 16000 0x03 0x02 0x01 0x01 0x00 0x00 0xff 0x04 0x10 0x10,
     coeff_div_t.make 4096000 16000 0x01 0x01 0x01 0x01 0x00 0x00 0xff 0x04 0x10 0x10,
     coeff_div_t.make 3072000 16000 0x03 0x04 0x01 0x01 0x00 0x00 0xff 0x04 0x10 0x10,
     coeff_div_t.make 2048000 16000 0x01 0x02 0x01 0x01 0x00 0x00 0xff 0x04 0x10 0x10,
     coeff_div_t.make 1536000 16000 0x03 0x08 0x01 0x01 0x00 0x00 0xff 0x04 0x10 0x10,
     coeff_div_t.make 1024000 16000 0x01 0x04 0x01 0x01 0x00 0x00 0xff 0x04 0x10 0x10,
     coeff_div_t.make 11289600 22050 0x02 0x01 0x01 0x01 0x00 0x00 0xff 0x04 0x10 0x10,
     coeff_div_t.make 5644800 22050 0x01 0x01 0x01 0x01 0x00 0x00 0xff 0x04 0x10 0x10,
     coeff_div_t.make 2822400 22050 0x01 0x02 0x01 0x01 0x00 0x00 0xff 0x04 0x10 0x10,
     coeff_div_t.make 1411200 22050 0x01 0x04 0x01 0x01 0x00 0x00 0xff 0x04 0x10 0x10,
     coeff_div_t.make 12288000 24000 0x02 0x01 0x01 0x01 0x00 0x00 0xff 0x04 0x10 0x10,
     coeff_div_t.make 18432000 24000 0x03 0x01 0x01 0x01 0x00 0x00 0xff 0x04 0x10 0x10,
     coeff_div_t.make 6144000 24000 0x01 0x01 0x01 0x01 0x00 0x00 0xff 0x04 0x10 0x10,
     coeff_div_t.make 3072000 24000 0x01 0x02 0x01 0x01 0x00 0x00 0xff 0x04 0x10 0x10,
     coeff_div_t.make 1536000 24000 0x01 0x04 0x01 0x01 0x00 0x00 0xff 0x04 0x10 0x10,
     coeff_div_t.make 12288000 32000 0x03 0x02 0x01 0x01 0x00 0x00 0xff 0x04 0x10 0x10,
     coeff_div_t.make 18432000 32000 0x03 0x04 0x03 0x03 0x00 0x02 0xff 0x0c 0x10 0x10,
     coeff_div_t.make 16384000 32000 0x02 0x01 0x01 0x01 0x00 0x00 0xff 0x04 0x10 0x10,
     coeff_div_t.make 8192000 32000 0x01 0x01 0x01 0x01 0x00 0x00 0xff 0x04 0x10 0x10,
     coeff_div_t.make 6144000 32000 0x03 0x04 0x01 0x01 0x00 0x00 0xff 0x04 0x10 0x10,
     coeff_div_t.make 4096000 32000 0x01 0x02 0x01 0x01 0x00 0x00 0xff 0x04 0x10 0x10,
     coeff_div_t.make 3072000 32000 0x03 0x08 0x01 0x01 0x00 0x00 0xff 0x04 0x10 0x10,
     coeff_div_t.make 2048000 32000 0x01 0x04 0x01 0x01 0x00 0x00 0xff 0x04 0x10 0x10,
     coeff_div_t.make 1536000 32000 0x03 0x08 0x01 0x01 0x01 0x00 0x7f 0x02 0x10 0x10,
     coeff_div_t.make 1024000 32000 0x01 0x08 0x01 0x01 0x00 0x00 0xff 0x04 0x10 0x10,
     coeff_div_t.make 11289600 44100 0x01 0x01 0x01 0x01 0x00 0x00 0xff 0x04 0x10 0x10,
     coeff_div_t.make 5644800 44100 0x01 0x02 0x01 0x01 0x00 0x00 0xff 0x04 0x10 0x10,
     coeff_div_t.make 2822400 44100 0x01 0x04 0x01 0x01 0x00 0x00 0xff 0x04 0x10 0x10,
     coeff_div_t.make 1411200 44100 0x01 0x08 0x01 0x01 0x00 0x00 0xff 0x04 0x10 0x10,
     coeff_div_t.make 12288000 48000 0x01 0x01 0x01 0x01 0x00 0x00 0xff 0x04 0x10 0x10,
     coeff_div_t.make 18432000 48000 0x03 0x02 0x01 0x01 0x00 0x00 0xff 0x04 0x10 0x10,
     coeff_div_t.make 6144000 48000 0x01 0x02 0x01 0x01 0x00 0x00 0xff 0x04 0x10 0x10,
     coeff_div_t.make 3072000 48000 0x01 0x04 0x01 0x01 0x00 0x00 0xff 0x04 0x10 0x10,
     coeff_div_t.make 1536000 48000 0x01 0x08 0x01 0x01 0x00 0x00 0xff 0x04 0x10 0x10,
     coeff_div_t.make 12288000 64000 0x03 0x04 0x01 0x01 0x00 0x00 0xff 0x04 0x10 0x10,
     coeff_div_t.make 18432000 64000 0x03 0x04 0x03 0x03 0x01 0x01 0x7f 0x06 0x10 0x10,
     coeff_div_t.make 16384000 64000 0x01 0x01 0x01 0x01 0x00 0x00 0xff 0x04 0x10 0x10,
     coeff_div_t.make 8192000 64000 0x01 0x02 0x01 0x01 0x00 0x00 0xff 0x04 0x10 0x10,
     coeff_div_t.make 6144000 64000 0x01 0x04 0x03 0x03 0x01 0x01 0x7f 0x06 0x10 0x10,
     coeff_div_t.make 4096000 64000 0x01 0x04 0x01 0x01 0x00 0x00 0xff 0x04 0x10 0x10,
     coeff_div_t.make 3072000 64000 0x01 0x08 0x03 0x03 0x01 0x01 0x7f 0x06 0x10 0x10,
     coeff_div_t.make 2048000 64000 0x01 0x08 0x01 0x01 0x00 0x00 0xff 0x04 0x10 0x10,
     coeff_div_t.make 1536000 64000 0x01 0x08 0x01 0x01 0x01 0x00 0xbf 0x03 0x18 0x18,
     coeff_div_t.make 1024000 64000 0x01 0x08 0x01 0x01 0x01 0x00 0x7f 0x02 0x10 0x10,
     coeff_div_t.make 11289600 88200 0x01 0x02 0x01 0x01 0x00 0x00 0xff 0x04 0x10 0x10,
     coeff_div_t.make 5644800 88200 0x01 0x04 0x01 0x01 0x00 0x00 0xff 0x04 0x10 0x10,
     coeff_div_t.make 2822400 88200 0x01 0x08 0x01 0x01 0x00 0x00 0xff 0x04 0x10 0x10,
     coeff_div_t.make 1411200 88200 0x01 0x08 0x01 0x01 0x01 0x00 0x7f 0x02 0x10 0x10,
     coeff_div_t.make 12288000 96000 0x01 0x02 0x01 0x01 0x00 0x00 0xff 0x04 0x10 0x10,
     coeff_div_t.make 18432000 96000 0x03 0x04 0x01 0x01 0x00 0x00 0xff 0x04 0x10 0x10,
     coeff_div_t.make 6144000 96000 0x01 0x04 0x01 0x01 0x00 0x00 0xff 0x04 0x10 0x10,
     coeff_div_t.make 3072000 96000 0x01 0x08 0x01 0x01 0x00 0x00 0xff 0x04 0x10 0x10,
     coeff_div_t.make 1536000 96000 0x01 0x08 0x01 0x01 0x01 0x00 0x7f 0x02 0x10 0x10]"

fun get_coeff_from :: "coeff_div_t list \<Rightarrow> nat \<Rightarrow> nat \<Rightarrow> int \<Rightarrow> int" where
  "get_coeff_from [] m r i = -1"
| "get_coeff_from (c # cs) m r i =
     (if rate c = r \<and> mclk c = m then i else get_coeff_from cs m r (i + 1))"

definition get_coeff :: "nat \<Rightarrow> nat \<Rightarrow> int" where
  "get_coeff m r = get_coeff_from coeff_div m r 0"

section \<open>Register access\<close>

definition ES8156_ADDR :: u8 where "ES8156_ADDR = 0x10"

definition es_i2c_cfg :: i2c_config_t where
  "es_i2c_cfg = \<lparr>master_mode = True, sda_io_num = 18, scl_io_num = 23,
     sda_pullup_en = True, scl_pullup_en = True, clk_speed = 100000\<rparr>"

definition es8156_write_reg :: "'w i2c_api \<Rightarrow> i2c_mod \<Rightarrow> u8 \<Rightarrow> u8 \<Rightarrow> 'w \<Rightarrow> int \<times> 'w" where
  "es8156_write_reg api m reg_addr reg_val w =
     (let (x, w) = i2c_bus_write_bytes api m 0 ES8156_ADDR [reg_addr] (Some [reg_val]) w
      in (0 OR x, w))"

definition es8156_read :: "'w i2c_api \<Rightarrow> u8 \<Rightarrow> int \<Rightarrow> 'w \<Rightarrow> (int \<times> (nat \<times> u8) list) \<times> 'w" where
  "es8156_read api regAdd len w = codec_read api ES8156_ADDR regAdd len w"

text \<open>A register is read into an array that is zero before; the status of the read is dropped.\<close>

definition ES8156_read_reg :: "'w i2c_api \<Rightarrow> u8 \<Rightarrow> 'w \<Rightarrow> int \<times> 'w" where
  "ES8156_read_reg api reg_addr w =
     (let ((_, bytes), w) = es8156_read api reg_addr 1 w in (uint (read_value bytes [0, 0]), w))"

section \<open>Pins, mute, suspend\<close>

definition init_cs_pin :: "'w gpio_api \<Rightarrow> 'w \<Rightarrow> 'w" where
  "init_cs_pin gpio w =
     gpio_set_level gpio 15 0 (gpio_config gpio \<lparr>gc_pin = 15, gc_output = True\<rparr> w)"

definition ES8156_pa_power :: "'w gpio_api \<Rightarrow> bool \<Rightarrow> 'w \<Rightarrow> 'w" where
  "ES8156_pa_power gpio enable w =
     (let w = gpio_config gpio \<lparr>gc_pin = 12, gc_output = True\<rparr> w
      in if enable then gpio_set_level gpio 12 1 w else gpio_set_level gpio 12 0 w)"

definition ES8156_mute :: "'w i2c_api \<Rightarrow> i2c_mod \<Rightarrow> int \<Rightarrow> 'w \<Rightarrow> 'w" where
  "ES8156_mute api m mute w =
     (let (x, w) = ES8156_read_reg api 0x11 w;
          regv = (of_int x :: u8) AND 0xf7
      in if mute \<noteq> 0 then snd (es8156_write_reg api m 0x11 (regv OR 0x08) w)
         else snd (es8156_write_reg api m 0x11 (regv AND 0xf7) w))"

definition suspend_regs :: "(u8 \<times> u8) list" where
  "suspend_regs = [
     (0x14, 0x00), (0x19, 0x02), (0x21, 0x1f), (0x22, 0x02), (0x25, 0x21), (0x25, 0x87),
     (0x18, 0x01), (0x09, 0x02), (0x09, 0x01), (0x08, 0x00)]"

definition ES8156_suspend :: "'w i2c_api \<Rightarrow> i2c_mod \<Rightarrow> 'w \<Rightarrow> 'w" where
  "ES8156_suspend api m w = snd (write_regs (es8156_write_reg api m) suspend_regs 0 w)"

section \<open>Initialisation\<close>

text \<open>The sequence of writes; the code sends it twice.\<close>

definition es8156_init_regs :: "(u8 \<times> u8) list" where
  "es8156_init_regs = [
     (0x02, 0x04), (0x20, 0x2a), (0x21, 0x3c), (0x22, 0x00), (0x24, 0x07), (0x23, 0x3a),
     (0x0a, 0x01), (0x0b, 0x01), (0x14, 0xbf), (0x01, 0x21), (0x0d, 0x14), (0x18, 0x00),
     (0x08, 0x3f), (0x00, 0x02), (0x00, 0x03), (0x25, 0x20)]"

definition es8156_i2c_init ::
  "'w i2c_api \<Rightarrow> 'a io_scheme \<times> i2c_mod \<times> 'w \<Rightarrow> (int \<times> 'a io_scheme \<times> i2c_mod \<times> 'w) run" where
  "es8156_i2c_init api st =
     (case i2c_bus_create api 0 (Some es_i2c_cfg) st of
        Done (i2c_handler, st) \<Rightarrow> Done (0, st)
      | Restart r \<Rightarrow> Restart (0, snd r) | Hang \<Rightarrow> Hang | Crash c \<Rightarrow> Crash c)"

text \<open>The collected status \<open>ret\<close> is computed and dropped: the function returns ESP\_OK.\<close>

definition ES8156_codec_init ::
  "'w i2c_api \<Rightarrow> 'w gpio_api \<Rightarrow> 'a io_scheme \<times> i2c_mod \<times> 'w \<Rightarrow>
     (esp_err_t \<times> 'a io_scheme \<times> i2c_mod \<times> 'w) run" where
  "ES8156_codec_init api gpio = (\<lambda>(s, m, w).
     case es8156_i2c_init api (s, m, init_cs_pin gpio w) of
       Done (_, s, m, w) \<Rightarrow>
         let (ret, w) = write_regs (es8156_write_reg api m) (es8156_init_regs @ es8156_init_regs) ESP_OK w;
             w = ES8156_pa_power gpio True w
         in Done (ESP_OK, s, m, w)
     | Restart r \<Rightarrow> Restart r | Hang \<Rightarrow> Hang | Crash c \<Rightarrow> Crash c)"

definition ES8156_codec_deinit :: esp_err_t where "ES8156_codec_deinit = ESP_OK"

section \<open>Volume\<close>

definition ES8156_codec_set_voice_volume ::
  "'w i2c_api \<Rightarrow> i2c_mod \<Rightarrow> int \<Rightarrow> 'w \<Rightarrow> esp_err_t \<times> 'w" where
  "ES8156_codec_set_voice_volume api m volume w =
     (let volume = (if volume < 0 then 0 else if volume > 100 then 100 else volume);
          vol = cdiv (volume * 1910) 1000;
          (_, w) = es8156_write_reg api m 0x14 (of_int vol) w
      in (ESP_OK, w))"

definition ES8156_codec_get_voice_volume :: "'w i2c_api \<Rightarrow> 'w \<Rightarrow> (esp_err_t \<times> int) \<times> 'w" where
  "ES8156_codec_get_voice_volume api w =
     (let (regv, w) = ES8156_read_reg api 0x14 w
      in if regv = ESP_FAIL then ((ESP_FAIL, 0), w)
         else ((ESP_OK, cdiv (regv * 100) 191), w))"

section \<open>The chip as a register device\<close>

lemma es8156_write_reg_eq:
  "es8156_write_reg api m r v w = i2c_bus_write_bytes api m 0 ES8156_ADDR [r] (Some [v]) w"
  by (simp add: es8156_write_reg_def split: prod.splits)

interpretation es8156: reg_device
  "es8156_write_reg api m" "chip_ok api dev view m ES8156_ADDR" "chip_regs view ES8156_ADDR"
  "ES8156_read_reg api" for api dev view m
proof unfold_locales
  fix r v :: u8 and w
  show "fst (es8156_write_reg api m r v w) \<in> {0, -1}"
    unfolding es8156_write_reg_eq by (rule chip_write_status)
  show "\<exists>w'. es8156_write_reg api m r v w = (0, w') \<and> chip_ok api dev view m ES8156_ADDR w' \<and>
      chip_regs view ES8156_ADDR w' = (chip_regs view ES8156_ADDR w)(r := v)"
    if "chip_ok api dev view m ES8156_ADDR w"
    using that unfolding es8156_write_reg_eq by (rule chip_write_ok)
  show "\<exists>w'. ES8156_read_reg api r w = (uint (chip_regs view ES8156_ADDR w r), w') \<and>
      chip_ok api dev view m ES8156_ADDR w' \<and>
      chip_regs view ES8156_ADDR w' = chip_regs view ES8156_ADDR w"
    if "chip_ok api dev view m ES8156_ADDR w"
    using chip_read_ok [OF that, of r]
    by (auto simp: ES8156_read_reg_def es8156_read_def read_value_def)
qed

section \<open>Properties of the coefficient table\<close>

lemma get_coeff_from_range: "get_coeff_from cs m r i = -1 \<or> i \<le> get_coeff_from cs m r i"
  by (induction cs m r i rule: get_coeff_from.induct) fastforce+

lemma get_coeff_from_nth: "0 \<le> i \<Longrightarrow> get_coeff_from cs m r i = j \<Longrightarrow> j \<noteq> -1 \<Longrightarrow>
    i \<le> j \<and> nat (j - i) < length cs \<and> rate (cs ! nat (j - i)) = r \<and> mclk (cs ! nat (j - i)) = m"
proof (induction cs m r i rule: get_coeff_from.induct)
  case (2 c cs m r i)
  show ?case
  proof (cases "rate c = r \<and> mclk c = m")
    case False
    with 2 have H: "i + 1 \<le> j \<and> nat (j - (i + 1)) < length cs \<and>
        rate (cs ! nat (j - (i + 1))) = r \<and> mclk (cs ! nat (j - (i + 1))) = m" by simp
    then have "nat (j - i) = Suc (nat (j - (i + 1)))" by (auto simp: nat_eq_iff)
    with H show ?thesis by simp
  qed (use 2 in simp)
qed simp

lemma get_coeff_from_None: "0 \<le> i \<Longrightarrow> get_coeff_from cs m r i = -1 \<longleftrightarrow>
    (m, r) \<notin> (\<lambda>c. (mclk c, rate c)) ` set cs"
  by (induction cs m r i rule: get_coeff_from.induct) auto

definition coeff_keys :: "(nat \<times> nat) list" where
  "coeff_keys = map (\<lambda>c. (mclk c, rate c)) coeff_div"

text \<open>The rate that an entry really produces: the multiplied and divided clock over the LRCK divider.\<close>

definition coeff_consistent :: "coeff_div_t \<Rightarrow> bool" where
  "coeff_consistent c \<longleftrightarrow>
     mclk c * unat (pre_multi c) = rate c * unat (pre_div c) * (256 * unat (lrck_h c) + unat (lrck_l c) + 1)"

lemma coeff_keys_distinct: "distinct coeff_keys"
  unfolding coeff_keys_def coeff_div_def coeff_div_t.defs by simp

text \<open>
  C36. The look-up is exact: it answers an index into the table exactly when some line is for this
  master clock and rate, the line at the index is for them, and it is the only one.
\<close>

theorem get_coeff_correct:
  "if (m, r) \<in> set coeff_keys
   then 0 \<le> get_coeff m r \<and> nat (get_coeff m r) < length coeff_div \<and>
     coeff_keys ! nat (get_coeff m r) = (m, r) \<and>
     (\<exists>!k. k < length coeff_div \<and> coeff_keys ! k = (m, r))
   else get_coeff m r = -1"
proof -
  have "get_coeff m r = -1 \<longleftrightarrow> (m, r) \<notin> set coeff_keys"
    using get_coeff_from_None [of 0 coeff_div m r] by (simp add: get_coeff_def coeff_keys_def)
  moreover have "0 \<le> get_coeff m r \<and> nat (get_coeff m r) < length coeff_div \<and>
      coeff_keys ! nat (get_coeff m r) = (m, r)" if "get_coeff m r \<noteq> -1"
    using get_coeff_from_nth [of 0 coeff_div m r, OF _ refl] that
    by (simp add: get_coeff_def coeff_keys_def)
  moreover have "length coeff_keys = length coeff_div" by (simp add: coeff_keys_def)
  ultimately show ?thesis using coeff_keys_distinct by (simp, metis nth_eq_iff_index_eq)
qed

text \<open>
  Every line of the table but one produces the rate it is listed under.  The exception is the
  line for 3.072 MHz and 8 kHz: with its coefficients the rate is 12 kHz.
\<close>

lemma coeff_div_consistent:
  "filter (\<lambda>c. \<not> coeff_consistent c) coeff_div =
     [coeff_div_t.make 3072000 8000 1 1 1 1 0 0 0xff 4 0x10 0x10] \<and>
   mclk (coeff_div ! 6) * unat (pre_multi (coeff_div ! 6)) =
     12000 * unat (pre_div (coeff_div ! 6)) *
       (256 * unat (lrck_h (coeff_div ! 6)) + unat (lrck_l (coeff_div ! 6)) + 1)"
  unfolding coeff_consistent_def coeff_div_def coeff_div_t.defs by simp

section \<open>Properties of the driver\<close>

text \<open>Setting a pin or configuring one leaves the I2C bus alone.\<close>

definition gpio_frame :: "'w gpio_api \<Rightarrow> ('w \<Rightarrow> i2c_view) \<Rightarrow> bool" where
  "gpio_frame gpio view \<longleftrightarrow>
     (\<forall>c w. view (gpio_config gpio c w) = view w) \<and> (\<forall>p l w. view (gpio_set_level gpio p l w) = view w)"

lemma gpio_frame_simps [bus_simps]:
  assumes "gpio_frame gpio view"
  shows "view (gpio_config gpio c w) = view w" and "view (gpio_set_level gpio p l w) = view w"
    and "view (init_cs_pin gpio w) = view w" and "view (ES8156_pa_power gpio b w) = view w"
  using assms by (simp_all add: gpio_frame_def init_cs_pin_def ES8156_pa_power_def Let_def)

text \<open>When the bus exists already, its creation is a look-up.\<close>

lemma es8156_i2c_init_exists:
  "i2c_bus m 0 = Some p \<Longrightarrow> es8156_i2c_init api (s, m, w) = Done (0, s, m, w)"
  by (simp add: es8156_i2c_init_def i2c_bus_create_def I2C_NUM_MAX_def)

lemma ES8156_init_ok:
  assumes "chip_ok api dev view m ES8156_ADDR w" and "gpio_frame gpio view" and "i2c_bus m 0 = Some p"
  shows "\<exists>w0. let w1 = ES8156_pa_power gpio True w0
    in ES8156_codec_init api gpio (s, m, w) = Done (ESP_OK, s, m, w1) \<and>
       chip_ok api dev view m ES8156_ADDR w1 \<and>
       chip_regs view ES8156_ADDR w1 = apply_regs es8156_init_regs (chip_regs view ES8156_ADDR w) \<and>
       chip_regs view ES8156_ADDR w1 0x14 = 0xBF \<and> chip_regs view ES8156_ADDR w1 0x00 = 0x03"
proof -
  let ?w = "init_cs_pin gpio w"
  note frame = gpio_frame_simps [OF assms(2)]
  have "chip_ok api dev view m ES8156_ADDR ?w"
    using assms(1) by (simp add: chip_ok_def frame)
  from es8156.seq_ok [OF this, of "es8156_init_regs @ es8156_init_regs" 0] obtain w0 where
    w0: "write_regs (es8156_write_reg api m) (es8156_init_regs @ es8156_init_regs) 0 ?w = (0, w0)"
    "chip_ok api dev view m ES8156_ADDR w0"
    "chip_regs view ES8156_ADDR w0 = apply_regs es8156_init_regs (chip_regs view ES8156_ADDR w)"
    by (auto simp: bus_simps(3) apply_regs_idem chip_regs_def frame)
  have "chip_regs view ES8156_ADDR (ES8156_pa_power gpio True w0) =
      apply_regs es8156_init_regs (chip_regs view ES8156_ADDR w)"
    using w0(3) by (simp add: chip_regs_def frame)
  moreover have "chip_ok api dev view m ES8156_ADDR (ES8156_pa_power gpio True w0)"
    using w0(2) by (simp add: chip_ok_def frame)
  moreover have "apply_regs es8156_init_regs f 0x14 = 0xBF" "apply_regs es8156_init_regs f 0 = 3" for f
    by (simp_all add: es8156_init_regs_def apply_regs_last)
  ultimately show ?thesis
    using w0(1) es8156_i2c_init_exists [OF assms(3), of api s ?w]
    by (simp add: ES8156_codec_init_def Let_def exI [of _ w0])
qed

text \<open>
  C32. Initialisation on a working bus puts every register of its sequence to the last value the
  sequence gives it and leaves the others; sending the sequence twice is the same as once; the
  power amplifier is on at the end.  In particular the volume register holds 0xBF.
\<close>

theorem ES8156_codec_init_programs:
  assumes "chip_ok api dev view m ES8156_ADDR w" and "gpio_frame gpio view" and "i2c_bus m 0 = Some p"
  shows "\<exists>w0. let w1 = ES8156_pa_power gpio True w0
    in ES8156_codec_init api gpio (s, m, w) = Done (ESP_OK, s, m, w1) \<and>
       chip_regs view ES8156_ADDR w1 = apply_regs es8156_init_regs (chip_regs view ES8156_ADDR w) \<and>
       chip_regs view ES8156_ADDR w1 0x14 = 0xBF \<and> chip_regs view ES8156_ADDR w1 0x00 = 0x03"
  using ES8156_init_ok [OF assms] by (auto simp: Let_def)

definition mem_gpio :: "'w gpio_api" where
  "mem_gpio = \<lparr>gpio_config = \<lambda>c w. w, gpio_set_level = \<lambda>p l w. w\<rparr>"

lemma mem_gpio_frame: "gpio_frame mem_gpio view"
  by (simp add: gpio_frame_def mem_gpio_def)

definition i2c_up0 :: i2c_mod where
  "i2c_up0 = i2c_up\<lparr>i2c_bus := [0 \<mapsto> 0]\<rparr>"

lemma mem0_es8156: "chip_ok (mem_api {0x10}) {0x10} mem_view i2c_up0 ES8156_ADDR mem0"
  using mem0_ok [of "0x10" "{0x10}"] by (simp add: chip_ok_def lock_free_def i2c_up0_def ES8156_ADDR_def)

theorem ES8156_codec_init_programs_witness:
  "\<exists>w'. ES8156_codec_init (mem_api {0x10}) mem_gpio (io0, i2c_up0, mem0) = Done (ESP_OK, io0, i2c_up0, w') \<and>
     mi_regs w' 0x10 0x14 = 0xBF"
  using ES8156_codec_init_programs [OF mem0_es8156 mem_gpio_frame, of 0 io0]
  by (auto simp: i2c_up0_def Let_def chip_regs_def ES8156_ADDR_def mem_view_def)

lemma es8156_seq_absent:
  assumes "i2c_documented api dev view" and "ES8156_ADDR \<notin> dev"
  shows "lock_free m (view w) \<Longrightarrow> \<exists>w'. write_regs (es8156_write_reg api m) rvs ret w =
      (if rvs = [] then ret else -1, w') \<and> view w' = view w"
proof (induction rvs arbitrary: ret w)
  case (Cons rv rvs)
  obtain r v where rv: "rv = (r, v)" by (cases rv)
  have a: "\<not> bit ES8156_ADDR 0" by (simp add: ES8156_ADDR_def)
  obtain w1 where w1: "es8156_write_reg api m r v w = (-1, w1)" "view w1 = view w"
    using write_register_documented [OF assms(1) Cons.prems a, of r v] assms(2)
    by (auto simp: es8156_write_reg_eq)
  with Cons.IH [of w1 "ret OR -1"] Cons.prems show ?case by (auto simp: rv)
qed simp

text \<open>
  With no chip at the address the initialisation still answers ESP\_OK: every write fails, its
  collected status is -1, and the function drops it.
\<close>

lemma ES8156_codec_init_hides_failure:
  assumes "i2c_documented api dev view" and "ES8156_ADDR \<notin> dev" and "lock_free m (view w)"
    and "gpio_frame gpio view" and "i2c_bus m 0 = Some p"
  shows "\<exists>w'. ES8156_codec_init api gpio (s, m, w) = Done (ESP_OK, s, m, w') \<and> view w' = view w \<and>
    fst (write_regs (es8156_write_reg api m) (es8156_init_regs @ es8156_init_regs) ESP_OK
           (init_cs_pin gpio w)) = -1"
proof -
  note frame = gpio_frame_simps [OF assms(4)]
  have "lock_free m (view (init_cs_pin gpio w))" using assms(3) by (simp add: frame)
  from es8156_seq_absent [OF assms(1,2) this, of "es8156_init_regs @ es8156_init_regs" 0]
  show ?thesis
    using es8156_i2c_init_exists [OF assms(5), of api s "init_cs_pin gpio w"]
    by (auto simp: ES8156_codec_init_def Let_def frame es8156_init_regs_def)
qed

lemma ES8156_codec_init_hides_failure_witness:
  "\<exists>w'. ES8156_codec_init (mem_api {}) mem_gpio (io0, i2c_up0, mem0) = Done (ESP_OK, io0, i2c_up0, w') \<and>
     mem_view w' = mem_view mem0"
proof -
  have "lock_free i2c_up0 (mem_view mem0)"
    by (simp add: lock_free_def i2c_up0_def i2c_up_def mem0_def mem_view_def)
  from ES8156_codec_init_hides_failure [OF mem_i2c_documented _ this mem_gpio_frame, of "{}" 0 io0]
  show ?thesis by (auto simp: i2c_up0_def)
qed

section \<open>Volume and mute\<close>

definition clamp_volume :: "int \<Rightarrow> int" where
  "clamp_volume v = max 0 (min 100 v)"

definition volume_reg :: "int \<Rightarrow> int" where
  "volume_reg v = clamp_volume v * 1910 div 1000"

lemma volume_reg_range: "0 \<le> volume_reg v" "volume_reg v \<le> 191"
  by (simp_all add: volume_reg_def clamp_volume_def)

lemma uint_volume_reg: "uint (of_int (volume_reg v) :: u8) = volume_reg v"
  using volume_reg_range [of v] by (simp add: unsigned_of_int take_bit_int_eq_self_iff)

lemma set_volume_eq:
  "ES8156_codec_set_voice_volume api m v w =
     (ESP_OK, snd (es8156_write_reg api m 0x14 (of_int (volume_reg v)) w))"
proof -
  have "cdiv ((if v < 0 then 0 else if v > 100 then 100 else v) * 1910) 1000 = volume_reg v"
    by (simp add: volume_reg_def clamp_volume_def cdiv_nonneg)
  then show ?thesis by (simp add: ES8156_codec_set_voice_volume_def Let_def split_def)
qed

lemma volume_back:
  "volume_reg v * 100 div 191 =
     (if clamp_volume v \<in> {0, 100} then clamp_volume v else clamp_volume v - 1)"
proof -
  have "list_all (\<lambda>c. (c * 1910 div 1000) * 100 div 191 = (if c \<in> {0, 100} then c else c - 1))
      [0 :: int..100]"
    by code_simp
  moreover have "clamp_volume v \<in> set [0..100]" by (simp add: clamp_volume_def)
  ultimately show ?thesis unfolding volume_reg_def list_all_iff by blast
qed

text \<open>
  C38. Reading back a volume that was set gives the volume, cut to the range 0 to 100, only at the
  two ends of the range; everywhere between it gives one less, since both conversions round down.
  Success is answered in both directions and no other register is touched.
\<close>

theorem ES8156_volume_roundtrip:
  assumes "chip_ok api dev view m ES8156_ADDR w"
  shows "\<exists>w1 w2. ES8156_codec_set_voice_volume api m v w = (ESP_OK, w1) \<and>
    ES8156_codec_get_voice_volume api w1 =
      ((ESP_OK, if clamp_volume v \<in> {0, 100} then clamp_volume v else clamp_volume v - 1), w2) \<and>
    chip_regs view ES8156_ADDR w2 =
      (chip_regs view ES8156_ADDR w)(0x14 := of_int (clamp_volume v * 1910 div 1000))"
proof -
  from es8156.read_back [OF assms, of "0x14" "of_int (volume_reg v)"] obtain w1 w2 where
    w: "es8156_write_reg api m 0x14 (of_int (volume_reg v)) w = (0, w1)"
    "ES8156_read_reg api 0x14 w1 = (volume_reg v, w2)"
    "chip_regs view ES8156_ADDR w2 = (chip_regs view ES8156_ADDR w)(0x14 := of_int (volume_reg v))"
    by (auto simp: uint_volume_reg)
  have "cdiv (volume_reg v * 100) 191 =
      (if clamp_volume v \<in> {0, 100} then clamp_volume v else clamp_volume v - 1)"
    using volume_reg_range [of v] volume_back [of v] by (simp add: cdiv_nonneg)
  with w volume_reg_range [of v] show ?thesis
    by (simp add: set_volume_eq ES8156_codec_get_voice_volume_def volume_reg_def [symmetric])
qed

theorem ES8156_volume_roundtrip_witness:
  "\<exists>w1 w2. ES8156_codec_set_voice_volume (mem_api {0x10}) i2c_up0 70 mem0 = (ESP_OK, w1) \<and>
     ES8156_codec_get_voice_volume (mem_api {0x10}) w1 = ((ESP_OK, 69), w2)"
  using ES8156_volume_roundtrip [OF mem0_es8156, of 70] by (auto simp: clamp_volume_def)

lemma mute_bits:
  fixes v :: u8
  assumes "n < 8"
  shows "bit ((v AND 0xf7) OR 0x08) n = (n = 3 \<or> bit v n)"
    and "bit ((v AND 0xf7) AND 0xf7) n = (n \<noteq> 3 \<and> bit v n)"
proof -
  have n: "n \<in> {0, 1, 2, 3, 4, 5, 6, 7}" using assms by auto
  have "bit (0xf7 :: u8) n = (n \<noteq> 3)" "bit (0x08 :: u8) n = (n = 3)"
    using n by (auto simp: bit_iff_odd)
  then show "bit ((v AND 0xf7) OR 0x08) n = (n = 3 \<or> bit v n)"
    "bit ((v AND 0xf7) AND 0xf7) n = (n \<noteq> 3 \<and> bit v n)"
    by (auto simp only: bit_and_iff bit_or_iff)
qed

text \<open>
  Muting changes bit 3 of register 0x11 and nothing else: every other bit keeps its value, the
  bit is set exactly when mute is not zero.
\<close>

lemma ES8156_mute_only_bit3:
  assumes "chip_ok api dev view m ES8156_ADDR w"
  shows "\<exists>b. chip_regs view ES8156_ADDR (ES8156_mute api m mute w) =
        (chip_regs view ES8156_ADDR w)(0x11 := b) \<and>
      (\<forall>n < 8. bit b n = (if n = 3 then mute \<noteq> 0 else bit (chip_regs view ES8156_ADDR w 0x11) n))"
proof -
  let ?v = "chip_regs view ES8156_ADDR w 0x11"
  obtain w1 where w1: "ES8156_read_reg api 0x11 w = (uint ?v, w1)"
    "chip_ok api dev view m ES8156_ADDR w1" "chip_regs view ES8156_ADDR w1 = chip_regs view ES8156_ADDR w"
    using es8156.rd_ok [OF assms] by blast
  let ?b = "if mute \<noteq> 0 then (?v AND 0xf7) OR 0x08 else (?v AND 0xf7) AND 0xf7"
  have "ES8156_mute api m mute w = snd (es8156_write_reg api m 0x11 ?b w1)"
    by (simp add: ES8156_mute_def w1(1) Let_def)
  moreover obtain w2 where "es8156_write_reg api m 0x11 ?b w1 = (0, w2)"
    "chip_regs view ES8156_ADDR w2 = (chip_regs view ES8156_ADDR w)(0x11 := ?b)"
    using es8156.wr_ok [OF w1(2), of "0x11" ?b] w1(3) by auto
  ultimately have "chip_regs view ES8156_ADDR (ES8156_mute api m mute w) =
      (chip_regs view ES8156_ADDR w)(0x11 := ?b)" by simp
  with mute_bits [of _ ?v] show ?thesis by (intro exI [of _ ?b]) simp
qed

lemma ES8156_mute_only_bit3_witness:
  "\<exists>b. chip_regs mem_view ES8156_ADDR (ES8156_mute (mem_api {0x10}) i2c_up0 1 mem0) 0x11 = b \<and> bit b 3"
  using ES8156_mute_only_bit3 [OF mem0_es8156, of 1] by fastforce

end
