(* ===== verification/Pa_Config.thy ===== *)
theory Pa_Config
  imports I2c_Bus Pa_Table
begin

text \<open>
  How the TAS5805M amplifier is configured (components/codec/TAS5805M/pa\_config.c): from a text of
  command lines, in a file or in memory, or from the register table.  A text command "w a r v" starts a
  write of the byte v to the register r, lines "> v" append bytes to it, and any other line or the
  next "w" sends it.  \<open>heap_caps_malloc\<close> takes its blocks from the same heap as \<open>malloc\<close>.
\<close>

definition TAS5805M_ADDR :: u8 where "TAS5805M_ADDR = 0x5c"
definition PA_CMD_MAX_LEN :: nat where "PA_CMD_MAX_LEN = 255"

section \<open>Values from a line\<close>

definition is_hex :: "char \<Rightarrow> bool" where
  "is_hex c \<longleftrightarrow> c \<in> set ''abcdef'' \<or> c \<in> set ''0123456789''"

definition hex_val :: "char \<Rightarrow> int" where
  "hex_val c = (if c \<in> set ''abcdef'' then of_char c - of_char (CHR ''a'') + 10
                else of_char c - of_char (CHR ''0''))"

definition hex_fold :: "string \<Rightarrow> int" where
  "hex_fold s = foldl (\<lambda>cur c. cur * 16 + hex_val c) 0 s"

text \<open>The text behind the next blank.\<close>

definition after_blank :: "string \<Rightarrow> string" where
  "after_blank s = tl (dropWhile (\<lambda>c. c \<noteq> CHR '' '') s)"

text \<open>
  \<open>p_str\<close> is the text of the \<open>len\<close> bytes scanned; the result are the bytes stored to \<open>p_val\<close>, in
  order.  What stands between two blanks counts as a value even if it has no digits.
\<close>

fun get_vals :: "nat \<Rightarrow> string \<Rightarrow> nat \<Rightarrow> u8 list" where
  "get_vals 0 p_str val_len = []"
| "get_vals (Suc fuel) p_str val_len =
     (let s = after_blank p_str
      in if s = [] then []
         else
           let cur_val = hex_fold (takeWhile is_hex s); s = dropWhile is_hex s
           in if 0 < val_len
              then if val_len = 1 then [of_int cur_val]
                   else of_int cur_val # get_vals fuel s (val_len - 1)
              else [])"

text \<open>Each round consumes at least a blank, so the length of the text is fuel enough.\<close>

definition get_val_from_string :: "string \<Rightarrow> nat \<Rightarrow> u8 list" where
  "get_val_from_string p_str val_len = get_vals (length p_str) p_str val_len"

section \<open>The interpreter of the text commands\<close>

datatype pa_status = STATUS_NOTHING | STATUS_W_PREPARING

record pa_state =
  p_cmd_data :: "u8 list"
  cmd_data_len :: nat
  status :: pa_status
  n_first_cmd :: bool

text \<open>Storing bytes to the command buffer at an index; \<open>None\<close> when one falls outside.\<close>

fun store_at :: "u8 list \<Rightarrow> nat \<Rightarrow> u8 list \<Rightarrow> u8 list option" where
  "store_at buf i [] = Some buf"
| "store_at buf i (b # bs) = (if i < length buf then store_at (buf[i := b]) (i + 1) bs else None)"

text \<open>
  The bus write of the pending command, if it has a register and data: all bytes of the command
  buffer from the third on, up to the length counted.  \<open>None\<close> when the count leaves the buffer.
\<close>

definition pa_send :: "'w i2c_api \<Rightarrow> i2c_mod \<Rightarrow> pa_state \<Rightarrow> 'w \<Rightarrow> 'w option" where
  "pa_send api m st w =
     (if cmd_data_len st < 3 then Some w
      else if cmd_data_len st > length (p_cmd_data st) then None
      else Some (snd (i2c_bus_write_bytes api m 0 TAS5805M_ADDR [p_cmd_data st ! 1]
                        (Some (take (cmd_data_len st - 2) (drop 2 (p_cmd_data st)))) w)))"

definition pa_line ::
  "'w i2c_api \<Rightarrow> i2c_mod \<Rightarrow> string \<Rightarrow> pa_state \<times> 'a io_scheme \<times> 'w \<Rightarrow>
     (pa_state \<times> 'a io_scheme \<times> 'w) run" where
  "pa_line api m p_pa_cmd = (\<lambda>(st, s, w).
     if p_pa_cmd \<noteq> [] \<and> hd p_pa_cmd = CHR ''w''
     then
       (case (if status st = STATUS_W_PREPARING then pa_send api m st w else Some w) of
          None \<Rightarrow> Crash Out_of_bounds
        | Some w \<Rightarrow>
            let (st, s) =
                  (if status st = STATUS_W_PREPARING \<and> cmd_data_len st \<ge> 3 \<and> \<not> n_first_cmd st
                   then (st\<lparr>n_first_cmd := True\<rparr>,
                         printf (''first cmd, so delay 50ms'' @ newline)
                           (vTaskDelay (50 div portTICK_PERIOD_MS) s))
                   else (st, s))
            in (case store_at (p_cmd_data st) 0 (get_val_from_string p_pa_cmd 3) of
                  None \<Rightarrow> Crash Out_of_bounds
                | Some buf \<Rightarrow>
                    Done (st\<lparr>p_cmd_data := buf, status := STATUS_W_PREPARING, cmd_data_len := 3\<rparr>, s, w)))
     else if p_pa_cmd \<noteq> [] \<and> hd p_pa_cmd = CHR ''>''
     then
       if status st = STATUS_W_PREPARING
       then (case store_at (p_cmd_data st) (cmd_data_len st) (get_val_from_string p_pa_cmd 1) of
               None \<Rightarrow> Crash Out_of_bounds
             | Some buf \<Rightarrow> Done (st\<lparr>p_cmd_data := buf, cmd_data_len := cmd_data_len st + 1\<rparr>, s, w))
       else Done (st, printf (''file format error'' @ newline) s, w)
     else
       if status st = STATUS_W_PREPARING
       then (case pa_send api m st w of
               None \<Rightarrow> Crash Out_of_bounds
             | Some w \<Rightarrow> Done (st\<lparr>status := STATUS_NOTHING, cmd_data_len := 0\<rparr>, s, w))
       else Done (st, s, w))"

fun pa_lines ::
  "'w i2c_api \<Rightarrow> i2c_mod \<Rightarrow> string list \<Rightarrow> pa_state \<times> 'a io_scheme \<times> 'w \<Rightarrow>
     (pa_state \<times> 'a io_scheme \<times> 'w) run" where
  "pa_lines api m [] c = Done c"
| "pa_lines api m (l # ls) c =
     (case pa_line api m l c of Done c \<Rightarrow> pa_lines api m ls c | r \<Rightarrow> r)"

definition pa_init :: "u8 list \<Rightarrow> pa_state" where
  "pa_init buf = \<lparr>p_cmd_data = buf, cmd_data_len = 0, status = STATUS_NOTHING, n_first_cmd = False\<rparr>"

text \<open>The command buffer comes from the heap and holds whatever the block held.\<close>

definition tas5805m_pa_set_config_from_code ::
  "'w i2c_api \<Rightarrow> i2c_mod \<Rightarrow> string list option \<Rightarrow> 'a io_scheme \<times> 'w \<Rightarrow> ('a io_scheme \<times> 'w) run" where
  "tas5805m_pa_set_config_from_code api m p_config = (\<lambda>(s, w).
     case p_config of
       None \<Rightarrow> Done (printf (''invalid argument p_config!'' @ newline) s, w)
     | Some lines \<Rightarrow>
         let (q, s) = io_malloc s
         in case q of
              None \<Rightarrow> Done (printf (''tas5805m_pa_set_config_from_code: alloc failed!'' @ newline) s, w)
            | Some p \<Rightarrow>
                (case pa_lines api m lines (pa_init (fresh_block (heap s) p PA_CMD_MAX_LEN), s, w) of
                   Done (st, s, w) \<Rightarrow>
                     Done (printf (''finish to free'' @ newline)
                             (io_free (Some p) (printf (''finish write pa config'' @ newline) s)), w)
                 | Crash c \<Rightarrow> Crash c | Restart r \<Rightarrow> Restart (fst (snd r), snd (snd r)) | Hang \<Rightarrow> Hang))"

text \<open>
  The file variant reads its lines with \<open>getline\<close>.  The file system is a parameter: \<open>fopen\<close> gives the
  lines of the file, each as the contents of the buffer of \<open>read_len\<close> bytes that \<open>getline\<close> hands
  out, what stands behind the terminating NUL included, since the scan for values runs over the
  whole buffer.  Each line's buffer is a heap block of its own, allocated by \<open>getline\<close> and released
  at the end of the round.
\<close>

fun pa_file_lines ::
  "'w i2c_api \<Rightarrow> i2c_mod \<Rightarrow> string list \<Rightarrow> pa_state \<times> 'a io_scheme \<times> 'w \<Rightarrow>
     (pa_state \<times> 'a io_scheme \<times> 'w) run" where
  "pa_file_lines api m [] (st, s, w) = Done (st, printf (''read failed or end'' @ newline) s, w)"
| "pa_file_lines api m (l # ls) (st, s, w) =
     (let (q, s) = io_malloc s
      in case q of
           None \<Rightarrow> Done (st, printf (''read failed or end'' @ newline) s, w)
         | Some p \<Rightarrow>
             (case pa_line api m l (st, s, w) of
                Done (st, s, w) \<Rightarrow> pa_file_lines api m ls (st, io_free (Some p) s, w)
              | r \<Rightarrow> r))"

definition PA_DEFAULT_CONFIG_FILE :: string where
  "PA_DEFAULT_CONFIG_FILE = ''/sdcard/tas5805m.cfg''"

definition tas5805m_pa_set_config_from_file ::
  "'w i2c_api \<Rightarrow> i2c_mod \<Rightarrow> (string \<Rightarrow> string list option) \<Rightarrow> string option \<Rightarrow> 'a io_scheme \<times> 'w \<Rightarrow>
     ('a io_scheme \<times> 'w) run" where
  "tas5805m_pa_set_config_from_file api m fopen p_config_file = (\<lambda>(s, w).
     let file = (case p_config_file of None \<Rightarrow> PA_DEFAULT_CONFIG_FILE | Some f \<Rightarrow> f)
     in case fopen file of
          None \<Rightarrow> Done (printf (''read pa config:'' @ file @ '' failed'') s, w)
        | Some lines \<Rightarrow>
            let (q, s) = io_malloc s
            in case q of
                 None \<Rightarrow> Done (printf (''tas5805m_pa_set_config_from_file--OOM22'' @ newline) s, w)
               | Some p \<Rightarrow>
                   (case pa_file_lines api m lines (pa_init (fresh_block (heap s) p PA_CMD_MAX_LEN), s, w) of
                      Done (st, s, w) \<Rightarrow>
                        Done (printf (''finish to free'' @ newline)
                                (io_free (Some p) (printf (''finish write pa config'' @ newline) s)), w)
                    | Crash c \<Rightarrow> Crash c | Restart r \<Rightarrow> Restart (fst (snd r), snd (snd r)) | Hang \<Rightarrow> Hang))"

section \<open>The register table\<close>

text \<open>The bytes of the table from an entry on, as they lie in memory.\<close>

definition table_bytes :: "tas5805m_cfg_reg list \<Rightarrow> u8 list" where
  "table_bytes r = concat (map (\<lambda>c. [offset c, reg_value c]) r)"

text \<open>
  The list is the table from entry \<open>i\<close> on.  A marker that turns out not to be the end marker is
  written like any entry; an end marker only leaves the \<open>switch\<close>, and the loop goes on behind it.
\<close>

definition pa_write_entry :: "'w i2c_api \<Rightarrow> i2c_mod \<Rightarrow> tas5805m_cfg_reg \<Rightarrow> 'w \<Rightarrow> 'w" where
  "pa_write_entry api m c w =
     snd (i2c_bus_write_bytes api m 0 TAS5805M_ADDR [offset c] (Some [reg_value c]) w)"

text \<open>
  Is this \<open>CFG_END_1\<close> entry followed by the two others?  \<open>None\<close> when the answer needs an entry
  behind the end of the table.
\<close>

fun end_marker :: "tas5805m_cfg_reg list \<Rightarrow> bool option" where
  "end_marker [] = None"
| "end_marker (c # cs) =
     (if offset c \<noteq> CFG_END_2 then Some False
      else case cs of [] \<Rightarrow> None | d # ds \<Rightarrow> Some (offset d = CFG_END_3))"

definition end_text :: "nat \<Rightarrow> string" where
  "end_text i = ''end of tms5805m reg---'' @ show_d (int i) @ newline"

definition all_text :: "nat \<Rightarrow> string" where
  "all_text i = ''transmit_registers------all write '' @ show_d (int i) @ '' reg'' @ newline"

function transmit_loop ::
  "'w i2c_api \<Rightarrow> i2c_mod \<Rightarrow> tas5805m_cfg_reg list \<Rightarrow> nat \<Rightarrow> 'a io_scheme \<times> 'w \<Rightarrow>
     (nat \<times> 'a io_scheme \<times> 'w) run" where
  "transmit_loop api m [] i (s, w) = Done (i, s, w)"
| "transmit_loop api m (c # r) i (s, w) =
     (if offset c = CFG_META_SWITCH then transmit_loop api m r (i + 1) (s, w)
      else if offset c = CFG_META_DELAY
      then transmit_loop api m r (i + 1) (vTaskDelay (unat (reg_value c) div portTICK_PERIOD_MS) s, w)
      else if offset c = CFG_META_BURST
      then
        let n = unat (reg_value c); bytes = table_bytes r
        in if length bytes < n + 1 then Crash Out_of_bounds
           else
             let w = snd (i2c_bus_write_bytes api m 0 TAS5805M_ADDR [hd bytes]
                            (Some (take n (tl bytes))) w)
             in transmit_loop api m (drop (n div 2 + 1) r) (i + (n div 2 + 1) + 1) (s, w)
      else if offset c = CFG_END_1
      then (case end_marker r of
              None \<Rightarrow> Crash Out_of_bounds
            | Some True \<Rightarrow>
                transmit_loop api m r (i + 1) (printf (end_text i) s, w)
            | Some False \<Rightarrow> transmit_loop api m r (i + 1) (s, pa_write_entry api m c w))
      else transmit_loop api m r (i + 1) (s, pa_write_entry api m c w))"
  by pat_completeness auto
termination by (relation "measure (\<lambda>(api, m, r, i, c). length r)") auto

declare transmit_loop.simps [simp del]

definition transmit_registers ::
  "'w i2c_api \<Rightarrow> i2c_mod \<Rightarrow> tas5805m_cfg_reg list \<Rightarrow> 'a io_scheme \<times> 'w \<Rightarrow> ('a io_scheme \<times> 'w) run" where
  "transmit_registers api m r c =
     (case transmit_loop api m r 0 c of
        Done (i, s, w) \<Rightarrow> Done (printf (all_text i) s, w)
      | Crash x \<Rightarrow> Crash x | Restart x \<Rightarrow> Restart (snd x) | Hang \<Rightarrow> Hang)"

definition tas5805m_pa_set_config_from_code_2 ::
  "'w i2c_api \<Rightarrow> i2c_mod \<Rightarrow> 'a io_scheme \<times> 'w \<Rightarrow> ('a io_scheme \<times> 'w) run" where
  "tas5805m_pa_set_config_from_code_2 api m c = transmit_registers api m tas5805m_registers c"

section \<open>Reading the values back\<close>

lemma hex_char_cases:
  assumes "d < 16"
  shows "is_hex (hex_char d) \<and> hex_val (hex_char d) = int d"
proof -
  have "d \<in> set [0..<16]" using assms by simp
  moreover have "list_all (\<lambda>d. is_hex (hex_char d) \<and> hex_val (hex_char d) = int d) [0..<16]"
    by code_simp
  ultimately show ?thesis by (simp only: list_all_iff)
qed

text \<open>A byte as two hexadecimal digits.\<close>

definition hex2 :: "u8 \<Rightarrow> string" where
  "hex2 b = [hex_char (unat b div 16), hex_char (unat b mod 16)]"

lemma hex2_props:
  shows "list_all is_hex (hex2 b)" and "of_int (hex_fold (hex2 b)) = b" and "length (hex2 b) = 2"
proof -
  have "unat b < 2 ^ LENGTH(8)" by (rule unsigned_less)
  then have "unat b div 16 < 16" "unat b mod 16 < 16" by simp_all
  note h = this [THEN hex_char_cases]
  show "list_all is_hex (hex2 b)" and "length (hex2 b) = 2" using h by (simp_all add: hex2_def)
  have "int (n div 16) * 16 + int (n mod 16) = int n" for n :: nat by presburger
  then have "hex_fold (hex2 b) = int (unat b)"
    using h by (simp only: hex2_def hex_fold_def foldl.simps mult_zero_left add_0)
  then show "of_int (hex_fold (hex2 b)) = b" by simp
qed

lemma hex2_scan:
  "takeWhile is_hex (hex2 b) = hex2 b" "dropWhile is_hex (hex2 b) = []"
  "takeWhile is_hex (hex2 b @ CHR '' '' # t) = hex2 b"
  "dropWhile is_hex (hex2 b @ CHR '' '' # t) = CHR '' '' # t"
  "hex2 b \<noteq> []"
proof -
  obtain c d where cd: "hex2 b = [c, d]" by (simp add: hex2_def)
  with hex2_props(1) [of b] have "is_hex c" "is_hex d" by simp_all
  moreover have "\<not> is_hex (CHR '' '')" by (simp add: is_hex_def)
  ultimately show "takeWhile is_hex (hex2 b) = hex2 b" "dropWhile is_hex (hex2 b) = []"
    "takeWhile is_hex (hex2 b @ CHR '' '' # t) = hex2 b"
    "dropWhile is_hex (hex2 b @ CHR '' '' # t) = CHR '' '' # t" "hex2 b \<noteq> []"
    by (simp_all add: cd)
qed

lemma after_blank_simps:
  "after_blank [] = []" "after_blank (CHR '' '' # s) = s"
  "c \<noteq> CHR '' '' \<Longrightarrow> after_blank (c # s) = after_blank s"
  by (simp_all add: after_blank_def)

lemma length_after_blank: "s \<noteq> [] \<Longrightarrow> length (after_blank s) < length s"
proof -
  assume "s \<noteq> []"
  then have "0 < length s" by simp
  moreover have "length (dropWhile (\<lambda>c. c \<noteq> CHR '' '') s) \<le> length s" by (rule length_dropWhile_le)
  ultimately show ?thesis unfolding after_blank_def length_tl by linarith
qed

text \<open>The fuel is no bound of the scan: more of it changes nothing.\<close>

lemma get_vals_fuel_any:
  "length s \<le> f \<Longrightarrow> length s \<le> g \<Longrightarrow> get_vals f s n = get_vals g s n"
proof (induction f arbitrary: g s n)
  case 0
  then show ?case by (cases g) (simp_all add: after_blank_simps)
next
  case (Suc f)
  show ?case
  proof (cases "after_blank s = []")
    case True
    then show ?thesis by (cases g) simp_all
  next
    case False
    then have "s \<noteq> []" by (auto simp: after_blank_simps)
    then have l: "length (after_blank s) < length s" by (rule length_after_blank)
    with Suc.prems obtain g' where g: "g = Suc g'" by (cases g) auto
    let ?t = "dropWhile is_hex (after_blank s)"
    have "length ?t < length s"
      using l length_dropWhile_le [of is_hex "after_blank s"] by linarith
    with Suc.prems g have "length ?t \<le> f" "length ?t \<le> g'" by simp_all
    from Suc.IH [OF this] have "get_vals f ?t (n - 1) = get_vals g' ?t (n - 1)" .
    then show ?thesis by (simp only: g get_vals.simps Let_def)
  qed
qed

lemma get_vals_fuel: "length s \<le> fuel \<Longrightarrow> get_vals fuel s n = get_val_from_string s n"
  unfolding get_val_from_string_def by (rule get_vals_fuel_any) simp_all

lemma get_val_step:
  "after_blank s = t \<Longrightarrow> t \<noteq> [] \<Longrightarrow> 0 < n \<Longrightarrow>
   get_val_from_string s n =
     of_int (hex_fold (takeWhile is_hex t)) #
       (if n = 1 then [] else get_val_from_string (dropWhile is_hex t) (n - 1))"
proof -
  assume t: "after_blank s = t" and ne: "t \<noteq> []" and n: "0 < n"
  then have s: "s \<noteq> []" by (auto simp: after_blank_simps)
  then obtain k where k: "length s = Suc k" by (cases s) auto
  have "length (dropWhile is_hex t) \<le> k"
    using length_after_blank [OF s] length_dropWhile_le [of is_hex t] unfolding t k by linarith
  from get_vals_fuel [OF this, of "n - 1"] show ?thesis
    using t ne n by (simp add: get_val_from_string_def [of s] k Let_def)
qed

text \<open>The lines of a command.\<close>

definition w_line :: "u8 \<Rightarrow> u8 \<Rightarrow> u8 \<Rightarrow> string" where
  "w_line a r v = ''w '' @ hex2 a @ '' '' @ hex2 r @ '' '' @ hex2 v"

definition more_line :: "u8 \<Rightarrow> string" where
  "more_line v = ''> '' @ hex2 v"

lemma get_val_w_line: "get_val_from_string (w_line a r v) 3 = [a, r, v]"
proof -
  have "after_blank (w_line a r v) = hex2 a @ CHR '' '' # hex2 r @ CHR '' '' # hex2 v"
    by (simp add: w_line_def after_blank_simps)
  note 1 = get_val_step [OF this, of 3]
  have "after_blank (CHR '' '' # hex2 r @ CHR '' '' # hex2 v) = hex2 r @ CHR '' '' # hex2 v"
    by (simp add: after_blank_simps)
  note 2 = get_val_step [OF this, of 2]
  have "after_blank (CHR '' '' # hex2 v) = hex2 v" by (simp add: after_blank_simps)
  note 3 = get_val_step [OF this, of 1]
  show ?thesis using 1 2 3 by (simp add: hex2_scan hex2_props)
qed

lemma get_val_more_line: "get_val_from_string (more_line v) 1 = [v]"
proof -
  have "after_blank (more_line v) = hex2 v" by (simp add: more_line_def after_blank_simps)
  from get_val_step [OF this, of 1] show ?thesis by (simp add: hex2_scan hex2_props)
qed

section \<open>A configuration of commands\<close>

text \<open>A command: a device byte, a register and the bytes to write, the first one and the others.\<close>

type_synonym pa_cmd = "u8 \<times> u8 \<times> u8 \<times> u8 list"

fun cmd_lines :: "pa_cmd \<Rightarrow> string list" where
  "cmd_lines (a, r, v, vs) = w_line a r v # map more_line vs"

text \<open>What the amplifier should be sent for it.\<close>

fun cmd_write :: "'w i2c_api \<Rightarrow> i2c_mod \<Rightarrow> pa_cmd \<Rightarrow> 'w \<Rightarrow> 'w" where
  "cmd_write api m (a, r, v, vs) w =
     snd (i2c_bus_write_bytes api m 0 TAS5805M_ADDR [r] (Some (v # vs)) w)"

definition cmd_fits :: "pa_cmd \<Rightarrow> bool" where
  "cmd_fits c \<longleftrightarrow> length (snd (snd (snd c))) + 3 \<le> PA_CMD_MAX_LEN"

text \<open>The state in the middle of a command: its bytes are in the buffer, nothing is sent yet.\<close>

definition holds_cmd :: "pa_state \<Rightarrow> pa_cmd \<Rightarrow> bool" where
  "holds_cmd st c \<longleftrightarrow> (case c of (a, r, v, vs) \<Rightarrow>
     status st = STATUS_W_PREPARING \<and> length (p_cmd_data st) = PA_CMD_MAX_LEN \<and>
     cmd_data_len st = length vs + 3 \<and> take (length vs + 3) (p_cmd_data st) = a # r # v # vs)"

lemma pa_send_holds:
  assumes "holds_cmd st c" and "cmd_fits c"
  shows "pa_send api m st w = Some (cmd_write api m c w)"
proof -
  obtain a r v vs where c: "c = (a, r, v, vs)" by (cases c) auto
  have t: "take (length vs + 3) (p_cmd_data st) = a # r # v # vs"
    and l: "length (p_cmd_data st) = PA_CMD_MAX_LEN" "cmd_data_len st = length vs + 3"
    using assms(1) by (simp_all add: holds_cmd_def c)
  have "p_cmd_data st ! 1 = take (length vs + 3) (p_cmd_data st) ! 1" by simp
  then have "p_cmd_data st ! 1 = r" by (simp add: t)
  moreover have "take (length vs + 1) (drop 2 (p_cmd_data st)) = drop 2 (take (length vs + 3) (p_cmd_data st))"
    by (simp add: drop_take)
  then have "take (length vs + 1) (drop 2 (p_cmd_data st)) = v # vs" by (simp add: t)
  ultimately show ?thesis
    using l assms(2) by (simp add: pa_send_def c cmd_fits_def)
qed

lemma store3:
  assumes "length buf = PA_CMD_MAX_LEN"
  shows "\<exists>buf'. store_at buf 0 [a, r, v] = Some buf' \<and> length buf' = PA_CMD_MAX_LEN \<and>
    take 3 buf' = [a, r, v]"
proof -
  have l: "length buf = 255" using assms by (simp add: PA_CMD_MAX_LEN_def)
  then have "take 3 (buf[0 := a, Suc 0 := r, 2 := v]) = [a, r, v]"
    by (auto simp: list_eq_iff_nth_eq nth_list_update less_Suc_eq numeral_3_eq_3 nth_Cons split: nat.splits)
  moreover have "store_at buf 0 [a, r, v] = Some (buf[0 := a, Suc 0 := r, 2 := v])"
    using l by (simp add: numeral_2_eq_2)
  ultimately show ?thesis using assms by (intro exI [of _ "buf[0 := a, Suc 0 := r, 2 := v]"]) simp
qed

text \<open>The "w" line: it sends what is pending and starts the command.\<close>

lemma pa_line_w:
  assumes "length (p_cmd_data st) = PA_CMD_MAX_LEN"
    and "status st = STATUS_W_PREPARING \<Longrightarrow> pa_send api m st w = Some w0"
    and "status st \<noteq> STATUS_W_PREPARING \<Longrightarrow> w0 = w"
  shows "\<exists>st' s'. pa_line api m (w_line a r v) (st, s, w) = Done (st', s', w0) \<and>
    holds_cmd st' (a, r, v, []) \<and> heap s' = heap s \<and> (\<exists>u. stdout s' = stdout s @ u)"
proof -
  obtain buf where buf: "store_at (p_cmd_data st) 0 [a, r, v] = Some buf"
    "length buf = PA_CMD_MAX_LEN" "take 3 buf = [a, r, v]"
    using store3 [OF assms(1)] by blast
  have hd: "w_line a r v \<noteq> []" "hd (w_line a r v) = CHR ''w''" by (simp_all add: w_line_def)
  show ?thesis
    using assms(2,3) buf(2,3)
    by (cases "status st")
      (auto simp: pa_line_def hd get_val_w_line buf(1) holds_cmd_def io_simps Let_def simp del: store_at.simps)
qed

lemma take_Suc_update: "n < length xs \<Longrightarrow> take (Suc n) (xs[n := x]) = take n xs @ [x]"
  by (subst take_Suc_conv_app_nth) (simp_all)

lemma pa_line_more:
  assumes "holds_cmd st (a, r, v, vs)" and "cmd_fits (a, r, v, vs @ [x])"
  shows "\<exists>st'. pa_line api m (more_line x) (st, s, w) = Done (st', s, w) \<and>
    holds_cmd st' (a, r, v, vs @ [x])"
proof -
  have h: "status st = STATUS_W_PREPARING" "length (p_cmd_data st) = PA_CMD_MAX_LEN"
    "cmd_data_len st = length vs + 3" "take (length vs + 3) (p_cmd_data st) = a # r # v # vs"
    using assms(1) by (simp_all add: holds_cmd_def)
  have i: "length vs + 3 < length (p_cmd_data st)" using assms(2) h(2) by (simp add: cmd_fits_def)
  have hd: "more_line x \<noteq> []" "hd (more_line x) = CHR ''>''" by (simp_all add: more_line_def)
  have "take (Suc (length vs + 3)) ((p_cmd_data st)[length vs + 3 := x]) = a # r # v # vs @ [x]"
    unfolding take_Suc_update [OF i] h(4) by simp
  moreover have "Suc (length vs + 3) = length (vs @ [x]) + 3" by simp
  ultimately have "take (length (vs @ [x]) + 3) ((p_cmd_data st)[length vs + 3 := x]) = a # r # v # vs @ [x]"
    by (simp only:)
  then show ?thesis
    using i h by (simp add: pa_line_def hd get_val_more_line [simplified] holds_cmd_def)
qed

lemma pa_lines_append:
  "pa_lines api m (xs @ ys) c =
     (case pa_lines api m xs c of Done c \<Rightarrow> pa_lines api m ys c | r \<Rightarrow> r)"
  by (induction xs arbitrary: c) (auto split: run.splits)

lemma pa_lines_more:
  assumes "holds_cmd st (a, r, v, us)" and "cmd_fits (a, r, v, us @ vs)"
  shows "\<exists>st'. pa_lines api m (map more_line vs) (st, s, w) = Done (st', s, w) \<and>
    holds_cmd st' (a, r, v, us @ vs)"
  using assms
proof (induction vs arbitrary: st us)
  case (Cons x vs)
  have "cmd_fits (a, r, v, us @ [x])" using Cons.prems(2) by (simp add: cmd_fits_def)
  from pa_line_more [OF Cons.prems(1) this, of api m s w] obtain st1 where
    1: "pa_line api m (more_line x) (st, s, w) = Done (st1, s, w)" "holds_cmd st1 (a, r, v, us @ [x])"
    by blast
  from Cons.IH [OF 1(2)] Cons.prems(2) 1(1) show ?case by simp
qed simp

text \<open>All lines of a command.\<close>

lemma pa_lines_cmd:
  assumes "length (p_cmd_data st) = PA_CMD_MAX_LEN" and "cmd_fits c"
    and "status st = STATUS_W_PREPARING \<Longrightarrow> pa_send api m st w = Some w0"
    and "status st \<noteq> STATUS_W_PREPARING \<Longrightarrow> w0 = w"
  shows "\<exists>st' s'. pa_lines api m (cmd_lines c) (st, s, w) = Done (st', s', w0) \<and>
    holds_cmd st' c \<and> heap s' = heap s"
proof -
  obtain a r v vs where c: "c = (a, r, v, vs)" by (cases c) auto
  obtain st1 s1 where 1: "pa_line api m (w_line a r v) (st, s, w) = Done (st1, s1, w0)"
    "holds_cmd st1 (a, r, v, [])" "heap s1 = heap s"
    using pa_line_w [OF assms(1,3,4)] by blast
  from pa_lines_more [OF 1(2), of vs api m s1 w0] assms(2) 1 show ?thesis by (auto simp: c)
qed

lemma pa_lines_cmds:
  assumes "holds_cmd st c" and "cmd_fits c" and "\<forall>d \<in> set cs. cmd_fits d"
  shows "\<exists>st' s'. pa_lines api m (concat (map cmd_lines cs)) (st, s, w) =
      Done (st', s', fold (cmd_write api m) (butlast (c # cs)) w) \<and>
    holds_cmd st' (last (c # cs)) \<and> heap s' = heap s"
  using assms
proof (induction cs arbitrary: st c s w)
  case (Cons d ds)
  have l: "length (p_cmd_data st) = PA_CMD_MAX_LEN" "status st = STATUS_W_PREPARING"
    using Cons.prems(1) by (auto simp: holds_cmd_def split: prod.splits)
  have d: "cmd_fits d" "\<forall>d \<in> set ds. cmd_fits d" using Cons.prems(3) by simp_all
  obtain st1 s1 where 1: "pa_lines api m (cmd_lines d) (st, s, w) = Done (st1, s1, cmd_write api m c w)"
    "holds_cmd st1 d" "heap s1 = heap s"
    using pa_lines_cmd [OF l(1) d(1), of api m w "cmd_write api m c w" s] l(2)
      pa_send_holds [OF Cons.prems(1,2), of api m w] by blast
  obtain st2 s2 where 2: "pa_lines api m (concat (map cmd_lines ds)) (st1, s1, cmd_write api m c w) =
      Done (st2, s2, fold (cmd_write api m) (butlast (d # ds)) (cmd_write api m c w))"
    "holds_cmd st2 (last (d # ds))" "heap s2 = heap s1"
    using Cons.IH [OF 1(2) d, of s1 "cmd_write api m c w"] by blast
  have "pa_lines api m (concat (map cmd_lines (d # ds))) (st, s, w) =
      Done (st2, s2, fold (cmd_write api m) (butlast (c # d # ds)) w)"
    using 1(1) 2(1) by (simp add: pa_lines_append del: cmd_lines.simps cmd_write.simps)
  with 1(3) 2(2,3) show ?case by (metis last_ConsR list.distinct(1))
qed simp

text \<open>A further line that is neither "w" nor ">" sends what is pending.\<close>

definition other_line :: "string \<Rightarrow> bool" where
  "other_line t \<longleftrightarrow> (t = [] \<or> hd t \<notin> {CHR ''w'', CHR ''>''})"

lemma pa_line_other:
  assumes "holds_cmd st c" and "cmd_fits c" and "other_line t"
  shows "\<exists>st'. pa_line api m t (st, s, w) = Done (st', s, cmd_write api m c w)"
proof -
  have "status st = STATUS_W_PREPARING" using assms(1) by (auto simp: holds_cmd_def split: prod.splits)
  then show ?thesis
    using pa_send_holds [OF assms(1,2), of api m w] assms(3) by (auto simp: pa_line_def other_line_def)
qed

lemma pa_lines_config:
  assumes "cs \<noteq> []" and "\<forall>d \<in> set cs. cmd_fits d" and "length buf = PA_CMD_MAX_LEN"
  shows "\<exists>st' s'. pa_lines api m (concat (map cmd_lines cs)) (pa_init buf, s, w) =
      Done (st', s', fold (cmd_write api m) (butlast cs) w) \<and> holds_cmd st' (last cs) \<and> heap s' = heap s"
proof -
  obtain c ds where cs: "cs = c # ds" using assms(1) by (cases cs) auto
  have c: "cmd_fits c" "\<forall>d \<in> set ds. cmd_fits d" using assms(2) by (simp_all add: cs)
  have l: "length (p_cmd_data (pa_init buf)) = PA_CMD_MAX_LEN" "status (pa_init buf) = STATUS_NOTHING"
    by (simp_all add: pa_init_def assms(3))
  obtain st1 s1 where 1: "pa_lines api m (cmd_lines c) (pa_init buf, s, w) = Done (st1, s1, w)"
    "holds_cmd st1 c" "heap s1 = heap s"
    using pa_lines_cmd [OF l(1) c(1), of api m w w s] l(2) by auto
  from pa_lines_cmds [OF 1(2) c, of api m s1 w] 1(1,3) show ?thesis
    by (auto simp: cs pa_lines_append simp del: cmd_lines.simps)
qed

section \<open>Properties of the text configuration\<close>

text \<open>
  The values of a command line are read back exactly: what is printed as two-digit hexadecimal
  numbers behind "w" or ">" is what the scanner stores.
\<close>

lemma get_val_from_string_roundtrip:
  "get_val_from_string (w_line a r v) 3 = [a, r, v] \<and> get_val_from_string (more_line v) 1 = [v]"
  using get_val_w_line get_val_more_line by simp

text \<open>
  C26. A configuration text is interpreted command by command, each command becoming one bus write
  of its register and all of its bytes, in order, and the buffer is released.  But the last command
  is only sent if another line follows it: without one, its write is lost.
\<close>

theorem set_config_from_code_writes:
  assumes "cs \<noteq> []" and "\<forall>d \<in> set cs. cmd_fits d" and "other_line t"
    and "heap_wf (heap s)" and "h_ok (heap s) (h_next (heap s))"
  shows "(\<exists>s'. tas5805m_pa_set_config_from_code api m (Some (concat (map cmd_lines cs))) (s, w) =
      Done (s', fold (cmd_write api m) (butlast cs) w) \<and> h_live (heap s') = h_live (heap s)) \<and>
    (\<exists>s'. tas5805m_pa_set_config_from_code api m (Some (concat (map cmd_lines cs) @ [t])) (s, w) =
      Done (s', fold (cmd_write api m) cs w) \<and> h_live (heap s') = h_live (heap s))"
proof -
  let ?p = "h_next (heap s)" and ?h = "snd (malloc (heap s))"
  have q: "malloc (heap s) = (Some ?p, ?h)" using assms(5) by (simp add: malloc_def)
  let ?s = "s\<lparr>heap := ?h\<rparr>" and ?buf = "fresh_block ?h ?p PA_CMD_MAX_LEN"
  have buf: "length ?buf = PA_CMD_MAX_LEN" by (simp add: fresh_block_def)
  obtain st1 s1 where 1: "pa_lines api m (concat (map cmd_lines cs)) (pa_init ?buf, ?s, w) =
      Done (st1, s1, fold (cmd_write api m) (butlast cs) w)" "holds_cmd st1 (last cs)" "heap s1 = ?h"
    using pa_lines_config [OF assms(1,2) buf, of api m ?s w] by auto
  have "cmd_fits (last cs)" using assms(1,2) by simp
  from pa_line_other [OF 1(2) this assms(3), of api m s1 "fold (cmd_write api m) (butlast cs) w"]
  obtain st2 where 2: "pa_line api m t (st1, s1, fold (cmd_write api m) (butlast cs) w) =
      Done (st2, s1, cmd_write api m (last cs) (fold (cmd_write api m) (butlast cs) w))" by blast
  have "fold (cmd_write api m) (butlast cs @ [last cs]) w =
      cmd_write api m (last cs) (fold (cmd_write api m) (butlast cs) w)" by simp
  then have l: "cmd_write api m (last cs) (fold (cmd_write api m) (butlast cs) w) =
      fold (cmd_write api m) cs w"
    using assms(1) by simp
  have live: "h_live (release ?p ?h) = h_live (heap s)" by (rule hp.bracket(1) [OF assms(4) q])
  have m: "io_malloc s = (Some ?p, ?s)" unfolding io_malloc_def by (subst q) simp
  show ?thesis
    using 1 2 l live
    by (simp add: tas5805m_pa_set_config_from_code_def m pa_lines_append io_simps free_opt_def
        del: cmd_lines.simps)
qed

text \<open>Two commands; the second one is lost without a closing line.\<close>

theorem set_config_from_code_writes_witness:
  "\<exists>s' s''. tas5805m_pa_set_config_from_code (mem_api {0x5c}) i2c_up
      (Some (cmd_lines (0xb8, 0x00, 0x01, []) @ cmd_lines (0xb8, 0x02, 0x03, []))) (io0, mem0) =
      Done (s', cmd_write (mem_api {0x5c}) i2c_up (0xb8, 0x00, 0x01, []) mem0) \<and>
    tas5805m_pa_set_config_from_code (mem_api {0x5c}) i2c_up
      (Some ((cmd_lines (0xb8, 0x00, 0x01, []) @ cmd_lines (0xb8, 0x02, 0x03, [])) @ [[]])) (io0, mem0) =
      Done (s'', cmd_write (mem_api {0x5c}) i2c_up (0xb8, 0x02, 0x03, [])
                   (cmd_write (mem_api {0x5c}) i2c_up (0xb8, 0x00, 0x01, []) mem0))"
  using set_config_from_code_writes [of "[(0xb8, 0x00, 0x01, []), (0xb8, 0x02, 0x03, [])]" "[]" io0
      "mem_api {0x5c}" i2c_up mem0]
  by (simp add: cmd_fits_def PA_CMD_MAX_LEN_def other_line_def io0_def heap_wf_def
      del: cmd_lines.simps cmd_write.simps) blast

text \<open>
  C37. A command with more than 252 continuation lines runs over the end of the command buffer: no
  check of the length stands in the way.
\<close>

theorem set_config_from_code_overflow:
  assumes "length vs > 252" and "h_ok (heap s) (h_next (heap s))"
  shows "tas5805m_pa_set_config_from_code api m (Some (cmd_lines (a, r, v, vs))) (s, w) =
    Crash Out_of_bounds"
proof -
  let ?p = "h_next (heap s)" and ?h = "snd (malloc (heap s))"
  have m: "io_malloc s = (Some ?p, s\<lparr>heap := ?h\<rparr>)" using assms(2) by (simp add: io_malloc_def malloc_def)
  let ?s = "s\<lparr>heap := ?h\<rparr>" and ?buf = "fresh_block ?h ?p PA_CMD_MAX_LEN"
  have l: "length (p_cmd_data (pa_init ?buf)) = PA_CMD_MAX_LEN" by (simp add: pa_init_def fresh_block_def)
  obtain us x xs where vs: "vs = us @ x # xs" "length us = 252"
    using assms(1) id_take_nth_drop [of 252 vs] by auto
  have fits: "cmd_fits (a, r, v, us)" using vs(2) by (simp add: cmd_fits_def PA_CMD_MAX_LEN_def)
  obtain st1 s1 where 1: "pa_lines api m (cmd_lines (a, r, v, us)) (pa_init ?buf, ?s, w) = Done (st1, s1, w)"
    "holds_cmd st1 (a, r, v, us)"
    using pa_lines_cmd [OF l fits, of api m w w ?s] by (auto simp: pa_init_def)
  have "pa_line api m (more_line x) (st1, s1, w) = Crash Out_of_bounds"
    using 1(2) vs(2) get_val_more_line [of x]
    by (simp add: pa_line_def holds_cmd_def PA_CMD_MAX_LEN_def more_line_def)
  moreover have "cmd_lines (a, r, v, vs) = cmd_lines (a, r, v, us) @ more_line x # map more_line xs"
    by (simp add: vs)
  ultimately show ?thesis
    using 1(1) by (simp add: tas5805m_pa_set_config_from_code_def m pa_lines_append del: cmd_lines.simps)
qed

theorem set_config_from_code_overflow_witness:
  "tas5805m_pa_set_config_from_code (mem_api {}) i2c_up
     (Some (cmd_lines (0xb8, 0, 0, replicate 253 0))) (io0, mem0) = Crash Out_of_bounds"
  using set_config_from_code_overflow [of "replicate 253 0" io0 "mem_api {}" i2c_up "0xb8" 0 0 mem0]
  by (simp add: io0_def del: cmd_lines.simps)

section \<open>The register table\<close>

text \<open>An entry that is a write or a delay, and what a list of such entries does.\<close>

definition ordinary :: "tas5805m_cfg_reg \<Rightarrow> bool" where
  "ordinary c \<longleftrightarrow> offset c \<noteq> CFG_META_SWITCH \<and> offset c \<noteq> CFG_META_BURST \<and> offset c \<noteq> CFG_END_1"

fun table_effect ::
  "'w i2c_api \<Rightarrow> i2c_mod \<Rightarrow> tas5805m_cfg_reg list \<Rightarrow> 'a io_scheme \<times> 'w \<Rightarrow> 'a io_scheme \<times> 'w" where
  "table_effect api m [] c = c"
| "table_effect api m (e # es) (s, w) =
     table_effect api m es
       (if offset e = CFG_META_DELAY then (vTaskDelay (unat (reg_value e)) s, w)
        else (s, pa_write_entry api m e w))"

lemma transmit_ordinary:
  "list_all ordinary xs \<Longrightarrow>
     transmit_loop api m (xs @ ys) i c = transmit_loop api m ys (i + length xs) (table_effect api m xs c)"
proof (induction xs arbitrary: i c)
  case (Cons x xs)
  then show ?case by (cases c) (simp add: transmit_loop.simps ordinary_def)
qed simp

definition end_mark :: "u8 \<Rightarrow> u8 \<Rightarrow> u8 \<Rightarrow> tas5805m_cfg_reg list" where
  "end_mark a b c = cfg_regs [(CFG_END_1, a), (CFG_END_2, b), (CFG_END_3, c)]"

lemma transmit_end_mark:
  "transmit_loop api m (end_mark a b c @ ys) i (s, w) =
    transmit_loop api m (cfg_regs [(CFG_END_2, b), (CFG_END_3, c)] @ ys) (i + 1) (printf (end_text i) s, w)"
  unfolding end_mark_def cfg_regs_def list.map append_Cons prod.case
  by (subst transmit_loop.simps(2)) (simp add: cfg_defs)

lemma transmit_registers_mark:
  assumes "list_all ordinary xs" and "list_all ordinary ys"
  shows "transmit_registers api m (xs @ end_mark a b c @ ys) (s, w) =
    (let (s1, w1) = table_effect api m xs (s, w);
         (s2, w2) = table_effect api m (cfg_regs [(CFG_END_2, b), (CFG_END_3, c)] @ ys)
           (printf (end_text (length xs)) s1, w1)
     in Done (printf (all_text (length xs + 3 + length ys)) s2, w2))"
proof -
  obtain s1 w1 where 1: "table_effect api m xs (s, w) = (s1, w1)" by (cases "table_effect api m xs (s, w)")
  let ?r = "cfg_regs [(CFG_END_2, b), (CFG_END_3, c)] @ ys"
  let ?c = "table_effect api m ?r (printf (end_text (length xs)) s1, w1)"
  have "list_all ordinary ?r"
    using assms(2) by (simp add: cfg_regs_def ordinary_def cfg_defs)
  from transmit_ordinary [OF this, of api m "[]" "length xs + 1"]
  have t: "transmit_loop api m ?r (length xs + 1) d =
      transmit_loop api m [] (length xs + 1 + length ?r) (table_effect api m ?r d)" for d
    unfolding append_Nil2 .
  have "length xs + 1 + length ?r = length xs + 3 + length ys" by (simp add: cfg_regs_def)
  then have "transmit_loop api m ?r (length xs + 1) (printf (end_text (length xs)) s1, w1) =
      Done (length xs + 3 + length ys, ?c)"
    unfolding t by (cases ?c) (simp only: transmit_loop.simps(1))
  then have "transmit_loop api m (xs @ end_mark a b c @ ys) 0 (s, w) = Done (length xs + 3 + length ys, ?c)"
    by (simp only: transmit_ordinary [OF assms(1)] 1 transmit_end_mark add_0)
  then show ?thesis
    unfolding transmit_registers_def Let_def 1 prod.case by (cases ?c) (simp only: run.case prod.case)
qed

text \<open>
  C40. The end marker of a register table does not end it.  The entries before it are applied in
  order; the marker is reported; and then everything behind it is applied as well, beginning with
  the other two entries of the marker itself, which are written to the amplifier as registers.
\<close>

theorem transmit_registers_end_mark:
  assumes "list_all ordinary xs" and "list_all ordinary ys"
  shows "transmit_registers api m (xs @ end_mark a b c @ ys) (s, w) =
    (let (s1, w1) = table_effect api m xs (s, w);
         (s2, w2) = table_effect api m (cfg_regs [(CFG_END_2, b), (CFG_END_3, c)] @ ys)
           (printf (end_text (length xs)) s1, w1)
     in Done (printf (all_text (length xs + 3 + length ys)) s2, w2))"
  by (rule transmit_registers_mark [OF assms])

theorem transmit_registers_end_mark_witness:
  "\<exists>s'. transmit_registers (mem_api {0x5c}) i2c_up (cfg_regs [(3, 2)] @ end_mark 0xbb 0xdd 0xff @ []) (io0, mem0) =
     Done (s', pa_write_entry (mem_api {0x5c}) i2c_up \<lparr>offset = 0xee, reg_value = 0xff\<rparr>
       (pa_write_entry (mem_api {0x5c}) i2c_up \<lparr>offset = 0xcc, reg_value = 0xdd\<rparr>
         (pa_write_entry (mem_api {0x5c}) i2c_up \<lparr>offset = 3, reg_value = 2\<rparr> mem0)))"
  using transmit_registers_end_mark [of "cfg_regs [(3, 2)]" "[]" "mem_api {0x5c}" i2c_up "0xbb" "0xdd" "0xff" io0 mem0]
  by (simp add: cfg_regs_def ordinary_def cfg_defs Let_def)

text \<open>The table of the repository: ordinary entries up to the marker at its end.\<close>

lemma ordinary_part_1: "list_all ordinary tas5805m_registers_1"
  by code_simp

lemma ordinary_part_2: "list_all ordinary tas5805m_registers_2"
  by code_simp

lemma ordinary_part_3: "list_all ordinary tas5805m_registers_3"
  by code_simp

lemma ordinary_part_4: "list_all ordinary tas5805m_registers_4"
  by code_simp

lemma ordinary_part_5: "list_all ordinary tas5805m_registers_5"
  by code_simp

lemma ordinary_part_6: "list_all ordinary tas5805m_registers_6"
  by code_simp

lemma ordinary_part_7: "list_all ordinary tas5805m_registers_7"
  by code_simp

lemma ordinary_part_8: "list_all ordinary tas5805m_registers_8"
  by code_simp

lemma ordinary_part_9: "list_all ordinary tas5805m_registers_9"
  by code_simp

lemma ordinary_part_10: "list_all ordinary tas5805m_registers_10"
  by code_simp

lemma ordinary_part_11: "list_all ordinary tas5805m_registers_11"
  by code_simp

definition table_12_body :: "tas5805m_cfg_reg list" where
  "table_12_body = take 125 tas5805m_registers_12"

lemma table_12: "tas5805m_registers_12 = table_12_body @ end_mark 0xbb 0xdd 0xff"
  "list_all ordinary table_12_body" "length table_12_body = 125"
  by code_simp+

definition table_body :: "tas5805m_cfg_reg list" where
  "table_body = concat [tas5805m_registers_1, tas5805m_registers_2, tas5805m_registers_3,
     tas5805m_registers_4, tas5805m_registers_5, tas5805m_registers_6, tas5805m_registers_7,
     tas5805m_registers_8, tas5805m_registers_9, tas5805m_registers_10, tas5805m_registers_11,
     table_12_body]"

lemma tas5805m_registers_split: "tas5805m_registers = table_body @ end_mark 0xbb 0xdd 0xff @ []"
  by (simp add: tas5805m_registers_def table_body_def table_12)

lemmas ordinary_parts = ordinary_part_1 ordinary_part_2 ordinary_part_3 ordinary_part_4
  ordinary_part_5 ordinary_part_6 ordinary_part_7 ordinary_part_8 ordinary_part_9
  ordinary_part_10 ordinary_part_11 table_12(2)

lemma table_body_ordinary: "list_all ordinary table_body"
  by (simp add: table_body_def ordinary_parts)

lemma length_table_body: "length table_body = 1677"
  by (simp add: table_body_def table_12 table_parts cfg_regs_def)

text \<open>
  C33. Configuring the amplifier from the repository's table always terminates without leaving the
  table: its 1677 entries are applied in order, and after them the registers 0xcc and 0xee are
  written with the values that stand in the end marker.
\<close>

theorem set_config_from_code_2_effect:
  "\<exists>s'. tas5805m_pa_set_config_from_code_2 api m (s, w) = Done (s',
     pa_write_entry api m \<lparr>offset = 0xee, reg_value = 0xff\<rparr>
       (pa_write_entry api m \<lparr>offset = 0xcc, reg_value = 0xdd\<rparr>
         (snd (table_effect api m table_body (s, w))))) \<and>
   tas5805m_registers = table_body @ end_mark 0xbb 0xdd 0xff \<and> length table_body = 1677"
proof -
  obtain s1 w1 where 1: "table_effect api m table_body (s, w) = (s1, w1)"
    by (cases "table_effect api m table_body (s, w)")
  have "table_effect api m (cfg_regs [(CFG_END_2, 0xdd), (CFG_END_3, 0xff)] @ []) (s', w1) = (s',
      pa_write_entry api m \<lparr>offset = 0xee, reg_value = 0xff\<rparr>
        (pa_write_entry api m \<lparr>offset = 0xcc, reg_value = 0xdd\<rparr> w1))" for s' :: "'a io_scheme"
    by (simp add: cfg_regs_def cfg_defs)
  with transmit_registers_mark [OF table_body_ordinary, of "[]" api m "0xbb" "0xdd" "0xff" s w] 1 show ?thesis
    by (simp add: tas5805m_pa_set_config_from_code_2_def tas5805m_registers_split length_table_body)
qed

end
