(* ===== verification/Tas5805m.thy ===== *)
theory Tas5805m
  imports Es8156 Pa_Config Board_Pins
begin

text \<open>
  The driver of the TAS5805M amplifier (components/codec/TAS5805M/tas5805m.c): reset and configuration
  of the chip, and its volume.
\<close>

section \<open>Register access\<close>

definition tas5805m_i2c_cfg :: i2c_config_t where
  "tas5805m_i2c_cfg = \<lparr>master_mode = True, sda_io_num = IIC_DATA, scl_io_num = IIC_CLK,
     sda_pullup_en = True, scl_pullup_en = True, clk_speed = 100000\<rparr>"

definition tas5805mReadReg_2 ::
  "'w i2c_api \<Rightarrow> u8 \<Rightarrow> int \<Rightarrow> 'w \<Rightarrow> (int \<times> (nat \<times> u8) list) \<times> 'w" where
  "tas5805mReadReg_2 api regAdd len w =
     (let ((res, bytes), w) = codec_read api TAS5805M_ADDR regAdd len w
      in ((if res \<noteq> 0 then -1 else res, bytes), w))"

text \<open>\<open>data\<close> points to the register number and the value.\<close>

definition tas5805mWriteReg :: "'w i2c_api \<Rightarrow> i2c_mod \<Rightarrow> u8 \<times> u8 \<Rightarrow> 'w \<Rightarrow> int \<times> 'w" where
  "tas5805mWriteReg api m data w =
     (let (x, w) = i2c_bus_write_bytes api m 0 TAS5805M_ADDR [fst data] (Some [snd data]) w;
          res = 0 OR x
      in (if res \<noteq> 0 then -1 else res, w))"

section \<open>Initialisation\<close>

definition tas5805mInit ::
  "'w i2c_api \<Rightarrow> 'w gpio_api \<Rightarrow> 'a io_scheme \<times> i2c_mod \<times> 'w \<Rightarrow>
     (int \<times> 'a io_scheme \<times> i2c_mod \<times> 'w) run" where
  "tas5805mInit api gpio = (\<lambda>(s, m, w).
     let w = gpio_config gpio \<lparr>gc_pin = GPIO_PA_RST BOARD_V2, gc_output = True\<rparr> w;
         w = gpio_set_level gpio (GPIO_PA_RST BOARD_V2) 0 w;
         s = vTaskDelay (10 div portTICK_PERIOD_MS) s;
         w = gpio_set_level gpio (GPIO_PA_RST BOARD_V2) 1 w;
         s = vTaskDelay (20 div portTICK_PERIOD_MS) s;
         s = vTaskDelay (100 div portTICK_PERIOD_MS) s
     in case i2c_bus_create api 0 (Some tas5805m_i2c_cfg) (s, m, w) of
          Done (i2c_handler, s, m, w) \<Rightarrow>
            if i2c_handler = None then Done (-1, s, m, w)
            else (case tas5805m_pa_set_config_from_code_2 api m (s, w) of
                    Done (s, w) \<Rightarrow> Done (0, s, m, w)
                  | Restart r \<Rightarrow> Restart (0, fst r, m, snd r) | Hang \<Rightarrow> Hang | Crash c \<Rightarrow> Crash c)
        | Restart r \<Rightarrow> Restart (0, snd r) | Hang \<Rightarrow> Hang | Crash c \<Rightarrow> Crash c)"

section \<open>Volume\<close>

text \<open>
  The static array \<open>NpcVolume\<close> is passed in and returned.  The four reads after the write are
  done and their values dropped.
\<close>

definition tas5805mSetVolume ::
  "'w i2c_api \<Rightarrow> i2c_mod \<Rightarrow> int \<Rightarrow> (u8 \<times> u8) \<times> 'w \<Rightarrow> int \<times> (u8 \<times> u8) \<times> 'w" where
  "tas5805mSetVolume api m val = (\<lambda>(NpcVolume, w).
     let NpcVolume = (fst NpcVolume, of_int val);
         (x, w) = tas5805mWriteReg api m NpcVolume w;
         res = 0 OR x;
         (_, w) = tas5805mReadReg_2 api 0x03 1 w;
         (_, w) = tas5805mReadReg_2 api 0x4c 1 w;
         (_, w) = tas5805mReadReg_2 api 0x4e 1 w;
         (_, w) = tas5805mReadReg_2 api 0x4f 1 w
     in (res, NpcVolume, w))"

definition NpcVolume0 :: "u8 \<times> u8" where "NpcVolume0 = (0x4c, 0x00)"

text \<open>The array read into is not initialised: \<open>junk\<close> is what it holds.\<close>

definition tas5805mGetVolume :: "'w i2c_api \<Rightarrow> (nat \<Rightarrow> u8) \<Rightarrow> 'w \<Rightarrow> (int \<times> int) \<times> 'w" where
  "tas5805mGetVolume api junk w =
     (let ((_, bytes), w) = tas5805mReadReg_2 api 0x4c 1 w
      in ((0, uint (read_value bytes [junk 0, junk 1])), w))"

section \<open>The chip as a register device\<close>

definition tas_write :: "'w i2c_api \<Rightarrow> i2c_mod \<Rightarrow> u8 \<Rightarrow> u8 \<Rightarrow> 'w \<Rightarrow> int \<times> 'w" where
  "tas_write api m r v w = tas5805mWriteReg api m (r, v) w"

definition tas_read :: "'w i2c_api \<Rightarrow> u8 \<Rightarrow> 'w \<Rightarrow> int \<times> 'w" where
  "tas_read api r w =
     (let ((_, bytes), w) = tas5805mReadReg_2 api r 1 w in (uint (read_value bytes [0, 0]), w))"

lemma tas_write_eq:
  "tas_write api m r v w = i2c_bus_write_bytes api m 0 TAS5805M_ADDR [r] (Some [v]) w"
  using chip_write_status [of api m 0 TAS5805M_ADDR "[r]" "Some [v]" w]
  by (auto simp: tas_write_def tas5805mWriteReg_def Let_def split: prod.splits)

interpretation tas: reg_device
  "tas_write api m" "chip_ok api dev view m TAS5805M_ADDR" "chip_regs view TAS5805M_ADDR"
  "tas_read api" for api dev view m
proof unfold_locales
  fix r v :: u8 and w
  show "fst (tas_write api m r v w) \<in> {0, -1}" unfolding tas_write_eq by (rule chip_write_status)
  assume ok: "chip_ok api dev view m TAS5805M_ADDR w"
  show "\<exists>w'. tas_write api m r v w = (0, w') \<and> chip_ok api dev view m TAS5805M_ADDR w' \<and>
      chip_regs view TAS5805M_ADDR w' = (chip_regs view TAS5805M_ADDR w)(r := v)"
    unfolding tas_write_eq using ok by (rule chip_write_ok)
  show "\<exists>w'. tas_read api r w = (uint (chip_regs view TAS5805M_ADDR w r), w') \<and>
      chip_ok api dev view m TAS5805M_ADDR w' \<and>
      chip_regs view TAS5805M_ADDR w' = chip_regs view TAS5805M_ADDR w"
    using chip_read_ok [OF ok, of r] by (auto simp: tas_read_def tas5805mReadReg_2_def read_value_def)
qed

lemma tas_read_ok:
  assumes "chip_ok api dev view m TAS5805M_ADDR w"
  shows "\<exists>w'. tas5805mReadReg_2 api r 1 w = ((0, [(0, chip_regs view TAS5805M_ADDR w r)]), w') \<and>
     chip_ok api dev view m TAS5805M_ADDR w' \<and>
     chip_regs view TAS5805M_ADDR w' = chip_regs view TAS5805M_ADDR w"
  using chip_read_ok [OF assms, of r] by (auto simp: tas5805mReadReg_2_def)

section \<open>Properties\<close>

text \<open>
  The amplifier's volume round trip: with the register pointer the driver starts with, a set
  volume is written to register 0x4c and to no other, and read back as the value modulo 256; a
  value of the range "0 \<dots> 499" that the comment at the function names does not survive above 255.
\<close>

lemma tas5805m_volume_roundtrip:
  assumes "chip_ok api dev view m TAS5805M_ADDR w"
  shows "\<exists>w1 w2. tas5805mSetVolume api m v (NpcVolume0, w) = (0, (0x4c, of_int v), w1) \<and>
    chip_regs view TAS5805M_ADDR w1 = (chip_regs view TAS5805M_ADDR w)(0x4c := of_int v) \<and>
    tas5805mGetVolume api junk w1 = ((0, v mod 256), w2)"
proof -
  let ?R = "chip_regs view TAS5805M_ADDR"
  obtain w1 where 1: "tas5805mWriteReg api m (0x4c, of_int v) w = (0, w1)"
    "chip_ok api dev view m TAS5805M_ADDR w1" "?R w1 = (?R w)(0x4c := of_int v)"
    using tas.wr_ok [OF assms, of "0x4c" "of_int v"] by (auto simp: tas_write_def)
  obtain w2 where 2: "tas5805mReadReg_2 api 0x03 1 w1 = ((0, [(0, ?R w1 0x03)]), w2)"
    "chip_ok api dev view m TAS5805M_ADDR w2" "?R w2 = ?R w1" using tas_read_ok [OF 1(2)] by blast
  obtain w3 where 3: "tas5805mReadReg_2 api 0x4c 1 w2 = ((0, [(0, ?R w2 0x4c)]), w3)"
    "chip_ok api dev view m TAS5805M_ADDR w3" "?R w3 = ?R w2" using tas_read_ok [OF 2(2)] by blast
  obtain w4 where 4: "tas5805mReadReg_2 api 0x4e 1 w3 = ((0, [(0, ?R w3 0x4e)]), w4)"
    "chip_ok api dev view m TAS5805M_ADDR w4" "?R w4 = ?R w3" using tas_read_ok [OF 3(2)] by blast
  obtain w5 where 5: "tas5805mReadReg_2 api 0x4f 1 w4 = ((0, [(0, ?R w4 0x4f)]), w5)"
    "chip_ok api dev view m TAS5805M_ADDR w5" "?R w5 = ?R w4" using tas_read_ok [OF 4(2)] by blast
  obtain w6 where 6: "tas5805mReadReg_2 api 0x4c 1 w5 = ((0, [(0, ?R w5 0x4c)]), w6)"
    using tas_read_ok [OF 5(2)] by blast
  have "uint (of_int v :: u8) = v mod 256" by (simp add: unsigned_of_int take_bit_eq_mod)
  with 1 2 3 4 5 6 show ?thesis
    by (simp add: tas5805mSetVolume_def tas5805mGetVolume_def NpcVolume0_def read_value_def)
qed

lemma tas5805m_volume_roundtrip_witness:
  "\<exists>w1 w2. tas5805mSetVolume (mem_api {0x5c}) i2c_up0 300 (NpcVolume0, mem0) = (0, (0x4c, 300), w1) \<and>
     tas5805mGetVolume (mem_api {0x5c}) (\<lambda>_. 0) w1 = ((0, 44), w2)"
proof -
  have "chip_ok (mem_api {0x5c}) {0x5c} mem_view i2c_up0 TAS5805M_ADDR mem0"
    using mem0_ok [of "0x5c" "{0x5c}"]
    by (simp add: chip_ok_def lock_free_def i2c_up0_def TAS5805M_ADDR_def)
  from tas5805m_volume_roundtrip [OF this, of 300 "\<lambda>_. 0"] show ?thesis by auto
qed

end
