(* ===== verification/Es7243e.thy ===== *)
theory Es7243e
  imports Es8156
begin

text \<open>
  The two drivers of the ES7243E microphone ADC: components/codec/TAS5805M/es7243e.c, which the
  player uses, and components/codec/es7243e/es7243e\_driver.c, which app\_main uses on boards of
  version 2.  Both program the same registers; they differ in how they treat a bus that cannot be
  created, and the first has a settable address.
\<close>

section \<open>The driver of the player\<close>

text \<open>The static variable \<open>es7243e_addr\<close>, its initial value, and the function that sets it.\<close>

definition es7243e_addr0 :: int where "es7243e_addr0 = 0x20"

definition es7243e_adc_set_addr :: "int \<Rightarrow> int \<Rightarrow> esp_err_t \<times> int" where
  "es7243e_adc_set_addr addr es7243e_addr = (ESP_OK, addr)"

text \<open>The address goes to the bus as one byte.\<close>

definition es7243e_write_reg ::
  "'w i2c_api \<Rightarrow> i2c_mod \<Rightarrow> int \<Rightarrow> u8 \<Rightarrow> u8 \<Rightarrow> 'w \<Rightarrow> int \<times> 'w" where
  "es7243e_write_reg api m es7243e_addr reg_addr reg_val w =
     (let (x, w) = i2c_bus_write_bytes api m 0 (of_int es7243e_addr) [reg_addr] (Some [reg_val]) w
      in (0 OR x, w))"

definition es7243e_read ::
  "'w i2c_api \<Rightarrow> int \<Rightarrow> u8 \<Rightarrow> int \<Rightarrow> 'w \<Rightarrow> (int \<times> (nat \<times> u8) list) \<times> 'w" where
  "es7243e_read api es7243e_addr regAdd len w = codec_read api (of_int es7243e_addr) regAdd len w"

definition es7243e_get_reg_value :: "'w i2c_api \<Rightarrow> int \<Rightarrow> u8 \<Rightarrow> 'w \<Rightarrow> int \<times> 'w" where
  "es7243e_get_reg_value api es7243e_addr reg_add w =
     (let ((_, bytes), w) = es7243e_read api es7243e_addr reg_add 1 w
      in (uint (read_value bytes [0, 0]), w))"

definition es7243e_i2c_init ::
  "'w i2c_api \<Rightarrow> 'a io_scheme \<times> i2c_mod \<times> 'w \<Rightarrow> (int \<times> 'a io_scheme \<times> i2c_mod \<times> 'w) run" where
  "es7243e_i2c_init api st =
     (case i2c_bus_create api 0 (Some es_i2c_cfg) st of
        Done (i2c_handle, st) \<Rightarrow> Done (0, st)
      | Restart r \<Rightarrow> Restart (0, snd r) | Hang \<Rightarrow> Hang | Crash c \<Rightarrow> Crash c)"

definition es7243e_adc_regs :: "(u8 \<times> u8) list" where
  "es7243e_adc_regs = [
     (0xf9, 0x00), (0x02, 0x80), (0x03, 0x20), (0x0d, 0x00), (0x04, 0x03), (0x05, 0x00),
     (0x09, 0xe0), (0x0a, 0xa0), (0x0b, 0x0c), (0x0e, 0xbf), (0x0f, 0x80), (0x14, 0x0c),
     (0x15, 0x0c), (0x18, 0x26), (0x17, 0x02), (0x19, 0x77), (0x1a, 0xf4), (0x1b, 0x66),
     (0x1c, 0x44), (0x1e, 0x00), (0x1f, 0x0c), (0x20, 0x18), (0x21, 0x18), (0x00, 0x80),
     (0x01, 0x3a), (0x16, 0x3f), (0x16, 0x00)]"

definition es7243e_adc_init ::
  "'w i2c_api \<Rightarrow> int \<Rightarrow> 'a io_scheme \<times> i2c_mod \<times> 'w \<Rightarrow>
     (esp_err_t \<times> 'a io_scheme \<times> i2c_mod \<times> 'w) run" where
  "es7243e_adc_init api es7243e_addr st =
     (case es7243e_i2c_init api st of
        Done (_, s, m, w) \<Rightarrow>
          let wr = es7243e_write_reg api m es7243e_addr;
              (ret, w) = write_regs wr es7243e_adc_regs ESP_OK w;
              s = vTaskDelay (30 div portTICK_PERIOD_MS) s;
              (ret, w) = write_regs wr [(0x16, 0x03)] ret w;
              s = vTaskDelay (30 div portTICK_PERIOD_MS) s;
              (ret, w) = write_regs wr [(0x16, 0x00)] ret w
          in if ret \<noteq> 0 then Done (ret, s, m, w) else Done (ret, s, m, w)
      | Restart r \<Rightarrow> Restart r | Hang \<Rightarrow> Hang | Crash c \<Rightarrow> Crash c)"

section \<open>The driver of version 2 boards\<close>

definition ES7243_ADDR :: u8 where "ES7243_ADDR = 0x20"

definition es7243e_drv_i2c_cfg :: i2c_config_t where
  "es7243e_drv_i2c_cfg = \<lparr>master_mode = True, sda_io_num = 18, scl_io_num = 23,
     sda_pullup_en = True, scl_pullup_en = True, clk_speed = 100000\<rparr>"

definition es7243e_drv_write_reg :: "'w i2c_api \<Rightarrow> i2c_mod \<Rightarrow> u8 \<Rightarrow> u8 \<Rightarrow> 'w \<Rightarrow> int \<times> 'w" where
  "es7243e_drv_write_reg api m reg_addr reg_val w =
     (let (x, w) = i2c_bus_write_bytes api m 0 ES7243_ADDR [reg_addr] (Some [reg_val]) w
      in (0 OR x, w))"

definition es7243e_drv_read_reg :: "'w i2c_api \<Rightarrow> u8 \<Rightarrow> 'w \<Rightarrow> int \<times> 'w" where
  "es7243e_drv_read_reg api reg_addr w =
     (let ((_, bytes), w) = codec_read api ES7243_ADDR reg_addr 1 w
      in (uint (read_value bytes [0, 0]), w))"

definition es7243e_drv_regs :: "(u8 \<times> u8) list" where
  "es7243e_drv_regs = [
     (0xf9, 0x00), (0x02, 0x80), (0x03, 0x20), (0x0d, 0x00), (0x04, 0x03), (0x05, 0x00),
     (0x09, 0xe0), (0x0a, 0xa0), (0x0b, 0x0c), (0x0e, 0xbf), (0x0f, 0x80), (0x14, 0x0c),
     (0x15, 0x0c), (0x18, 0x26), (0x17, 0x02), (0x19, 0x77), (0x1a, 0xf4), (0x1b, 0x66),
     (0x1c, 0x44), (0x1e, 0x00), (0x1f, 0x0c), (0x20, 0x18), (0x21, 0x18), (0x00, 0x80),
     (0x01, 0x3a), (0x16, 0x3f), (0x16, 0x00)]"

definition es7243e_init ::
  "'w i2c_api \<Rightarrow> 'a io_scheme \<times> i2c_mod \<times> 'w \<Rightarrow> (int \<times> 'a io_scheme \<times> i2c_mod \<times> 'w) run" where
  "es7243e_init api st =
     (case i2c_bus_create api 0 (Some es7243e_drv_i2c_cfg) st of
        Done (i2c_handler, s, m, w) \<Rightarrow>
          if i2c_handler = None then Done (-1, s, m, w)
          else
            let wr = es7243e_drv_write_reg api m;
                (ret, w) = write_regs wr es7243e_drv_regs 0 w;
                s = vTaskDelay (30 div portTICK_PERIOD_MS) s;
                (ret, w) = write_regs wr [(0x16, 0x03)] ret w;
                s = vTaskDelay (30 div portTICK_PERIOD_MS) s;
                (ret, w) = write_regs wr [(0x16, 0x00)] ret w
            in Done (ret, s, m, w)
      | Restart r \<Rightarrow> Restart (-1, snd r) | Hang \<Rightarrow> Hang | Crash c \<Rightarrow> Crash c)"

section \<open>The chip as a register device\<close>

lemma es7243e_write_reg_eq:
  "es7243e_write_reg api m a r v w = i2c_bus_write_bytes api m 0 (of_int a) [r] (Some [v]) w"
  by (simp add: es7243e_write_reg_def split: prod.splits)

lemma es7243e_drv_write_reg_eq:
  "es7243e_drv_write_reg api m r v w = i2c_bus_write_bytes api m 0 ES7243_ADDR [r] (Some [v]) w"
  by (simp add: es7243e_drv_write_reg_def split: prod.splits)

lemma drv_write_reg_same: "es7243e_drv_write_reg api m = es7243e_write_reg api m es7243e_addr0"
  by (intro ext) (simp add: es7243e_write_reg_eq es7243e_drv_write_reg_eq ES7243_ADDR_def
      es7243e_addr0_def)

interpretation es7243e: reg_device
  "es7243e_write_reg api m a" "chip_ok api dev view m (of_int a)" "chip_regs view (of_int a)"
  "es7243e_get_reg_value api a" for api dev view m a
proof unfold_locales
  fix r v :: u8 and w
  show "fst (es7243e_write_reg api m a r v w) \<in> {0, -1}"
    unfolding es7243e_write_reg_eq by (rule chip_write_status)
  assume ok: "chip_ok api dev view m (of_int a) w"
  show "\<exists>w'. es7243e_write_reg api m a r v w = (0, w') \<and> chip_ok api dev view m (of_int a) w' \<and>
      chip_regs view (of_int a) w' = (chip_regs view (of_int a) w)(r := v)"
    unfolding es7243e_write_reg_eq using ok by (rule chip_write_ok)
  show "\<exists>w'. es7243e_get_reg_value api a r w = (uint (chip_regs view (of_int a) w r), w') \<and>
      chip_ok api dev view m (of_int a) w' \<and>
      chip_regs view (of_int a) w' = chip_regs view (of_int a) w"
    using chip_read_ok [OF ok, of r]
    by (auto simp: es7243e_get_reg_value_def es7243e_read_def read_value_def)
qed

section \<open>Properties\<close>

text \<open>
  C29. The two drivers of the chip are equivalent on a bus that can be created: from the same state
  they return the same status and leave the same state.  Where they differ is a bus that cannot be
  created: the driver of version 2 boards gives up with -1, the player's driver programs the
  registers anyway.
\<close>

theorem es7243e_drivers_equivalent:
  "es7243e_init api st =
     (case i2c_bus_create api 0 (Some es_i2c_cfg) st of
        Done (None, st1) \<Rightarrow> Done (-1, st1)
      | _ \<Rightarrow> es7243e_adc_init api es7243e_addr0 st)"
proof -
  have "es7243e_drv_regs = es7243e_adc_regs" "es7243e_drv_i2c_cfg = es_i2c_cfg"
    by (simp_all add: es7243e_drv_regs_def es7243e_adc_regs_def es7243e_drv_i2c_cfg_def es_i2c_cfg_def)
  moreover have "i2c_bus_create api 0 (Some es_i2c_cfg) st \<noteq> Restart r" for r
    by (cases st) (auto simp: i2c_bus_create_def Let_def split: option.splits prod.splits)
  ultimately show ?thesis
    by (auto simp: es7243e_init_def es7243e_adc_init_def es7243e_i2c_init_def drv_write_reg_same
        Let_def split: run.splits option.splits prod.splits)
qed

lemma es7243e_init_ok:
  assumes "chip_ok api dev view m (of_int es7243e_addr0) w" and "i2c_bus m 0 = Some p"
  shows "\<exists>w'. es7243e_adc_init api es7243e_addr0 (s, m, w) = Done (ESP_OK, vTaskDelay 60 s, m, w') \<and>
    chip_regs view (of_int es7243e_addr0) w' =
      apply_regs (es7243e_adc_regs @ [(0x16, 0x03), (0x16, 0x00)]) (chip_regs view (of_int es7243e_addr0) w) \<and>
    chip_regs view (of_int es7243e_addr0) w' 0x16 = 0 \<and> chip_regs view (of_int es7243e_addr0) w' 0x01 = 0x3a \<and>
    chip_ok api dev view m (of_int es7243e_addr0) w'"
proof -
  let ?wr = "es7243e_write_reg api m es7243e_addr0" and ?R = "chip_regs view (of_int es7243e_addr0)"
  obtain w1 where 1: "write_regs ?wr es7243e_adc_regs 0 w = (0, w1)"
    "chip_ok api dev view m (of_int es7243e_addr0) w1" "?R w1 = apply_regs es7243e_adc_regs (?R w)"
    using es7243e.seq_ok [OF assms(1)] by blast
  obtain w2 where 2: "write_regs ?wr [(0x16, 0x03)] 0 w1 = (0, w2)"
    "chip_ok api dev view m (of_int es7243e_addr0) w2" "?R w2 = apply_regs [(0x16, 0x03)] (?R w1)"
    using es7243e.seq_ok [OF 1(2)] by blast
  obtain w3 where 3: "write_regs ?wr [(0x16, 0x00)] 0 w2 = (0, w3)"
    "chip_ok api dev view m (of_int es7243e_addr0) w3" "?R w3 = apply_regs [(0x16, 0x00)] (?R w2)"
    using es7243e.seq_ok [OF 2(2)] by blast
  have R: "?R w3 = apply_regs (es7243e_adc_regs @ [(0x16, 0x03), (0x16, 0x00)]) (?R w)"
    by (simp add: 3 2 1 bus_simps)
  moreover have "apply_regs (es7243e_adc_regs @ [(0x16, 0x03), (0x16, 0x00)]) f 0x16 = 0"
    "apply_regs (es7243e_adc_regs @ [(0x16, 0x03), (0x16, 0x00)]) f 0x01 = 0x3a" for f
    by (simp_all add: es7243e_adc_regs_def apply_regs_last)
  moreover have "vTaskDelay 30 (vTaskDelay 30 s) = vTaskDelay 60 s" by (simp add: vTaskDelay_def)
  ultimately show ?thesis
    using assms(2) 1(1) 2(1) 3(1,2)
    by (simp add: es7243e_adc_init_def es7243e_i2c_init_def i2c_bus_create_def I2C_NUM_MAX_def
        Let_def del: write_regs.simps)
qed

text \<open>
  On a working chip the initialisation succeeds after 60 ms and leaves every register at the last value of its
  sequence: register 0x16 (the reset of the converter) is back at zero.
\<close>

lemma es7243e_adc_init_programs:
  assumes "chip_ok api dev view m (of_int es7243e_addr0) w" and "i2c_bus m 0 = Some p"
  shows "\<exists>w'. es7243e_adc_init api es7243e_addr0 (s, m, w) = Done (ESP_OK, vTaskDelay 60 s, m, w') \<and>
    chip_regs view (of_int es7243e_addr0) w' =
      apply_regs (es7243e_adc_regs @ [(0x16, 0x03), (0x16, 0x00)]) (chip_regs view (of_int es7243e_addr0) w) \<and>
    chip_regs view (of_int es7243e_addr0) w' 0x16 = 0 \<and> chip_regs view (of_int es7243e_addr0) w' 0x01 = 0x3a"
  using es7243e_init_ok [OF assms] by blast

lemma es7243e_adc_init_programs_witness:
  "\<exists>w'. es7243e_adc_init (mem_api {0x20}) es7243e_addr0 (io0, i2c_up0, mem0) =
     Done (ESP_OK, vTaskDelay 60 io0, i2c_up0, w') \<and> chip_regs mem_view 0x20 w' 0x01 = 0x3a"
proof -
  have "chip_ok (mem_api {0x20}) {0x20} mem_view i2c_up0 (of_int es7243e_addr0) mem0"
    using mem0_ok [of "0x20" "{0x20}"]
    by (simp add: chip_ok_def lock_free_def i2c_up0_def es7243e_addr0_def)
  from es7243e_adc_init_programs [OF this, of 0 io0] show ?thesis
    by (auto simp: i2c_up0_def es7243e_addr0_def)
qed

end
