(* ===== verification/Float32.thy ===== *)
theory Float32
  imports Complex_Main Prelude
begin

text \<open>
  Single precision arithmetic as the resampler uses it.  A finite float is the rational number it
  stands for; every operation is the exact one followed by rounding to the nearest number with 24
  bits of precision, ties to even, with the smallest subnormal number 2 to the power -149.  The
  values of the resampler stay far below the largest finite float, so infinities do not occur, and
  products and sums are rounded separately (no fused operations).
\<close>

fun nbits :: "nat \<Rightarrow> nat" where
  "nbits n = (if n = 0 then 0 else Suc (nbits (n div 2)))"

declare nbits.simps [simp del]

text \<open>The exponent of the leading bit of a positive rational number.\<close>

definition flog2 :: "rat \<Rightarrow> int" where
  "flog2 x = (let (p, q) = quotient_of x; d = int (nbits (nat p)) - int (nbits (nat q))
              in if 2 powi d \<le> x then d else d - 1)"

definition round_even :: "rat \<Rightarrow> int" where
  "round_even y =
     (let f = \<lfloor>y\<rfloor>; r = y - of_int f
      in if r < 1 / 2 then f else if r > 1 / 2 then f + 1 else if even f then f else f + 1)"

definition ulp32 :: "rat \<Rightarrow> rat" where
  "ulp32 x = 2 powi (max (flog2 \<bar>x\<bar> - 23) (-149))"

definition rnd32 :: "rat \<Rightarrow> rat" where
  "rnd32 x = (if x = 0 then 0 else sgn x * of_int (round_even (\<bar>x\<bar> / ulp32 x)) * ulp32 x)"

definition fadd :: "rat \<Rightarrow> rat \<Rightarrow> rat" where "fadd a b = rnd32 (a + b)"
definition fsub :: "rat \<Rightarrow> rat \<Rightarrow> rat" where "fsub a b = rnd32 (a - b)"
definition fmul :: "rat \<Rightarrow> rat \<Rightarrow> rat" where "fmul a b = rnd32 (a * b)"
definition fdiv :: "rat \<Rightarrow> rat \<Rightarrow> rat" where "fdiv a b = rnd32 (a / b)"
definition float_of_int :: "int \<Rightarrow> rat" where "float_of_int i = rnd32 (of_int i)"

text \<open>The conversion to \<open>int\<close> truncates towards zero.\<close>

definition int_of_float :: "rat \<Rightarrow> int" where
  "int_of_float x = (if x < 0 then - \<lfloor>- x\<rfloor> else \<lfloor>x\<rfloor>)"

lemma nbits_bounds: "0 < n \<Longrightarrow> 2 ^ (nbits n - 1) \<le> n \<and> n < 2 ^ nbits n \<and> 0 < nbits n"
proof (induction n rule: nbits.induct)
  case (1 n)
  show ?case
  proof (cases "n div 2 = 0")
    case True
    with "1.prems" have "n = 1" by auto
    then show ?thesis by (simp add: nbits.simps)
  next
    case False
    with 1 have IH: "2 ^ (nbits (n div 2) - 1) \<le> n div 2" "n div 2 < 2 ^ nbits (n div 2)"
      "0 < nbits (n div 2)" by auto
    obtain k where k: "nbits (n div 2) = Suc k" using IH(3) by (cases "nbits (n div 2)") auto
    have "nbits n = Suc (Suc k)" using "1.prems" k by (subst nbits.simps) simp
    with IH k show ?thesis by auto
  qed
qed

text \<open>The exponent is exact.\<close>

lemma flog2_bounds:
  assumes "0 < x"
  shows "2 powi flog2 x \<le> x" and "x < 2 powi (flog2 x + 1)"
proof -
  obtain p q where pq: "quotient_of x = (p, q)" by (cases "quotient_of x")
  have q: "0 < q" and x: "x = of_int p / of_int q"
    using quotient_of_denom_pos [OF pq] quotient_of_div [OF pq] by simp_all
  with assms have p: "0 < p" by (simp add: zero_less_divide_iff)
  define P where "P = nat p"
  define Q where "Q = nat q"
  have P: "0 < P" "p = int P" and Q: "0 < Q" "q = int Q" using p q by (simp_all add: P_def Q_def)
  have x': "x = of_nat P / of_nat Q" using x P Q by simp
  let ?a = "nbits P" and ?b = "nbits Q"
  note bP = nbits_bounds [OF P(1)] and bQ = nbits_bounds [OF Q(1)]
  have r: "(2 :: rat) ^ (?a - 1) \<le> of_nat P" "(of_nat P :: rat) < 2 ^ ?a"
    "(2 :: rat) ^ (?b - 1) \<le> of_nat Q" "(of_nat Q :: rat) < 2 ^ ?b"
    using bP bQ by (metis of_nat_le_iff of_nat_less_iff of_nat_numeral of_nat_power)+
  let ?d = "int ?a - int ?b"
  have Qpos: "(0 :: rat) < of_nat Q" using Q by simp
  have up: "x < 2 powi (?d + 1)"
  proof -
    have "of_nat P * 2 ^ (?b - 1) < (2 :: rat) ^ ?a * of_nat Q"
      using r(2,3) Qpos by (intro mult_less_le_imp_less) auto
    then have "x < 2 ^ ?a / 2 ^ (?b - 1)" using Qpos by (simp add: x' divide_simps)
    also have "\<dots> = 2 powi (int ?a - int (?b - 1))" by (simp add: power_int_diff)
    also have "int ?a - int (?b - 1) = ?d + 1" using bQ by (simp add: of_nat_diff)
    finally show ?thesis .
  qed
  have lo: "2 powi (?d - 1) \<le> x"
  proof -
    have "?d - 1 = int (?a - 1) - int ?b" using bP by (simp add: of_nat_diff)
    then have "2 powi (?d - 1) = (2 :: rat) powi (int (?a - 1) - int ?b)" by (simp only:)
    also have "\<dots> = 2 ^ (?a - 1) / 2 ^ ?b" by (simp add: power_int_diff)
    also have "\<dots> \<le> x"
    proof -
      have "2 ^ (?a - 1) * of_nat Q \<le> (of_nat P :: rat) * 2 ^ ?b"
        using r(1,4) by (intro mult_mono) auto
      then show ?thesis using Qpos by (simp add: x' divide_simps)
    qed
    finally show ?thesis .
  qed
  have f: "flog2 x = (if 2 powi ?d \<le> x then ?d else ?d - 1)"
    by (simp add: flog2_def pq P_def Q_def Let_def)
  show "2 powi flog2 x \<le> x" using lo by (simp add: f)
  show "x < 2 powi (flog2 x + 1)" using up by (simp add: f)
qed

lemma round_even_near: "\<bar>of_int (round_even y) - y\<bar> \<le> (1 / 2 :: rat)"
proof -
  define f where "f = (of_int \<lfloor>y\<rfloor> :: rat)"
  have f: "f \<le> y" "y < f + 1" unfolding f_def by linarith+
  have "of_int (round_even y) = (if y - f < 1 / 2 then f else if y - f > 1 / 2 then f + 1
      else if even \<lfloor>y\<rfloor> then f else f + 1)"
    by (simp add: round_even_def Let_def f_def)
  moreover have "y - f = 1 / 2" if "\<not> y - f < 1 / 2" "\<not> y - f > 1 / 2" using that by linarith
  ultimately show ?thesis using f by (auto simp: abs_if)
qed

lemma ulp32_pos [simp]: "0 < ulp32 x"
  by (simp add: ulp32_def)

text \<open>Rounding moves a number by at most half a unit in the last place.\<close>

lemma rnd32_error: "\<bar>rnd32 x - x\<bar> \<le> ulp32 x / 2"
proof (cases "x = 0")
  case True
  then show ?thesis by (simp add: rnd32_def ulp32_def)
next
  case False
  have u: "0 < ulp32 x" "ulp32 x \<noteq> 0" "\<bar>ulp32 x\<bar> = ulp32 x"
    using ulp32_pos [of x] by (simp_all del: ulp32_pos)
  have "rnd32 x - x = sgn x * ((of_int (round_even (\<bar>x\<bar> / ulp32 x)) - \<bar>x\<bar> / ulp32 x) * ulp32 x)"
    using False u by (simp add: rnd32_def algebra_simps sgn_if abs_if)
  then have "\<bar>rnd32 x - x\<bar> = \<bar>of_int (round_even (\<bar>x\<bar> / ulp32 x)) - \<bar>x\<bar> / ulp32 x\<bar> * ulp32 x"
    using False u by (simp add: abs_mult abs_sgn_eq)
  also have "\<dots> \<le> 1 / 2 * ulp32 x" using u by (intro mult_right_mono round_even_near) simp
  finally show ?thesis by simp
qed

text \<open>For numbers that are not subnormal the error is at most one part in 2 to the 24.\<close>

lemma ulp32_normal:
  assumes "2 powi (-126) \<le> \<bar>x\<bar>"
  shows "ulp32 x \<le> \<bar>x\<bar> / 2 ^ 23"
proof -
  have pos: "0 < \<bar>x\<bar>" using assms by (metis less_le_trans zero_less_power_int zero_less_numeral)
  note b = flog2_bounds [OF pos]
  have "-126 \<le> flog2 \<bar>x\<bar>"
  proof (rule ccontr)
    assume "\<not> ?thesis"
    then have "flog2 \<bar>x\<bar> + 1 \<le> -126" by simp
    then have "(2 :: rat) powi (flog2 \<bar>x\<bar> + 1) \<le> 2 powi (-126)" by (intro power_int_increasing) auto
    with b(2) assms show False by simp
  qed
  then have "max (flog2 \<bar>x\<bar> - 23) (-149) = flog2 \<bar>x\<bar> - 23" by simp
  then have "ulp32 x = 2 powi (flog2 \<bar>x\<bar> - 23)" by (simp only: ulp32_def)
  also have "\<dots> = 2 powi flog2 \<bar>x\<bar> / 2 ^ 23" by (simp add: power_int_diff)
  also have "\<dots> \<le> \<bar>x\<bar> / 2 ^ 23" using b(1) by (intro divide_right_mono) auto
  finally show ?thesis .
qed

lemma rnd32_rel:
  assumes "2 powi (-126) \<le> \<bar>x\<bar>"
  shows "\<bar>rnd32 x - x\<bar> \<le> \<bar>x\<bar> / 2 ^ 24"
  using rnd32_error [of x] ulp32_normal [OF assms] by simp

lemma rnd32_zero [simp]: "rnd32 0 = 0"
  by (simp add: rnd32_def)

end
