(* ===== verification/Resample.thy ===== *)
theory Resample
  imports Float32 Platform
begin

text \<open>
  The sample rate converter (components/codec/utility/audio\_resample.c).  Samples are 16-bit words
  read as signed integers.  A buffer is the list of its samples; an access outside of it makes the
  whole call \<open>None\<close>, so a theorem that a call is \<open>Some\<close> says that it stays inside its buffers.
  Every round of a conversion loop stores a sample, so the loops terminate: they reach their end
  condition or the end of the output buffer.
\<close>

type_synonym s16 = "16 word"

definition INPCM_DELAY_SIZE :: nat where "INPCM_DELAY_SIZE = 6"

text \<open>The control structure; \<open>hp_mem\<close> holds the four filter states.\<close>

record resample =
  rs_inpcm :: "s16 list"
  rs_innum :: int
  rs_outnum :: int
  hp_mem :: "rat \<times> rat \<times> rat \<times> rat"

definition resample0 :: resample where
  "resample0 = \<lparr>rs_inpcm = replicate (INPCM_DELAY_SIZE * 2) 0, rs_innum = 0, rs_outnum = 0,
     hp_mem = (0, 0, 0, 0)\<rparr>"

section \<open>Buffers\<close>

definition rd :: "s16 list \<Rightarrow> int \<Rightarrow> s16 option" where
  "rd xs i = (if 0 \<le> i \<and> i < int (length xs) then Some (xs ! nat i) else None)"

definition wr :: "s16 list \<Rightarrow> int \<Rightarrow> s16 \<Rightarrow> s16 list option" where
  "wr xs i v = (if 0 \<le> i \<and> i < int (length xs) then Some (xs[nat i := v]) else None)"

text \<open>Copying \<open>n\<close> samples from an offset of one buffer to the start of another.\<close>

definition copy_range :: "s16 list \<Rightarrow> s16 list \<Rightarrow> int \<Rightarrow> nat \<Rightarrow> s16 list option" where
  "copy_range dst src from n =
     (if 0 \<le> from \<and> from + int n \<le> int (length src) \<and> n \<le> length dst
      then Some (take n (drop (nat from) src) @ drop n dst) else None)"

definition clamp16 :: "int \<Rightarrow> s16" where
  "clamp16 value =
     (let value = (if value > 32767 then 32767 else value);
          value = (if value < -32768 then -32768 else value)
      in of_int value)"

section \<open>Interpolation\<close>

text \<open>
  The position of the \<open>k\<close>-th output sample in the input: whole part and the two weights.
\<close>

definition position :: "rat \<Rightarrow> int \<Rightarrow> int \<times> rat \<times> rat" where
  "position ratio k =
     (let nk = fmul ratio (float_of_int k);
          n = int_of_float nk;
          w0 = fsub nk (float_of_int n);
          w1 = fsub 1 w0
      in (n, w0, w1))"

definition interpolate :: "rat \<Rightarrow> rat \<Rightarrow> s16 \<Rightarrow> s16 \<Rightarrow> s16" where
  "interpolate w0 w1 p0 p1 =
     clamp16 (int_of_float (fadd (fmul w0 (float_of_int (sint p1))) (fmul w1 (float_of_int (sint p0)))))"

text \<open>
  The input sample \<open>n\<close> of channel \<open>ch\<close> of \<open>st\<close> interleaved channels; a negative \<open>n\<close> reaches back
  into the delay line, of which the last \<open>d\<close> entries are in use.
\<close>

definition sample_in :: "s16 list \<Rightarrow> nat \<Rightarrow> nat \<Rightarrow> nat \<Rightarrow> s16 list \<Rightarrow> nat \<Rightarrow> nat \<Rightarrow> int \<Rightarrow> s16 option" where
  "sample_in delay d st ch inpcm st' ch' n =
     (if n < 0 then rd delay (int d + int st * n + int ch) else rd inpcm (int st' * n + int ch'))"

text \<open>One channel of one output sample.\<close>

definition one_channel ::
  "(int \<Rightarrow> s16 option) \<Rightarrow> int \<Rightarrow> rat \<Rightarrow> rat \<Rightarrow> s16 list \<Rightarrow> int \<Rightarrow> s16 list option" where
  "one_channel smp n w0 w1 outpcm i =
     (case smp n of None \<Rightarrow> None
      | Some p0 \<Rightarrow> (case smp (n + 1) of None \<Rightarrow> None
          | Some p1 \<Rightarrow> wr outpcm i (interpolate w0 w1 p0 p1)))"

text \<open>
  The result of a loop: the number of output samples, the output buffer, the new delay line.  The
  last test of a round always succeeds, since the store before it stayed inside the buffer.
\<close>

function mono_loop ::
  "s16 list \<Rightarrow> rat \<Rightarrow> int \<Rightarrow> resample \<Rightarrow> nat \<Rightarrow> s16 list \<Rightarrow> (nat \<times> s16 list \<times> s16 list) option" where
  "mono_loop inpcm ratio innum rs outnum outpcm =
     (let (n, w0, w1) = position ratio (rs_outnum rs + int outnum);
          n = n - rs_innum rs
      in if n + 1 \<ge> innum
         then (case copy_range (rs_inpcm rs) inpcm (innum - int INPCM_DELAY_SIZE) INPCM_DELAY_SIZE of
                 None \<Rightarrow> None | Some delay \<Rightarrow> Some (outnum, outpcm, delay))
         else
           (case one_channel (sample_in (rs_inpcm rs) INPCM_DELAY_SIZE 1 0 inpcm 1 0) n w0 w1
                   outpcm (int outnum) of
              None \<Rightarrow> None
            | Some outpcm' \<Rightarrow>
                if outnum < length outpcm then mono_loop inpcm ratio innum rs (outnum + 1) outpcm' else None))"
  by pat_completeness auto
termination
  by (relation "measure (\<lambda>(i, r, n, rs, k, out). length out - k)")
    (auto simp: one_channel_def wr_def split: option.splits if_splits)

function dual_loop ::
  "s16 list \<Rightarrow> rat \<Rightarrow> int \<Rightarrow> resample \<Rightarrow> nat \<Rightarrow> s16 list \<Rightarrow> (nat \<times> s16 list \<times> s16 list) option" where
  "dual_loop inpcm ratio innum rs outnum outpcm =
     (let (n, w0, w1) = position ratio (rs_outnum rs + int outnum);
          n = n - rs_innum rs
      in if n + 1 \<ge> innum
         then (case copy_range (rs_inpcm rs) inpcm (innum * 2 - int INPCM_DELAY_SIZE * 2)
                      (INPCM_DELAY_SIZE * 2) of
                 None \<Rightarrow> None | Some delay \<Rightarrow> Some (outnum, outpcm, delay))
         else
           (case one_channel (sample_in (rs_inpcm rs) (INPCM_DELAY_SIZE * 2) 2 0 inpcm 2 0) n w0 w1
                   outpcm (int outnum * 2) of
              None \<Rightarrow> None
            | Some out1 \<Rightarrow>
                (case one_channel (sample_in (rs_inpcm rs) (INPCM_DELAY_SIZE * 2) 2 1 inpcm 2 1) n w0 w1
                        out1 (int outnum * 2 + 1) of
                   None \<Rightarrow> None
                 | Some out2 \<Rightarrow>
                     if outnum < length outpcm then dual_loop inpcm ratio innum rs (outnum + 1) out2
                     else None)))"
  by pat_completeness auto
termination
  by (relation "measure (\<lambda>(i, r, n, rs, k, out). length out - k)")
    (auto simp: one_channel_def wr_def split: option.splits if_splits)

text \<open>The delay line of the down mix is filled sample by sample from the one channel.\<close>

fun fill_delay :: "s16 list \<Rightarrow> s16 list \<Rightarrow> int \<Rightarrow> nat \<Rightarrow> nat \<Rightarrow> s16 list option" where
  "fill_delay delay inpcm base i 0 = Some delay"
| "fill_delay delay inpcm base i (Suc k) =
     (case rd inpcm (base + 2 * int i) of None \<Rightarrow> None
      | Some v \<Rightarrow> (case wr delay (int i) v of None \<Rightarrow> None
          | Some delay \<Rightarrow> fill_delay delay inpcm base (i + 1) k))"

function down_loop ::
  "s16 list \<Rightarrow> nat \<Rightarrow> rat \<Rightarrow> int \<Rightarrow> resample \<Rightarrow> nat \<Rightarrow> s16 list \<Rightarrow> (nat \<times> s16 list \<times> s16 list) option" where
  "down_loop inpcm channelidx ratio innum rs outnum outpcm =
     (let (n, w0, w1) = position ratio (rs_outnum rs + int outnum);
          n = n - rs_innum rs
      in if n + 1 \<ge> innum
         then (case fill_delay (rs_inpcm rs) inpcm ((innum - int INPCM_DELAY_SIZE) * 2 + int channelidx)
                      0 INPCM_DELAY_SIZE of
                 None \<Rightarrow> None | Some delay \<Rightarrow> Some (outnum, outpcm, delay))
         else
           (case one_channel (sample_in (rs_inpcm rs) INPCM_DELAY_SIZE 1 0 inpcm 2 channelidx) n w0 w1
                   outpcm (int outnum) of
              None \<Rightarrow> None
            | Some outpcm' \<Rightarrow>
                if outnum < length outpcm
                then down_loop inpcm channelidx ratio innum rs (outnum + 1) outpcm' else None))"
  by pat_completeness auto
termination
  by (relation "measure (\<lambda>(i, c, r, n, rs, k, out). length out - k)")
    (auto simp: one_channel_def wr_def split: option.splits if_splits)

declare mono_loop.simps [simp del] dual_loop.simps [simp del] down_loop.simps [simp del]

definition rate_ratio :: "int \<Rightarrow> int \<Rightarrow> rat" where
  "rate_ratio srcrate tarrate = fdiv (float_of_int srcrate) (float_of_int tarrate)"

definition resampling_mono ::
  "s16 list \<Rightarrow> s16 list \<Rightarrow> int \<Rightarrow> int \<Rightarrow> int \<Rightarrow> resample \<Rightarrow> (nat \<times> s16 list \<times> resample) option" where
  "resampling_mono inpcm outpcm srcrate tarrate innum rs =
     map_option (\<lambda>(k, out, delay). (k, out, rs\<lparr>rs_inpcm := delay\<rparr>))
       (mono_loop inpcm (rate_ratio srcrate tarrate) innum rs 0 outpcm)"

definition resampling_dual ::
  "s16 list \<Rightarrow> s16 list \<Rightarrow> int \<Rightarrow> int \<Rightarrow> int \<Rightarrow> resample \<Rightarrow> (nat \<times> s16 list \<times> resample) option" where
  "resampling_dual inpcm outpcm srcrate tarrate innum rs =
     map_option (\<lambda>(k, out, delay). (k, out, rs\<lparr>rs_inpcm := delay\<rparr>))
       (dual_loop inpcm (rate_ratio srcrate tarrate) innum rs 0 outpcm)"

definition resampling_dual_down_ch ::
  "s16 list \<Rightarrow> nat \<Rightarrow> s16 list \<Rightarrow> int \<Rightarrow> int \<Rightarrow> int \<Rightarrow> resample \<Rightarrow> (nat \<times> s16 list \<times> resample) option" where
  "resampling_dual_down_ch inpcm channelidx outpcm srcrate tarrate innum rs =
     map_option (\<lambda>(k, out, delay). (k, out, rs\<lparr>rs_inpcm := delay\<rparr>))
       (down_loop inpcm channelidx (rate_ratio srcrate tarrate) innum rs 0 outpcm)"

section \<open>The high-pass filter\<close>

definition VERY_SMALL :: rat where "VERY_SMALL = rnd32 (1 / 10 ^ 30)"

text \<open>One sample through the two stages; the buffer is filtered in place.\<close>

definition dc_step :: "rat \<Rightarrow> s16 \<Rightarrow> rat \<times> rat \<Rightarrow> s16 \<times> rat \<times> rat" where
  "dc_step coef x = (\<lambda>(h0, h1).
     let x = float_of_int (sint x);
         tmp = fsub x h0;
         h0 = fadd (fadd h0 (fmul coef (fsub x h0))) VERY_SMALL;
         y = fsub tmp h1;
         h1 = fadd (fadd h1 (fmul coef (fsub tmp h1))) VERY_SMALL
     in (clamp16 (int_of_float y), h0, h1))"

text \<open>Every \<open>step\<close>-th sample from \<open>i\<close> on, below \<open>len\<close>.\<close>

function dc_loop :: "rat \<Rightarrow> nat \<Rightarrow> nat \<Rightarrow> nat \<Rightarrow> s16 list \<Rightarrow> rat \<times> rat \<Rightarrow> (s16 list \<times> rat \<times> rat) option" where
  "dc_loop coef step len i pcm h =
     (if i < len \<and> 0 < step
      then (case rd pcm (int i) of None \<Rightarrow> None
            | Some x \<Rightarrow> let (v, h) = dc_step coef x h in dc_loop coef step len (i + step) (pcm[i := v]) h)
      else Some (pcm, h))"
  by pat_completeness auto
termination by (relation "measure (\<lambda>(c, st, len, i, p, h). len - i)") auto

declare dc_loop.simps [simp del]

definition dc_coef :: "int \<Rightarrow> int \<Rightarrow> rat" where
  "dc_coef cutoff_Hz Fs = fdiv (fmul 4 (float_of_int cutoff_Hz)) (float_of_int Fs)"

definition dc_reject_mono ::
  "s16 list \<Rightarrow> int \<Rightarrow> rat \<times> rat \<times> rat \<times> rat \<Rightarrow> nat \<Rightarrow> int \<Rightarrow>
     (s16 list \<times> rat \<times> rat \<times> rat \<times> rat) option" where
  "dc_reject_mono pcm cutoff_Hz = (\<lambda>(h0, h1, h2, h3) len Fs.
     map_option (\<lambda>(pcm, h0, h1). (pcm, h0, h1, h2, h3))
       (dc_loop (dc_coef cutoff_Hz Fs) 1 len 0 pcm (h0, h1)))"

definition dc_reject_dual ::
  "s16 list \<Rightarrow> int \<Rightarrow> rat \<times> rat \<times> rat \<times> rat \<Rightarrow> nat \<Rightarrow> int \<Rightarrow>
     (s16 list \<times> rat \<times> rat \<times> rat \<times> rat) option" where
  "dc_reject_dual pcm cutoff_Hz = (\<lambda>(h0, h1, h2, h3) len Fs.
     case dc_loop (dc_coef cutoff_Hz Fs) 2 len 0 pcm (h0, h1) of
       None \<Rightarrow> None
     | Some (pcm, h0, h1) \<Rightarrow>
         map_option (\<lambda>(pcm, h2, h3). (pcm, h0, h1, h2, h3))
           (dc_loop (dc_coef cutoff_Hz Fs) 2 len 1 pcm (h2, h3)))"

section \<open>Processing a block\<close>

text \<open>The counters of a stream: both are taken back by one second's worth of samples together.\<close>

definition count_block :: "int \<Rightarrow> int \<Rightarrow> int \<Rightarrow> int \<Rightarrow> resample \<Rightarrow> resample" where
  "count_block srcrate tarrate innum outnum rs =
     (let i = rs_innum rs + innum; k = rs_outnum rs + outnum
      in if i \<ge> srcrate \<and> k \<ge> tarrate
         then rs\<lparr>rs_innum := i - srcrate, rs_outnum := k - tarrate\<rparr>
         else rs\<lparr>rs_innum := i, rs_outnum := k\<rparr>)"

definition resampling_process_mono ::
  "s16 list \<Rightarrow> s16 list \<Rightarrow> int \<Rightarrow> int \<Rightarrow> int \<Rightarrow> resample \<Rightarrow> (nat \<times> s16 list \<times> resample) option" where
  "resampling_process_mono inpcm outpcm srcrate tarrate innum rs =
     (case resampling_mono inpcm outpcm srcrate tarrate innum rs of
        None \<Rightarrow> None
      | Some (outnum, outpcm, rs) \<Rightarrow>
          let rs = count_block srcrate tarrate innum (int outnum) rs
          in map_option (\<lambda>(outpcm, h). (outnum, outpcm, rs\<lparr>hp_mem := h\<rparr>))
               (dc_reject_mono outpcm 3 (hp_mem rs) outnum tarrate))"

definition resampling_process_dual ::
  "s16 list \<Rightarrow> s16 list \<Rightarrow> int \<Rightarrow> int \<Rightarrow> int \<Rightarrow> resample \<Rightarrow> (nat \<times> s16 list \<times> resample) option" where
  "resampling_process_dual inpcm outpcm srcrate tarrate innum rs =
     (let innum = cdiv innum 2
      in case resampling_dual inpcm outpcm srcrate tarrate innum rs of
           None \<Rightarrow> None
         | Some (outnum, outpcm, rs) \<Rightarrow>
             let rs = count_block srcrate tarrate innum (int outnum) rs; outnum = outnum * 2
             in map_option (\<lambda>(outpcm, h). (outnum, outpcm, rs\<lparr>hp_mem := h\<rparr>))
                  (dc_reject_dual outpcm 3 (hp_mem rs) outnum tarrate))"

definition resampling_process_dual_down_ch ::
  "s16 list \<Rightarrow> nat \<Rightarrow> s16 list \<Rightarrow> int \<Rightarrow> int \<Rightarrow> int \<Rightarrow> resample \<Rightarrow> (nat \<times> s16 list \<times> resample) option" where
  "resampling_process_dual_down_ch inpcm channelidx outpcm srcrate tarrate innum rs =
     (let innum = cdiv innum 2
      in case resampling_dual_down_ch inpcm channelidx outpcm srcrate tarrate innum rs of
           None \<Rightarrow> None
         | Some (outnum, outpcm, rs) \<Rightarrow>
             let rs = count_block srcrate tarrate innum (int outnum) rs
             in map_option (\<lambda>(outpcm, h). (outnum, outpcm, rs\<lparr>hp_mem := h\<rparr>))
                  (dc_reject_mono outpcm 3 (hp_mem rs) outnum tarrate))"

text \<open>The message of the error branch is part of the result.\<close>

definition resampling_process ::
  "s16 list \<Rightarrow> s16 list \<Rightarrow> int \<Rightarrow> int \<Rightarrow> nat \<Rightarrow> nat \<Rightarrow> resample \<Rightarrow>
     (string list \<times> nat \<times> s16 list \<times> resample) option" where
  "resampling_process inpcm outpcm srcrate tarrate innum channel rs =
     (if innum mod channel \<noteq> 0
      then Some ([''input pcm number error. For two channel case, left & right channel should has same number''
                  @ newline], 0, outpcm, rs)
      else if srcrate = tarrate
      then map_option (\<lambda>out. ([], innum, out, rs)) (copy_range outpcm inpcm 0 innum)
      else map_option (\<lambda>r. ([], r))
        (if channel = 1 then resampling_process_mono inpcm outpcm srcrate tarrate (int innum) rs
         else resampling_process_dual inpcm outpcm srcrate tarrate (int innum) rs))"

text \<open>Doubling the channels in place, from the last sample down.\<close>

fun dup_loop :: "nat \<Rightarrow> s16 list \<Rightarrow> s16 list option" where
  "dup_loop 0 outpcm = Some outpcm"
| "dup_loop (Suc i) outpcm =
     (if i * 2 + 1 < length outpcm
      then let outpcm = outpcm[i * 2 + 1 := outpcm ! i]; outpcm = outpcm[i * 2 := outpcm ! i]
           in dup_loop i outpcm
      else None)"

definition resampling_process_up_channel ::
  "s16 list \<Rightarrow> s16 list \<Rightarrow> int \<Rightarrow> int \<Rightarrow> nat \<Rightarrow> resample \<Rightarrow> (nat \<times> s16 list \<times> resample) option" where
  "resampling_process_up_channel inpcm outpcm srcrate tarrate innum rs =
     (case (if srcrate = tarrate
            then map_option (\<lambda>out. (innum, out, rs)) (copy_range outpcm inpcm 0 innum)
            else resampling_process_mono inpcm outpcm srcrate tarrate (int innum) rs) of
        None \<Rightarrow> None
      | Some (outnum, outpcm, rs) \<Rightarrow>
          map_option (\<lambda>out. (outnum * 2, out, rs)) (dup_loop outnum outpcm))"

text \<open>Picking one channel of two.\<close>

function pick_loop :: "s16 list \<Rightarrow> nat \<Rightarrow> nat \<Rightarrow> nat \<Rightarrow> s16 list \<Rightarrow> (nat \<times> s16 list) option" where
  "pick_loop inpcm innum i outnum outpcm =
     (if i < innum
      then (case rd inpcm (int i) of None \<Rightarrow> None
            | Some v \<Rightarrow> (case wr outpcm (int outnum) v of None \<Rightarrow> None
                | Some outpcm \<Rightarrow> pick_loop inpcm innum (i + 2) (outnum + 1) outpcm))
      else Some (outnum, outpcm))"
  by pat_completeness auto
termination by (relation "measure (\<lambda>(p, n, i, k, out). n - i)") auto

declare pick_loop.simps [simp del]

definition resampling_process_down_channel ::
  "s16 list \<Rightarrow> s16 list \<Rightarrow> int \<Rightarrow> int \<Rightarrow> nat \<Rightarrow> nat \<Rightarrow> resample \<Rightarrow> (nat \<times> s16 list \<times> resample) option" where
  "resampling_process_down_channel inpcm outpcm srcrate tarrate innum channelidx rs =
     (if innum AND 1 \<noteq> 0 then Some (0, outpcm, rs)
      else if srcrate = tarrate
      then map_option (\<lambda>(k, out). (k, out, rs)) (pick_loop inpcm innum channelidx 0 outpcm)
      else resampling_process_dual_down_ch inpcm channelidx outpcm srcrate tarrate (int innum) rs)"

section \<open>Lengths\<close>

lemma wr_length: "wr xs i v = Some ys \<Longrightarrow> length ys = length xs \<and> 0 \<le> i \<and> i < int (length xs)"
  by (auto simp: wr_def split: if_splits)

lemma one_channel_length:
  "one_channel smp n w0 w1 out i = Some out' \<Longrightarrow> length out' = length out \<and> 0 \<le> i \<and> i < int (length out)"
  by (auto simp: one_channel_def dest: wr_length split: option.splits)

lemma copy_range_length: "copy_range dst src from n = Some out \<Longrightarrow> length out = length dst \<and> n \<le> length dst"
  by (auto simp: copy_range_def split: if_splits)

lemma mono_loop_length:
  "mono_loop inpcm ratio innum rs k out = Some (k', out', d) \<Longrightarrow> k \<le> length out \<Longrightarrow>
     k' \<le> length out' \<and> length out' = length out"
proof (induction inpcm ratio innum rs k out rule: mono_loop.induct)
  case (1 inpcm ratio innum rs k out)
  show ?case
    using "1.prems" "1.IH" one_channel_length
    by (subst (asm) mono_loop.simps)
      (fastforce simp: Let_def split: prod.splits if_splits option.splits)
qed

lemma dual_loop_length:
  "dual_loop inpcm ratio innum rs k out = Some (k', out', d) \<Longrightarrow> k * 2 \<le> length out \<Longrightarrow>
     k' * 2 \<le> length out' \<and> length out' = length out"
proof (induction inpcm ratio innum rs k out rule: dual_loop.induct)
  case (1 inpcm ratio innum rs k out)
  obtain n0 w0 w1 where pos: "position ratio (rs_outnum rs + int k) = (n0, w0, w1)"
    by (cases "position ratio (rs_outnum rs + int k)")
  let ?n = "n0 - rs_innum rs"
  let ?smp = "\<lambda>c. sample_in (rs_inpcm rs) (INPCM_DELAY_SIZE * 2) 2 c inpcm 2 c"
  show ?case
  proof (cases "?n + 1 \<ge> innum")
    case True
    then show ?thesis
      using "1.prems" unfolding dual_loop.simps [of inpcm ratio innum rs k out]
      by (auto simp: pos split: option.splits)
  next
    case False
    then obtain o1 o2 where o: "one_channel (?smp 0) ?n w0 w1 out (int k * 2) = Some o1"
      "one_channel (?smp 1) ?n w0 w1 o1 (int k * 2 + 1) = Some o2" "k < length out"
      "dual_loop inpcm ratio innum rs (k + 1) o2 = Some (k', out', d)"
      using "1.prems"(1) unfolding dual_loop.simps [of inpcm ratio innum rs k out]
      by (auto simp: pos Let_def split: option.splits if_splits)
    have l: "length o1 = length out" "length o2 = length out" "int k * 2 + 1 < int (length out)"
      using one_channel_length [OF o(1)] one_channel_length [OF o(2)] by simp_all
    from l(3) have "k * 2 + 1 < length out" by linarith
    with l have "(k + 1) * 2 \<le> length o2" by simp
    from "1.IH" [OF pos [symmetric] refl refl refl False o(1,2,3,4) this] l show ?thesis by simp
  qed
qed

lemma dc_loop_length: "dc_loop coef st len i pcm h = Some (pcm', h') \<Longrightarrow> length pcm' = length pcm"
proof (induction coef st len i pcm h rule: dc_loop.induct)
  case (1 coef st len i pcm h)
  show ?case
    using "1.prems" "1.IH"
    by (subst (asm) dc_loop.simps) (fastforce simp: Let_def split: prod.splits if_splits option.splits)
qed

text \<open>
  What the player relies on: a conversion stays inside the output buffer it is given and does not
  change its size.  Then spreading the samples over a buffer of twice the size stays inside, too.
\<close>

locale converter =
  fixes conv :: "s16 list \<Rightarrow> s16 list \<Rightarrow> 'r \<Rightarrow> (nat \<times> s16 list \<times> 'r) option"
  assumes conv_length: "conv inp out rs = Some (k, out', rs') \<Longrightarrow> k \<le> length out' \<and> length out' = length out"
begin

lemma spread_inside:
  assumes "conv inp out rs = Some (k, out', rs')" and "length out32 = 2 * length out" and "i < k"
  shows "i < length out'" and "2 * i + 1 < length out32"
  using conv_length [OF assms(1)] assms(2,3) by simp_all

end

lemma dup_loop_nth:
  "2 * n \<le> length p \<Longrightarrow> \<exists>q. dup_loop n p = Some q \<and> length q = length p \<and>
     (\<forall>k < length p. q ! k = (if k < 2 * n then p ! (k div 2) else p ! k))"
proof (induction n arbitrary: p)
  case (Suc n)
  let ?p1 = "p[n * 2 + 1 := p ! n]"
  let ?p2 = "?p1[n * 2 := ?p1 ! n]"
  have n1: "?p1 ! n = p ! n" by simp
  obtain q where q: "dup_loop n ?p2 = Some q" "length q = length p"
    "\<forall>k < length p. q ! k = (if k < 2 * n then ?p2 ! (k div 2) else ?p2 ! k)"
    using Suc.IH [of ?p2] Suc.prems by auto
  have "dup_loop (Suc n) p = Some q" using q(1) Suc.prems by (simp add: Let_def)
  moreover have "q ! k = (if k < 2 * Suc n then p ! (k div 2) else p ! k)" if k: "k < length p" for k
  proof (cases "k < 2 * n")
    case True
    then have "k div 2 < n" by simp
    then have "?p2 ! (k div 2) = p ! (k div 2)" by simp
    with True q(3) k show ?thesis by simp
  next
    case False
    then have "k = n * 2 \<or> k = n * 2 + 1 \<or> 2 * Suc n \<le> k" by auto
    then show ?thesis
      by (elim disjE) (use q(3) k Suc.prems n1 in \<open>simp_all add: nth_list_update\<close>)
  qed
  ultimately show ?case using q(2) by blast
qed simp

lemma dup_loop_length: "dup_loop n p = Some q \<Longrightarrow> length q = length p \<and> 2 * n \<le> length p"
proof (induction n arbitrary: p)
  case (Suc n)
  then have "n * 2 + 1 < length p" by (simp split: if_splits)
  moreover with Suc have "length q = length p" by (fastforce simp: Let_def split: if_splits)
  ultimately show ?case by simp
qed simp

lemma dual_conv_length:
  "resampling_process_dual inp out s t n rs = Some (k, out', rs') \<Longrightarrow>
     k \<le> length out' \<and> length out' = length out"
  unfolding resampling_process_dual_def resampling_dual_def Let_def
  by (fastforce simp: dc_reject_dual_def dest!: dc_loop_length dual_loop_length
      split: option.splits prod.splits)

lemma mono_conv_length:
  "resampling_process_mono inp out s t n rs = Some (k, out', rs') \<Longrightarrow>
     k \<le> length out' \<and> length out' = length out"
  unfolding resampling_process_mono_def resampling_mono_def Let_def
  by (fastforce simp: dc_reject_mono_def dest!: dc_loop_length mono_loop_length
      split: option.splits prod.splits)

interpretation up: converter "\<lambda>inp out rs. resampling_process_up_channel inp out s t n rs" for s t n
proof
  fix inp out rs k out' rs'
  assume a: "resampling_process_up_channel inp out s t n rs = Some (k, out', rs')"
  then obtain n1 out1 rs1 where 1: "(if s = t then map_option (\<lambda>o'. (n, o', rs)) (copy_range out inp 0 n)
        else resampling_process_mono inp out s t (int n) rs) = Some (n1, out1, rs1)"
    and d: "k = n1 * 2" "dup_loop n1 out1 = Some out'"
    by (auto simp: resampling_process_up_channel_def split: option.splits)
  from 1 have "length out1 = length out"
    by (auto dest: copy_range_length mono_conv_length split: if_splits)
  with d dup_loop_length [OF d(2)] show "k \<le> length out' \<and> length out' = length out" by simp
qed

interpretation stereo: converter
  "\<lambda>inp out rs. map_option snd (resampling_process inp out s t n ch rs)" for s t n ch
proof
  fix inp out rs k out' rs'
  assume "map_option snd (resampling_process inp out s t n ch rs) = Some (k, out', rs')"
  then show "k \<le> length out' \<and> length out' = length out"
    by (auto simp: resampling_process_def dest: copy_range_length mono_conv_length dual_conv_length
        split: if_splits)
qed

section \<open>Properties\<close>

lemma length_double: "length (concat (map (\<lambda>x. [x, x]) xs)) = 2 * length xs"
  by (induction xs) simp_all

lemma nth_double: "k < 2 * length xs \<Longrightarrow> concat (map (\<lambda>x. [x, x]) xs) ! k = xs ! (k div 2)"
proof (induction xs arbitrary: k)
  case (Cons x xs)
  show ?case
  proof (cases k)
    case (Suc j)
    then show ?thesis using Cons by (cases j) simp_all
  qed simp
qed simp

lemma up_channel_eq:
  assumes "length inpcm = n" and "2 * n \<le> length outpcm"
  shows "resampling_process_up_channel inpcm outpcm r r n rs =
    Some (2 * n, concat (map (\<lambda>x. [x, x]) inpcm) @ drop (2 * n) outpcm, rs)"
proof -
  have c: "copy_range outpcm inpcm 0 n = Some (inpcm @ drop n outpcm)"
    using assms by (simp add: copy_range_def)
  let ?p = "inpcm @ drop n outpcm"
  have len: "length ?p = length outpcm" using assms by simp
  obtain q where q: "dup_loop n ?p = Some q" "length q = length outpcm"
    "\<forall>k < length outpcm. q ! k = (if k < 2 * n then ?p ! (k div 2) else ?p ! k)"
    using dup_loop_nth [of n ?p] assms unfolding len by auto
  have "q = concat (map (\<lambda>x. [x, x]) inpcm) @ drop (2 * n) outpcm"
  proof (rule nth_equalityI)
    show "length q = length (concat (map (\<lambda>x. [x, x]) inpcm) @ drop (2 * n) outpcm)"
      using assms q(2) by (simp add: length_double)
    fix k assume k: "k < length q"
    show "q ! k = (concat (map (\<lambda>x. [x, x]) inpcm) @ drop (2 * n) outpcm) ! k"
      using q k assms by (cases "k < 2 * n") (auto simp: nth_append length_double nth_double)
  qed
  with c q(1) show ?thesis by (simp add: resampling_process_up_channel_def mult.commute)
qed

text \<open>
  At equal rates the conversion from one channel to two is exact: every sample of the input
  appears twice, in order, for every input that fits twice into the output buffer; the rest of
  the buffer and the state of the converter are left alone.
\<close>

lemma up_channel_same_rate:
  assumes "length inpcm = n" and "2 * n \<le> length outpcm"
  shows "resampling_process_up_channel inpcm outpcm r r n rs =
    Some (2 * n, concat (map (\<lambda>x. [x, x]) inpcm) @ drop (2 * n) outpcm, rs)"
  by (rule up_channel_eq [OF assms])

lemma up_channel_same_rate_witness:
  "resampling_process_up_channel [1, 2, 3] (replicate 8 0) 48000 48000 3 resample0 =
     Some (6, [1, 1, 2, 2, 3, 3, 0, 0], resample0)"
  using up_channel_same_rate [of "[1, 2, 3]" 3 "replicate 8 0" 48000 resample0]
  by (simp add: numeral_eq_Suc)

text \<open>
  Whatever the rates and the state of the converter, a conversion that stays inside its input
  and its delay line also stays inside its output: the number of samples it reports is at most the
  size of the output buffer, and the size of the buffer is unchanged (mono to stereo, stereo, and
  mono filtering alike).
\<close>

lemma converters_stay_inside:
  "(resampling_process_up_channel inp out s t n rs = Some (k, out', rs') \<longrightarrow>
      k \<le> length out' \<and> length out' = length out) \<and>
   (resampling_process inp out s t n ch rs = Some (msgs, k, out', rs') \<longrightarrow>
      k \<le> length out' \<and> length out' = length out)"
  using up.conv_length [of inp out s t n rs k out' rs'] stereo.conv_length [of inp out s t n ch rs k out' rs']
  by auto

lemma converters_stay_inside_witness:
  "(1 :: nat) \<le> length [0, 0 :: s16]"
  using converters_stay_inside [of "[5]" "[0, 0]" 1 1 1 resample0 2 "[5, 5]" resample0 1 "[]"]
  by (simp add: resampling_process_up_channel_def copy_range_def)

lemma pick_loop_all:
  assumes "c < 2" and "length inpcm = 2 * n" and "n \<le> length out"
  shows "k \<le> n \<Longrightarrow> pick_loop inpcm (2 * n) (2 * k + c) k (map (\<lambda>j. inpcm ! (2 * j + c)) [0..<k] @ drop k out) =
    Some (n, map (\<lambda>j. inpcm ! (2 * j + c)) [0..<n] @ drop n out)"
proof (induction "n - k" arbitrary: k)
  case 0
  then have "k = n" by simp
  then show ?case by (subst pick_loop.simps) simp
next
  case (Suc m)
  then have k: "k < n" by simp
  then have i: "2 * k + c < 2 * n" using assms(1) by linarith
  let ?f = "\<lambda>j. inpcm ! (2 * j + c)"
  have r: "rd inpcm (int (2 * k + c)) = Some (?f k)" using i assms(2) by (simp add: rd_def del: of_nat_add of_nat_mult)
  have "drop k out = out ! k # drop (Suc k) out" using k assms(3) by (simp add: Cons_nth_drop_Suc)
  then have w: "wr (map ?f [0..<k] @ drop k out) (int k) (?f k) = Some (map ?f [0..<Suc k] @ drop (Suc k) out)"
    using k assms(3) by (simp add: wr_def list_update_append)
  have "m = n - Suc k" using Suc.hyps(2) by simp
  from Suc.hyps(1) [OF this] k have
    "pick_loop inpcm (2 * n) (2 * Suc k + c) (Suc k) (map ?f [0..<Suc k] @ drop (Suc k) out) =
      Some (n, map ?f [0..<n] @ drop n out)" by simp
  moreover have "2 * Suc k + c = 2 * k + c + 2" by simp
  ultimately show ?case
    using i by (subst pick_loop.simps) (simp only: r w option.case if_True Suc_eq_plus1)
qed

text \<open>
  At equal rates the conversion from two channels to one picks the samples of the chosen
  channel, in order: the k-th output sample is input sample 2 * k + channel, for half as many
  samples as the input has.
\<close>

lemma down_channel_same_rate:
  assumes "c < 2" and "length inpcm = 2 * n" and "n \<le> length out"
  shows "resampling_process_down_channel inpcm out r r (2 * n) c rs =
    Some (n, map (\<lambda>k. inpcm ! (2 * k + c)) [0..<n] @ drop n out, rs)"
  using pick_loop_all [OF assms, of 0] by (simp add: resampling_process_down_channel_def and_one_eq)

lemma down_channel_same_rate_witness:
  "resampling_process_down_channel [1, 2, 3, 4] [0, 0] 48000 48000 4 1 resample0 = Some (2, [2, 4], resample0)"
  using down_channel_same_rate [of 1 "[1, 2, 3, 4]" 2 "[0, 0]" 48000 resample0]
  by (simp add: numeral_eq_Suc)

end
