(* ===== verification/Resample_Stream.thy ===== *)
theory Resample_Stream
  imports Resample
begin

text \<open>
  The sample rate converter over whole streams: the rounding error of its positions, an invariant of
  its two counters between blocks, and from them that no conversion loop leaves its buffers and that
  the output does not drift against the input.  The three loops share one proof in the locale
  \<open>conversion_loop\<close>, which \<open>mono_loop\<close>, \<open>dual_loop\<close> and \<open>down_loop\<close> interpret.
\<close>

section \<open>The position of an output sample\<close>

lemma round_even_int [simp]: "round_even (of_int z) = z"
  by (simp add: round_even_def Let_def)

text \<open>Integers below 2 to the 24 are floats.\<close>

lemma rnd32_int:
  assumes "\<bar>z\<bar> < 2 ^ 24"
  shows "rnd32 (of_int z) = of_int z"
proof (cases "z = 0")
  case False
  let ?x = "\<bar>of_int z\<bar> :: rat"
  have pos: "0 < ?x" using False by simp
  have "?x = of_int \<bar>z\<bar>" by simp
  also have "\<dots> < of_int (2 ^ 24)" using assms by (simp only: of_int_less_iff)
  finally have lt: "?x < 2 powi 24" by simp
  with flog2_bounds(1) [OF pos] have "(2 :: rat) powi flog2 ?x < 2 powi 24" by linarith
  then have "flog2 ?x < 24"
    using power_int_increasing [of 24 "flog2 ?x" "2 :: rat"] by (simp only: linorder_not_le [symmetric]) auto
  then have "max (flog2 ?x - 23) (-149) \<le> 0" by simp
  then obtain m where m: "max (flog2 ?x - 23) (-149) = - int m"
    by (metis minus_minus nonneg_int_cases neg_0_le_iff_le)
  have u: "ulp32 (of_int z) = 1 / 2 ^ m" by (simp add: ulp32_def m power_int_minus_divide)
  have "?x / ulp32 (of_int z) = of_int (\<bar>z\<bar> * 2 ^ m)" by (simp add: u)
  then have "round_even (?x / ulp32 (of_int z)) = \<bar>z\<bar> * 2 ^ m" by (simp only: round_even_int)
  then show ?thesis using False by (simp add: rnd32_def u sgn_if)
qed simp

definition rate_ok :: "int \<Rightarrow> bool" where
  "rate_ok r \<longleftrightarrow> 1 \<le> r \<and> r \<le> 65536"

lemma near_trans:
  assumes "\<bar>a - b\<bar> \<le> b / c" and "b \<le> 2 * x" and "\<bar>b - x\<bar> \<le> x / c" and "0 < c"
  shows "\<bar>a - x\<bar> \<le> 3 * x / (c :: rat)"
proof -
  have "\<bar>a - x\<bar> \<le> \<bar>a - b\<bar> + \<bar>b - x\<bar>" using abs_triangle_ineq [of "a - b" "b - x"] by simp
  also have "\<dots> \<le> 2 * x / c + x / c"
    using assms divide_right_mono [of b "2 * x" c] by (intro add_mono) auto
  finally show ?thesis using assms(4) by (simp add: field_simps)
qed

text \<open>
  The computed position differs from the exact one by at most a sixteenth, so long as the position
  stays below 2 to the 18 samples (both counters are reset every second, so it does).
\<close>

lemma position_computed:
  assumes "rate_ok s" "rate_ok t" and "0 \<le> k" "k < 2 ^ 24" and "k * s \<le> 2 ^ 18 * t"
  shows "\<bar>fmul (rate_ratio s t) (float_of_int k) - of_int (k * s) / of_int t\<bar> \<le> 1 / 16 \<and>
    0 \<le> fmul (rate_ratio s t) (float_of_int k)"
proof -
  have st: "1 \<le> s" "s \<le> 65536" "1 \<le> t" "t \<le> 65536" using assms(1,2) by (simp_all add: rate_ok_def)
  define \<rho> where "\<rho> = (of_int s / of_int t :: rat)"
  define R where "R = rate_ratio s t"
  define nk where "nk = rnd32 (R * of_int k)"
  have tpos: "(0 :: rat) < of_int t" using st by simp
  have R: "R = rnd32 \<rho>"
    using st by (simp add: R_def rate_ratio_def fdiv_def float_of_int_def rnd32_int \<rho>_def)
  have "(1 :: rat) / 65536 \<le> 1 / of_int t" using st by (simp add: frac_le)
  also have "1 / of_int t \<le> \<rho>" unfolding \<rho>_def using st by (intro divide_right_mono) simp_all
  finally have low: "1 / 65536 \<le> \<rho>" .
  have tiny: "(2 :: rat) powi (-126) \<le> 1 / 2 ^ 17"
    using power_int_increasing [of "-126" "-17" "2 :: rat"] by (simp add: power_int_minus_divide)
  from low have "\<bar>\<rho>\<bar> = \<rho>" by simp
  with rnd32_rel [of \<rho>] low tiny have r1: "\<bar>R - \<rho>\<bar> \<le> \<rho> / 2 ^ 24" by (simp add: R)
  have kr: "\<bar>nk - \<rho> * of_int k\<bar> \<le> 3 * (\<rho> * of_int k) / 2 ^ 24"
  proof (cases "k = 0")
    case True
    then show ?thesis by (simp add: nk_def)
  next
    case False
    with assms(3) have k1: "(1 :: rat) \<le> of_int k" by simp
    have Rb: "\<rho> / 2 \<le> R" using abs_le_D1 [OF r1] abs_le_D2 [OF r1] low by simp
    have Rb2: "R \<le> 2 * \<rho>" using abs_le_D1 [OF r1] abs_le_D2 [OF r1] low by simp
    have "1 / 2 ^ 17 \<le> \<rho> / 2 * 1" using low by simp
    also have "\<rho> / 2 * 1 \<le> R * of_int k" using Rb k1 low by (intro mult_mono) auto
    finally have big: "1 / 2 ^ 17 \<le> R * of_int k" .
    then have "\<bar>R * of_int k\<bar> = R * of_int k" by simp
    with rnd32_rel [of "R * of_int k"] big tiny
    have "\<bar>nk - R * of_int k\<bar> \<le> R * of_int k / 2 ^ 24" by (simp add: nk_def)
    moreover have "R * of_int k \<le> 2 * (\<rho> * of_int k)"
      using mult_right_mono [OF Rb2, of "of_int k"] k1 by (simp add: mult.assoc)
    moreover have "\<bar>R - \<rho>\<bar> * of_int k \<le> \<rho> / 2 ^ 24 * of_int k" using r1 k1 by (intro mult_right_mono) simp_all
    then have "\<bar>R * of_int k - \<rho> * of_int k\<bar> \<le> \<rho> * of_int k / 2 ^ 24"
      using k1 by (simp add: abs_mult flip: left_diff_distrib)
    ultimately show ?thesis by (rule near_trans) simp
  qed
  have x: "\<rho> * of_int k = of_int (k * s) / of_int t" by (simp add: \<rho>_def)
  have x0: "0 \<le> \<rho> * of_int k" using assms(3) low by simp
  have x1: "\<rho> * of_int k \<le> 2 ^ 18"
  proof -
    have "of_int (k * s) \<le> (of_int (2 ^ 18 * t) :: rat)" using assms(5) by (simp only: of_int_le_iff)
    then show ?thesis unfolding x using tpos by (simp add: pos_divide_le_eq)
  qed
  have near: "\<bar>nk - \<rho> * of_int k\<bar> \<le> 1 / 16" by (rule order_trans [OF kr]) (use x1 in simp)
  have "0 \<le> nk" using abs_le_D2 [OF kr] x0 by simp
  moreover have "float_of_int k = of_int k" using assms(3,4) by (simp add: float_of_int_def rnd32_int)
  ultimately show ?thesis using near by (simp add: fmul_def nk_def R_def x)
qed

lemma position_near:
  assumes "rate_ok s" "rate_ok t" and "0 \<le> k" "k < 2 ^ 24" and "k * s \<le> 2 ^ 18 * t"
  obtains n w0 w1 where "position (rate_ratio s t) k = (n, w0, w1)" and "0 \<le> n"
    and "16 * (t * n) \<le> 16 * (k * s) + t" and "16 * (k * s) < 16 * (t * (n + 1)) + t"
proof -
  define nk where "nk = fmul (rate_ratio s t) (float_of_int k)"
  have near: "\<bar>nk - of_int (k * s) / of_int t\<bar> \<le> 1 / 16" and nk0: "0 \<le> nk"
    using position_computed [OF assms] by (simp_all add: nk_def)
  have tpos: "(0 :: rat) < of_int t" using assms(2) by (simp add: rate_ok_def)
  define n where "n = \<lfloor>nk\<rfloor>"
  have n: "of_int n \<le> nk" "nk < of_int n + 1" "0 \<le> n" using nk0 floor_correct [of nk] by (simp_all add: n_def)
  obtain w0 w1 where p: "position (rate_ratio s t) k = (n, w0, w1)"
    using nk0 by (simp add: position_def Let_def int_of_float_def n_def nk_def [symmetric])
  define q where "q = (of_int (k * s) / of_int t :: rat)"
  have q: "of_int (k * s) = of_int t * q" using tpos by (simp add: q_def)
  then have e: "(of_int (16 * (k * s)) :: rat) = 16 * (of_int t * q)" by (metis of_int_mult of_int_numeral)
  have a: "of_int n \<le> q + 1 / 16" and b: "q < of_int n + 17 / 16"
    using n abs_le_D1 [OF near] abs_le_D2 [OF near] unfolding q_def [symmetric] by simp_all
  have "(of_int (16 * (t * n)) :: rat) \<le> of_int (16 * (k * s) + t)"
    using mult_left_mono [OF a, of "of_int t"] tpos unfolding of_int_add e by (simp add: distrib_left)
  then have "16 * (t * n) \<le> 16 * (k * s) + t" by (simp only: of_int_le_iff)
  moreover have "(of_int (16 * (k * s)) :: rat) < of_int (16 * (t * (n + 1)) + t)"
    using mult_strict_left_mono [OF b tpos] unfolding of_int_add e by (simp add: distrib_left)
  then have "16 * (k * s) < 16 * (t * (n + 1)) + t" by (simp only: of_int_less_iff)
  ultimately show thesis using that p n(3) by blast
qed

section \<open>The counters of a stream\<close>

text \<open>
  What holds between two blocks: the exact position of the next output sample lies at most
  \<open>17 / 16\<close> input samples before the next block and at most one output step behind its start.
\<close>

definition in_step :: "int \<Rightarrow> int \<Rightarrow> resample \<Rightarrow> bool" where
  "in_step s t rs \<longleftrightarrow>
     0 \<le> rs_innum rs \<and> rs_innum rs \<le> s + 1 \<and> 0 \<le> rs_outnum rs \<and>
     16 * (t * rs_innum rs) \<le> 16 * (rs_outnum rs * s) + 17 * t \<and>
     rs_outnum rs * s \<le> t * rs_innum rs + s \<and>
     length (rs_inpcm rs) = 2 * INPCM_DELAY_SIZE"

text \<open>
  The three conversion loops have one shape: each round looks at the position, and either takes over
  the delay line and ends, or stores one sample per channel.  \<open>good innum rs\<close> says that the block and
  the delay line have their sizes.
\<close>

locale conversion_loop =
  fixes loop :: "rat \<Rightarrow> int \<Rightarrow> resample \<Rightarrow> nat \<Rightarrow> s16 list \<Rightarrow> (nat \<times> s16 list \<times> s16 list) option"
    and width :: nat
    and good :: "int \<Rightarrow> resample \<Rightarrow> bool"
  assumes width_pos: "0 < width"
    and stop: "good innum rs \<Longrightarrow> position r (rs_outnum rs + int k) = (n, w0, w1) \<Longrightarrow>
      innum \<le> n - rs_innum rs + 1 \<Longrightarrow>
      \<exists>d. loop r innum rs k out = Some (k, out, d) \<and> length d = length (rs_inpcm rs)"
    and go: "good innum rs \<Longrightarrow> position r (rs_outnum rs + int k) = (n, w0, w1) \<Longrightarrow>
      n - rs_innum rs + 1 < innum \<Longrightarrow> - 2 \<le> n - rs_innum rs \<Longrightarrow> width * (k + 1) \<le> length out \<Longrightarrow>
      \<exists>out'. length out' = length out \<and> loop r innum rs k out = loop r innum rs (k + 1) out'"
begin

lemma loop_runs:
  assumes r: "rate_ok s" "rate_ok t" and inv: "in_step s t rs" and g: "good innum rs"
    and i: "0 \<le> innum" "innum \<le> s"
    and room: "(8 * innum + 1) * t \<le> 8 * s * int (length out div width)"
    and k: "k = 0 \<or> 16 * ((rs_outnum rs + int k - 1) * s) + 15 * t < 16 * (t * (rs_innum rs + innum))"
    and kw: "width * k \<le> length out"
  shows "\<exists>j out' d. loop (rate_ratio s t) innum rs k out = Some (j, out', d) \<and> length out' = length out \<and>
    length d = length (rs_inpcm rs) \<and> width * j \<le> length out \<and>
    (j = 0 \<or> 16 * ((rs_outnum rs + int j - 1) * s) + 15 * t < 16 * (t * (rs_innum rs + innum))) \<and>
    16 * (t * (rs_innum rs + innum)) \<le> 16 * ((rs_outnum rs + int j) * s) + 17 * t"
  using room k kw
proof (induction "length out div width - k" arbitrary: k out rule: less_induct)
  case less
  let ?I = "rs_innum rs" and ?K = "rs_outnum rs"
  have st: "1 \<le> s" "s \<le> 65536" "1 \<le> t" "t \<le> 65536" using r by (simp_all add: rate_ok_def)
  have v: "0 \<le> ?I" "?I \<le> s + 1" "0 \<le> ?K" "16 * (t * ?I) \<le> 16 * (?K * s) + 17 * t" "?K * s \<le> t * ?I + s"
    using inv by (simp_all add: in_step_def)
  define X where "X = (?K + int k) * s"
  have tI: "t * ?I \<le> t * (s + 1)" "t * innum \<le> t * s" using v i st by (simp_all add: mult_left_mono)
  have s1: "s \<le> 65536 * t" using st by linarith
  have s2: "t * s \<le> t * 65536" using st by (intro mult_left_mono) auto
  have X0: "?K * s \<le> X" using st by (simp add: X_def algebra_simps)
  have Xb: "X \<le> t * (2 * s + 1) + s"
    using less.prems(2)
  proof
    assume "k = 0"
    then have "X = ?K * s" by (simp add: X_def)
    moreover have "t * (2 * s + 1) = t * (s + 1) + t * s" by (simp add: algebra_simps)
    moreover have "0 \<le> t * s" using st by simp
    ultimately show ?thesis using v(5) tI by linarith
  next
    assume a: "16 * ((?K + int k - 1) * s) + 15 * t < 16 * (t * (?I + innum))"
    have "X = (?K + int k - 1) * s + s" by (simp add: X_def algebra_simps)
    moreover have "t * (?I + innum) \<le> t * (2 * s + 1)" using v i st by (intro mult_left_mono) auto
    ultimately show ?thesis using a st by linarith
  qed
  have "t * (2 * s + 1) = 2 * (t * s) + t" by (simp add: algebra_simps)
  with Xb s1 s2 st have "X \<le> 262144 * t" by linarith
  then have big: "X \<le> 2 ^ 18 * t" by simp
  have "t * 1 \<le> t * s" using st by (intro mult_left_mono) auto
  with Xb have "(?K + int k) * s \<le> (3 * t + 1) * s" by (simp add: X_def algebra_simps)
  then have "?K + int k \<le> 3 * t + 1" using st by simp
  then have k24: "?K + int k < 2 ^ 24" using st by simp
  obtain n w0 w1 where pos: "position (rate_ratio s t) (?K + int k) = (n, w0, w1)"
    and n: "0 \<le> n" "16 * (t * n) \<le> 16 * X + t" "16 * X < 16 * (t * (n + 1)) + t"
    using position_near [OF r _ k24 big [unfolded X_def]] v unfolding X_def by auto
  show ?case
  proof (cases "innum \<le> n - ?I + 1")
    case True
    from stop [OF g pos True, of out] obtain d where
      d: "loop (rate_ratio s t) innum rs k out = Some (k, out, d)" "length d = length (rs_inpcm rs)" by blast
    have "t * (?I + innum) \<le> t * (n + 1)" using True st by (intro mult_left_mono) auto
    then have "16 * (t * (?I + innum)) \<le> 16 * X + 17 * t" using n(2) by (simp add: algebra_simps)
    with d less.prems show ?thesis by (auto simp: X_def)
  next
    case False
    have "t * (n + 2) \<le> t * (?I + innum)" using False st by (intro mult_left_mono) auto
    then have b: "16 * X + 15 * t < 16 * (t * (?I + innum))" using n(3) by (simp add: algebra_simps)
    have lo: "- 2 \<le> n - ?I"
    proof (rule ccontr)
      assume "\<not> ?thesis"
      then have "t * (n + 3) \<le> t * ?I" using st by (intro mult_left_mono) auto
      with n(3) X0 v show False using st by (simp add: algebra_simps)
    qed
    have w: "width * (k + 1) \<le> length out"
    proof (rule ccontr)
      assume "\<not> ?thesis"
      then have "length out < (k + 1) * width" by (simp add: mult.commute)
      then have "length out div width < k + 1" by (simp add: less_mult_imp_div_less)
      then have "int (length out div width) \<le> int k" by simp
      then have "s * int (length out div width) \<le> s * int k" using st by (intro mult_left_mono) auto
      with less.prems(1) b v show False using st by (simp add: X_def algebra_simps)
    qed
    obtain out' where o: "length out' = length out"
      "loop (rate_ratio s t) innum rs k out = loop (rate_ratio s t) innum rs (k + 1) out'"
      using go [OF g pos _ lo w] False by auto
    have "(k + 1) * width \<le> length out" using w by (simp add: mult.commute)
    then have "k + 1 \<le> length out div width" using width_pos by (simp add: less_eq_div_iff_mult_less_eq)
    then have m: "length out' div width - (k + 1) < length out div width - k" by (simp add: o(1))
    have b': "k + 1 = 0 \<or> 16 * ((?K + int (k + 1) - 1) * s) + 15 * t < 16 * (t * (?I + innum))"
      using b by (simp add: X_def)
    from less.hyps [OF m _ b'] less.prems(1) w o show ?thesis by simp
  qed
qed

end

lemma one_channel_runs:
  assumes "smp n = Some a" and "smp (n + 1) = Some b" and "0 \<le> i" "i < int (length out)"
  shows "\<exists>out'. one_channel smp n w0 w1 out i = Some out' \<and> length out' = length out"
  using assms by (simp add: one_channel_def wr_def)

lemma sample_in_runs:
  assumes "0 < st'" "ch' < st'" "ch < st" and "n < 0 \<Longrightarrow> - 2 * int st \<le> int st * n \<and> 2 * st \<le> d \<and> d \<le> length delay"
    and "0 \<le> n \<Longrightarrow> int st' * n + int st' \<le> int (length inpcm)"
  shows "\<exists>v. sample_in delay d st ch inpcm st' ch' n = Some v"
proof (cases "n < 0")
  case True
  then have "int st * n \<le> int st * (-1)" by (intro mult_left_mono) auto
  with True assms show ?thesis by (simp add: sample_in_def rd_def)
next
  case False
  with assms show ?thesis by (simp add: sample_in_def rd_def)
qed

interpretation mono: conversion_loop "mono_loop inp" 1
  "\<lambda>innum rs. int INPCM_DELAY_SIZE \<le> innum \<and> innum \<le> int (length inp) \<and> length (rs_inpcm rs) = 2 * INPCM_DELAY_SIZE"
  for inp
proof (unfold_locales, goal_cases)
  case (2 innum rs r k n w0 w1 out)
  then show ?case
    by (subst mono_loop.simps) (auto simp: copy_range_def INPCM_DELAY_SIZE_def)
next
  case (3 innum rs r k n w0 w1 out)
  let ?n = "n - rs_innum rs" and ?smp = "sample_in (rs_inpcm rs) INPCM_DELAY_SIZE 1 0 inp 1 0"
  obtain a b where "?smp ?n = Some a" "?smp (?n + 1) = Some b"
    using 3 sample_in_runs [of 1 0 0 1 ?n INPCM_DELAY_SIZE "rs_inpcm rs" inp]
      sample_in_runs [of 1 0 0 1 "?n + 1" INPCM_DELAY_SIZE "rs_inpcm rs" inp]
    by (auto simp: INPCM_DELAY_SIZE_def)
  from one_channel_runs [OF this, of "int k" out w0 w1] 3(5) obtain out' where
    o: "one_channel ?smp ?n w0 w1 out (int k) = Some out'" "length out' = length out" by auto
  have "mono_loop inp r innum rs k out = mono_loop inp r innum rs (k + 1) out'"
    using 3 o by (subst mono_loop.simps) simp
  with o(2) show ?case by blast
qed simp

interpretation dual: conversion_loop "dual_loop inp" 2
  "\<lambda>innum rs. int INPCM_DELAY_SIZE \<le> innum \<and> 2 * innum \<le> int (length inp) \<and> length (rs_inpcm rs) = 2 * INPCM_DELAY_SIZE"
  for inp
proof (unfold_locales, goal_cases)
  case (2 innum rs r k n w0 w1 out)
  then show ?case
    by (subst dual_loop.simps) (auto simp: copy_range_def INPCM_DELAY_SIZE_def)
next
  case (3 innum rs r k n w0 w1 out)
  let ?n = "n - rs_innum rs"
  let ?smp = "\<lambda>c. sample_in (rs_inpcm rs) (INPCM_DELAY_SIZE * 2) 2 c inp 2 c"
  have smp: "\<exists>a. ?smp c x = Some a" if "c < 2" "x \<in> {?n, ?n + 1}" for c x
    using 3 that by (intro sample_in_runs) (auto simp: INPCM_DELAY_SIZE_def)
  obtain a b a' b' where a: "?smp 0 ?n = Some a" "?smp 0 (?n + 1) = Some b"
    and b: "?smp 1 ?n = Some a'" "?smp 1 (?n + 1) = Some b'"
    using smp [of 0 ?n] smp [of 0 "?n + 1"] smp [of 1 ?n] smp [of 1 "?n + 1"] by auto
  obtain o1 where o1: "one_channel (?smp 0) ?n w0 w1 out (int k * 2) = Some o1" "length o1 = length out"
    using one_channel_runs [OF a, of "int k * 2" out w0 w1] 3(5) by auto
  obtain o2 where o2: "one_channel (?smp 1) ?n w0 w1 o1 (int k * 2 + 1) = Some o2" "length o2 = length out"
    using one_channel_runs [OF b, of "int k * 2 + 1" o1 w0 w1] 3(5) o1(2) by auto
  have "dual_loop inp r innum rs k out = dual_loop inp r innum rs (k + 1) o2"
    using 3 o1 o2 by (subst dual_loop.simps) simp
  with o2(2) show ?case by blast
qed simp

lemma fill_delay_runs:
  "i + k \<le> length delay \<Longrightarrow> 0 \<le> base \<Longrightarrow> base + 2 * int (i + k) \<le> int (length inp) + 1 \<Longrightarrow>
     \<exists>d. fill_delay delay inp base i k = Some d \<and> length d = length delay"
proof (induction k arbitrary: i delay)
  case (Suc k)
  then have "rd inp (base + 2 * int i) \<noteq> None" "i < length delay" by (simp_all add: rd_def)
  then obtain v where "rd inp (base + 2 * int i) = Some v" "wr delay (int i) v = Some (delay[i := v])"
    by (auto simp: wr_def)
  with Suc.IH [of "i + 1" "delay[i := v]"] Suc.prems show ?case by simp
qed simp

interpretation down: conversion_loop "down_loop inp c" 1
  "\<lambda>innum rs. c < 2 \<and> int INPCM_DELAY_SIZE \<le> innum \<and> 2 * innum \<le> int (length inp) \<and>
     length (rs_inpcm rs) = 2 * INPCM_DELAY_SIZE"
  for inp c
proof (unfold_locales, goal_cases)
  case (2 innum rs r k n w0 w1 out)
  then show ?case
    using fill_delay_runs [of 0 INPCM_DELAY_SIZE "rs_inpcm rs" "(innum - int INPCM_DELAY_SIZE) * 2 + int c" inp]
    by (subst down_loop.simps) (auto simp: INPCM_DELAY_SIZE_def)
next
  case (3 innum rs r k n w0 w1 out)
  let ?n = "n - rs_innum rs" and ?smp = "sample_in (rs_inpcm rs) INPCM_DELAY_SIZE 1 0 inp 2 c"
  obtain a b where "?smp ?n = Some a" "?smp (?n + 1) = Some b"
    using 3 sample_in_runs [of 2 c 0 1 ?n INPCM_DELAY_SIZE "rs_inpcm rs" inp]
      sample_in_runs [of 2 c 0 1 "?n + 1" INPCM_DELAY_SIZE "rs_inpcm rs" inp]
    by (auto simp: INPCM_DELAY_SIZE_def)
  from one_channel_runs [OF this, of "int k" out w0 w1] 3(5) obtain out' where
    o: "one_channel ?smp ?n w0 w1 out (int k) = Some out'" "length out' = length out" by auto
  have "down_loop inp c r innum rs k out = down_loop inp c r innum rs (k + 1) out'"
    using 3 o by (subst down_loop.simps) simp
  with o(2) show ?case by blast
qed simp

section \<open>Blocks\<close>

lemma dc_loop_total:
  "len \<le> length pcm \<Longrightarrow> \<exists>pcm' h'. dc_loop coef st len i pcm h = Some (pcm', h') \<and> length pcm' = length pcm"
proof (induction coef st len i pcm h rule: dc_loop.induct)
  case (1 coef st len i pcm h)
  show ?case
  proof (cases "i < len \<and> 0 < st")
    case True
    then have r: "rd pcm (int i) = Some (pcm ! i)" using "1.prems" by (simp add: rd_def)
    obtain v h1 where d: "dc_step coef (pcm ! i) h = (v, h1)" by (cases "dc_step coef (pcm ! i) h")
    show ?thesis
      using "1.IH" [OF True r d [symmetric] refl] "1.prems" True
      by (subst dc_loop.simps) (simp add: r d)
  next
    case False
    then show ?thesis by (subst dc_loop.simps) auto
  qed
qed

text \<open>The room that a block needs: its length at the output rate, and one sample more.\<close>

lemma output_count:
  assumes r: "rate_ok s" "rate_ok t" and inv: "in_step s t rs"
    and j: "j = 0 \<or> 16 * ((rs_outnum rs + int j - 1) * s) + 15 * t < 16 * (t * (rs_innum rs + n))"
    and room: "(8 * n + 1) * t \<le> 8 * s * int l"
  shows "j \<le> l"
proof (rule ccontr)
  assume "\<not> ?thesis"
  then have a: "int l \<le> int j - 1" "j \<noteq> 0" by auto
  have "s * int l \<le> s * (int j - 1)" using a(1) r by (intro mult_left_mono) (auto simp: rate_ok_def)
  with a(2) j room inv r show False by (simp add: in_step_def rate_ok_def algebra_simps)
qed

text \<open>What a block does to the counters: the difference of the two streams is never lost.\<close>

definition ahead :: "int \<Rightarrow> int \<Rightarrow> resample \<Rightarrow> int" where
  "ahead s t rs = rs_outnum rs * s - t * rs_innum rs"

lemma count_block_step:
  assumes r: "rate_ok s" "rate_ok t" and inv: "in_step s t rs" and n: "0 \<le> innum" "innum \<le> s"
    and d: "length d = length (rs_inpcm rs)"
    and j: "j = 0 \<or> 16 * ((rs_outnum rs + int j - 1) * s) + 15 * t < 16 * (t * (rs_innum rs + innum))"
    and x: "16 * (t * (rs_innum rs + innum)) \<le> 16 * ((rs_outnum rs + int j) * s) + 17 * t"
  shows "in_step s t (count_block s t innum (int j) (rs\<lparr>rs_inpcm := d\<rparr>)) \<and>
    ahead s t (count_block s t innum (int j) (rs\<lparr>rs_inpcm := d\<rparr>)) = ahead s t rs + (int j * s - t * innum)"
proof -
  have st: "1 \<le> s" "1 \<le> t" using r by (simp_all add: rate_ok_def)
  define I where "I = rs_innum rs + innum"
  define K where "K = rs_outnum rs + int j"
  have v: "0 \<le> I" "I \<le> 2 * s + 1" "0 \<le> K" "16 * (t * I) \<le> 16 * (K * s) + 17 * t"
    using inv n x by (simp_all add: in_step_def I_def K_def)
  have up: "K * s \<le> t * I + s"
    using j
  proof
    assume "j = 0"
    moreover have "t * rs_innum rs \<le> t * I" using n st by (simp add: I_def)
    ultimately show ?thesis using inv by (simp add: K_def in_step_def)
  next
    assume "16 * ((rs_outnum rs + int j - 1) * s) + 15 * t < 16 * (t * (rs_innum rs + innum))"
    then show ?thesis using st by (simp add: I_def K_def algebra_simps)
  qed
  have step: "t \<le> K" "s \<le> I" if "s + 2 \<le> I"
  proof -
    have "t * (s + 2) \<le> t * I" using that st by (intro mult_left_mono) auto
    moreover have "16 * (t * (s + 2)) = 16 * (t * s) + 32 * t" by (simp add: algebra_simps)
    ultimately have "t * s < K * s" using v(4) st by linarith
    then have "t < K" using st by simp
    then show "t \<le> K" by simp
  qed (use that in simp)
  then have step': "I \<le> s + 1 \<or> t \<le> K \<and> s \<le> I" by (cases "s + 2 \<le> I") auto
  have e: "count_block s t innum (int j) (rs\<lparr>rs_inpcm := d\<rparr>) =
      (if I \<ge> s \<and> K \<ge> t then rs\<lparr>rs_inpcm := d, rs_innum := I - s, rs_outnum := K - t\<rparr>
       else rs\<lparr>rs_inpcm := d, rs_innum := I, rs_outnum := K\<rparr>)"
    by (simp add: count_block_def I_def K_def Let_def)
  have l: "length d = 2 * INPCM_DELAY_SIZE" using inv d by (simp add: in_step_def)
  have "in_step s t (count_block s t innum (int j) (rs\<lparr>rs_inpcm := d\<rparr>))"
    using v up step' l unfolding e by (auto simp: in_step_def algebra_simps)
  moreover have "K * s - t * I = ahead s t rs + (int j * s - t * innum)"
    by (simp add: ahead_def I_def K_def algebra_simps)
  ultimately show ?thesis unfolding e by (auto simp: ahead_def algebra_simps)
qed

lemma count_block_delay [simp]: "rs_inpcm (count_block s t i k rs) = rs_inpcm rs"
  and count_block_mem [simp]: "hp_mem (count_block s t i k rs) = hp_mem rs"
  by (simp_all add: count_block_def Let_def)

lemma hp_mem_step [simp]: "in_step s t (rs\<lparr>hp_mem := h\<rparr>) = in_step s t rs" "ahead s t (rs\<lparr>hp_mem := h\<rparr>) = ahead s t rs"
  by (simp_all add: in_step_def ahead_def)

lemma process_mono_runs:
  assumes r: "rate_ok s" "rate_ok t" and inv: "in_step s t rs"
    and n: "int INPCM_DELAY_SIZE \<le> n" "n \<le> s" "n \<le> int (length inp)"
    and room: "(8 * n + 1) * t \<le> 8 * s * int (length out)"
  shows "\<exists>k out' rs'. resampling_process_mono inp out s t n rs = Some (k, out', rs') \<and>
    length out' = length out \<and> (\<forall>l. (8 * n + 1) * t \<le> 8 * s * int l \<longrightarrow> k \<le> l) \<and> in_step s t rs' \<and>
    ahead s t rs' = ahead s t rs + (int k * s - t * n)"
proof -
  have g: "int INPCM_DELAY_SIZE \<le> n \<and> n \<le> int (length inp) \<and> length (rs_inpcm rs) = 2 * INPCM_DELAY_SIZE"
    and n0: "0 \<le> n" using inv n by (simp_all add: in_step_def)
  obtain j out1 d where l: "mono_loop inp (rate_ratio s t) n rs 0 out = Some (j, out1, d)"
    "length out1 = length out" "length d = length (rs_inpcm rs)" "j \<le> length out"
    "j = 0 \<or> 16 * ((rs_outnum rs + int j - 1) * s) + 15 * t < 16 * (t * (rs_innum rs + n))"
    "16 * (t * (rs_innum rs + n)) \<le> 16 * ((rs_outnum rs + int j) * s) + 17 * t"
    using mono.loop_runs [OF r inv g n0 n(2), of out 0] room by auto
  let ?rs = "count_block s t n (int j) (rs\<lparr>rs_inpcm := d\<rparr>)"
  obtain h0 h1 h2 h3 where h: "hp_mem rs = (h0, h1, h2, h3)" by (metis prod_cases4)
  obtain out2 g0 g1 where f: "dc_loop (dc_coef 3 t) 1 j 0 out1 (h0, h1) = Some (out2, g0, g1)"
    "length out2 = length out"
    using dc_loop_total [of j out1] l(2,4) by (metis prod.collapse)
  have "resampling_process_mono inp out s t n rs = Some (j, out2, ?rs\<lparr>hp_mem := (g0, g1, h2, h3)\<rparr>)"
    by (simp add: resampling_process_mono_def resampling_mono_def l(1) dc_reject_mono_def h f [simplified] Let_def)
  with count_block_step [OF r inv n0 n(2) l(3,5,6)] f(2) l(4) output_count [OF r inv l(5)]
  show ?thesis by auto
qed

lemma process_dual_runs:
  assumes r: "rate_ok s" "rate_ok t" and inv: "in_step s t rs"
    and n: "int INPCM_DELAY_SIZE \<le> n" "n \<le> s" "2 * n \<le> int (length inp)"
    and room: "(8 * n + 1) * t \<le> 8 * s * int (length out div 2)"
  shows "\<exists>k out' rs'. resampling_process_dual inp out s t (2 * n) rs = Some (2 * k, out', rs') \<and>
    length out' = length out \<and> 2 * k \<le> length out \<and> in_step s t rs' \<and>
    ahead s t rs' = ahead s t rs + (int k * s - t * n)"
proof -
  have g: "int INPCM_DELAY_SIZE \<le> n \<and> 2 * n \<le> int (length inp) \<and> length (rs_inpcm rs) = 2 * INPCM_DELAY_SIZE"
    and n0: "0 \<le> n" using inv n by (simp_all add: in_step_def)
  obtain j out1 d where l: "dual_loop inp (rate_ratio s t) n rs 0 out = Some (j, out1, d)"
    "length out1 = length out" "length d = length (rs_inpcm rs)" "2 * j \<le> length out"
    "j = 0 \<or> 16 * ((rs_outnum rs + int j - 1) * s) + 15 * t < 16 * (t * (rs_innum rs + n))"
    "16 * (t * (rs_innum rs + n)) \<le> 16 * ((rs_outnum rs + int j) * s) + 17 * t"
    using dual.loop_runs [OF r inv g n0 n(2), of out 0] room by auto
  let ?rs = "count_block s t n (int j) (rs\<lparr>rs_inpcm := d\<rparr>)"
  obtain h0 h1 h2 h3 where h: "hp_mem rs = (h0, h1, h2, h3)" by (metis prod_cases4)
  obtain out2 g0 g1 where f: "dc_loop (dc_coef 3 t) 2 (2 * j) 0 out1 (h0, h1) = Some (out2, g0, g1)"
    "length out2 = length out"
    using dc_loop_total [of "2 * j" out1] l(2,4) by (metis prod.collapse)
  obtain out3 g2 g3 where f2: "dc_loop (dc_coef 3 t) 2 (2 * j) 1 out2 (h2, h3) = Some (out3, g2, g3)"
    "length out3 = length out"
    using dc_loop_total [of "2 * j" out2] f(2) l(4) by (metis prod.collapse)
  have c: "cdiv (2 * n) 2 = n" using n0 by (simp add: cdiv_nonneg)
  have "resampling_process_dual inp out s t (2 * n) rs =
      Some (2 * j, out3, ?rs\<lparr>hp_mem := (g0, g1, g2, g3)\<rparr>)"
    by (simp add: resampling_process_dual_def resampling_dual_def c l(1) dc_reject_dual_def h f [simplified] f2 [simplified]
        Let_def mult.commute [of j 2])
  with count_block_step [OF r inv n0 n(2) l(3,5,6)] f2(2) l(4) show ?thesis by auto
qed

lemma process_down_runs:
  assumes r: "rate_ok s" "rate_ok t" and inv: "in_step s t rs" and c: "c < 2"
    and n: "int INPCM_DELAY_SIZE \<le> n" "n \<le> s" "2 * n \<le> int (length inp)"
    and room: "(8 * n + 1) * t \<le> 8 * s * int (length out)"
  shows "\<exists>k out' rs'. resampling_process_dual_down_ch inp c out s t (2 * n) rs = Some (k, out', rs') \<and>
    length out' = length out \<and> k \<le> length out \<and> in_step s t rs' \<and>
    ahead s t rs' = ahead s t rs + (int k * s - t * n)"
proof -
  have g: "c < 2 \<and> int INPCM_DELAY_SIZE \<le> n \<and> 2 * n \<le> int (length inp) \<and> length (rs_inpcm rs) = 2 * INPCM_DELAY_SIZE"
    and n0: "0 \<le> n" using inv n c by (simp_all add: in_step_def)
  obtain j out1 d where l: "down_loop inp c (rate_ratio s t) n rs 0 out = Some (j, out1, d)"
    "length out1 = length out" "length d = length (rs_inpcm rs)" "j \<le> length out"
    "j = 0 \<or> 16 * ((rs_outnum rs + int j - 1) * s) + 15 * t < 16 * (t * (rs_innum rs + n))"
    "16 * (t * (rs_innum rs + n)) \<le> 16 * ((rs_outnum rs + int j) * s) + 17 * t"
    using down.loop_runs [OF r inv g n0 n(2), of out 0] room by auto
  let ?rs = "count_block s t n (int j) (rs\<lparr>rs_inpcm := d\<rparr>)"
  obtain h0 h1 h2 h3 where h: "hp_mem rs = (h0, h1, h2, h3)" by (metis prod_cases4)
  obtain out2 g0 g1 where f: "dc_loop (dc_coef 3 t) 1 j 0 out1 (h0, h1) = Some (out2, g0, g1)"
    "length out2 = length out"
    using dc_loop_total [of j out1] l(2,4) by (metis prod.collapse)
  have c2: "cdiv (2 * n) 2 = n" using n0 by (simp add: cdiv_nonneg)
  have "resampling_process_dual_down_ch inp c out s t (2 * n) rs =
      Some (j, out2, ?rs\<lparr>hp_mem := (g0, g1, h2, h3)\<rparr>)"
    by (simp add: resampling_process_dual_down_ch_def resampling_dual_down_ch_def c2 l(1) dc_reject_mono_def
        h f [simplified] Let_def)
  with count_block_step [OF r inv n0 n(2) l(3,5,6)] f(2) l(4) show ?thesis by auto
qed

section \<open>Streams\<close>

text \<open>A stream: block after block through one converter, with one output buffer.\<close>

fun convert_stream ::
  "int \<Rightarrow> int \<Rightarrow> nat \<Rightarrow> s16 list list \<Rightarrow> s16 list \<Rightarrow> resample \<Rightarrow> (nat \<times> resample) option" where
  "convert_stream s t ch [] out rs = Some (0, rs)"
| "convert_stream s t ch (b # bs) out rs =
     (case resampling_process b out s t (length b) ch rs of
        None \<Rightarrow> None
      | Some (_, k, out, rs) \<Rightarrow> map_option (\<lambda>(n, rs). (k + n, rs)) (convert_stream s t ch bs out rs))"

text \<open>
  A block of \<open>n\<close> samples per channel that the converter takes: at least the length of the delay line,
  at most one second, and the output has room for \<open>n * t / s\<close> samples and one more.
\<close>

definition block_ok :: "int \<Rightarrow> int \<Rightarrow> nat \<Rightarrow> nat \<Rightarrow> nat \<Rightarrow> bool" where
  "block_ok s t ch len n \<longleftrightarrow>
     INPCM_DELAY_SIZE \<le> n \<and> int n \<le> s \<and> (8 * int n + 1) * t \<le> 8 * s * int (len div ch)"

lemma block_ok_fits:
  assumes "rate_ok s" and "block_ok s s ch len n"
  shows "n \<le> len div ch"
proof -
  have "s * (8 * int n + 1) \<le> s * (8 * int (len div ch))"
    using assms(2) by (simp add: block_ok_def algebra_simps)
  then have "8 * int n + 1 \<le> 8 * int (len div ch)" using assms(1) by (simp add: rate_ok_def)
  then show ?thesis by simp
qed

lemma resampling_process_runs:
  assumes r: "rate_ok s" "rate_ok t" and inv: "in_step s t rs" and ch: "ch = 1 \<or> ch = 2"
    and b: "length b = ch * n" "block_ok s t ch (length out) n"
  shows "\<exists>msgs k out' rs'. resampling_process b out s t (length b) ch rs = Some (msgs, ch * k, out', rs') \<and>
    length out' = length out \<and> in_step s t rs' \<and> ahead s t rs' = ahead s t rs + (int k * s - t * int n)"
proof (cases "s = t")
  case True
  have "ch * n \<le> length out" using block_ok_fits [of s ch "length out" n] r b(2) ch True by auto
  then have "copy_range out b 0 (length b) = Some (b @ drop (ch * n) out)"
    using b(1) by (simp add: copy_range_def)
  moreover have "length b mod ch = 0" using b(1) by simp
  ultimately show ?thesis
    using inv b(1) True \<open>ch * n \<le> length out\<close> by (auto simp: resampling_process_def intro!: exI [of _ n])
next
  case False
  have n: "int INPCM_DELAY_SIZE \<le> int n" "int n \<le> s" using b(2) by (simp_all add: block_ok_def)
  have room: "(8 * int n + 1) * t \<le> 8 * s * int (length out div ch)" using b(2) by (simp add: block_ok_def)
  show ?thesis
  proof (cases "ch = 1")
    case True
    then show ?thesis
      using process_mono_runs [OF r inv n, of b out] b room False by (fastforce simp: resampling_process_def)
  next
    case 2: False
    with ch have "ch = 2" by simp
    then show ?thesis
      using process_dual_runs [OF r inv n, of b out] b room False
      by (fastforce simp: resampling_process_def)
  qed
qed

lemma up_channel_runs:
  assumes r: "rate_ok s" "rate_ok t" and inv: "in_step s t rs"
    and b: "length b = n" "block_ok s t 2 (length out) n"
  shows "\<exists>k out' rs'. resampling_process_up_channel b out s t n rs = Some (2 * k, out', rs') \<and>
    length out' = length out \<and> in_step s t rs' \<and> ahead s t rs' = ahead s t rs + (int k * s - t * int n)"
proof -
  have "\<exists>k out1 rs'. (if s = t then map_option (\<lambda>out. (n, out, rs)) (copy_range out b 0 n)
      else resampling_process_mono b out s t (int n) rs) = Some (k, out1, rs') \<and> length out1 = length out \<and>
      2 * k \<le> length out \<and> in_step s t rs' \<and> ahead s t rs' = ahead s t rs + (int k * s - t * int n)"
  proof (cases "s = t")
    case True
    have "2 * n \<le> length out" using block_ok_fits [of s 2 "length out" n] r b(2) True by auto
    moreover from this have "copy_range out b 0 n = Some (b @ drop n out)"
      using b(1) by (simp add: copy_range_def)
    ultimately show ?thesis using inv b(1) True by simp
  next
    case False
    have n: "int INPCM_DELAY_SIZE \<le> int n" "int n \<le> s" "int n \<le> int (length b)"
      using b by (simp_all add: block_ok_def)
    have room: "(8 * int n + 1) * t \<le> 8 * s * int (length out div 2)" using b(2) by (simp add: block_ok_def)
    also have "8 * s * int (length out div 2) \<le> 8 * s * int (length out)"
      using r by (intro mult_left_mono) (auto simp: rate_ok_def)
    finally have room': "(8 * int n + 1) * t \<le> 8 * s * int (length out)" .
    from process_mono_runs [OF r inv n room'] room False show ?thesis by fastforce
  qed
  then obtain k out1 rs' where 1: "(if s = t then map_option (\<lambda>out. (n, out, rs)) (copy_range out b 0 n)
      else resampling_process_mono b out s t (int n) rs) = Some (k, out1, rs')" "length out1 = length out"
    "2 * k \<le> length out" "in_step s t rs'" "ahead s t rs' = ahead s t rs + (int k * s - t * int n)" by blast
  obtain q where "dup_loop k out1 = Some q" "length q = length out"
    using dup_loop_nth [of k out1] 1(2,3) by auto
  with 1 show ?thesis by (simp add: resampling_process_up_channel_def mult.commute)
qed

lemma convert_stream_runs:
  assumes r: "rate_ok s" "rate_ok t" and ch: "ch = 1 \<or> ch = 2"
  shows "in_step s t rs \<Longrightarrow> list_all (\<lambda>b. \<exists>n. length b = ch * n \<and> block_ok s t ch (length out) n) bs \<Longrightarrow>
    \<exists>m rs'. convert_stream s t ch bs out rs = Some (ch * m, rs') \<and> in_step s t rs' \<and>
      ahead s t rs' = ahead s t rs + (int m * s - t * int (\<Sum>b\<leftarrow>bs. length b div ch))"
proof (induction bs arbitrary: out rs)
  case Nil
  then show ?case by (auto intro: exI [of _ 0])
next
  case (Cons b bs)
  from Cons.prems(2) obtain n where b: "length b = ch * n" "block_ok s t ch (length out) n" by auto
  obtain msgs k out' rs1 where 1: "resampling_process b out s t (length b) ch rs = Some (msgs, ch * k, out', rs1)"
    "length out' = length out" "in_step s t rs1" "ahead s t rs1 = ahead s t rs + (int k * s - t * int n)"
    using resampling_process_runs [OF r Cons.prems(1) ch b] by blast
  from Cons.IH [OF 1(3), of out'] Cons.prems(2) 1(2) obtain m rs' where
    2: "convert_stream s t ch bs out' rs1 = Some (ch * m, rs')" "in_step s t rs'"
      "ahead s t rs' = ahead s t rs1 + (int m * s - t * int (\<Sum>b\<leftarrow>bs. length b div ch))" by auto
  have "length b div ch = n" using b(1) ch by auto
  with 1 2 show ?case
    by (intro exI [of _ "k + m"] exI [of _ rs']) (simp add: algebra_simps)
qed

lemma in_step_start: "rate_ok s \<Longrightarrow> rate_ok t \<Longrightarrow> in_step s t resample0"
  and in_step_start_ahead: "ahead s t resample0 = 0"
  by (simp_all add: in_step_def ahead_def resample0_def rate_ok_def INPCM_DELAY_SIZE_def)

text \<open>
  C8. A stream can be converted between any two rates up to 65536 Hz, for one and for two channels,
  however long it is and however it is cut into blocks of at least six samples and at most one
  second: the converter never reads outside the block and the delay line, in spite of the rounding
  of its positions, never writes outside the output, and does not drift.  At every time the number
  of samples it has given, taken at the output rate, is within one output step or \<open>17 / 16\<close> input
  samples of the number it was given.
\<close>

theorem resample_stream_safe:
  assumes "rate_ok s" "rate_ok t" and "ch = 1 \<or> ch = 2"
    and "list_all (\<lambda>b. \<exists>n. length b = ch * n \<and> block_ok s t ch (length out) n) bs"
  shows "\<exists>m rs. convert_stream s t ch bs out resample0 = Some (ch * m, rs) \<and>
    16 * (t * int (\<Sum>b\<leftarrow>bs. length b div ch)) \<le> 16 * (int m * s) + 17 * t \<and>
    int m * s \<le> t * int (\<Sum>b\<leftarrow>bs. length b div ch) + s"
proof -
  obtain m rs where c: "convert_stream s t ch bs out resample0 = Some (ch * m, rs)" and i: "in_step s t rs"
    and a: "ahead s t rs = int m * s - t * int (\<Sum>b\<leftarrow>bs. length b div ch)"
    using convert_stream_runs [OF assms(1-3) in_step_start [OF assms(1,2)] assms(4)]
    by (auto simp: in_step_start_ahead)
  with i have "16 * (t * int (\<Sum>b\<leftarrow>bs. length b div ch)) \<le> 16 * (int m * s) + 17 * t"
    "int m * s \<le> t * int (\<Sum>b\<leftarrow>bs. length b div ch) + s"
    by (simp_all add: in_step_def ahead_def)
  with c show ?thesis by blast
qed

theorem resample_stream_safe_witness:
  "\<exists>m rs. convert_stream 44100 48000 2 (replicate 100 (replicate 2048 5)) (replicate 4096 0) resample0 =
     Some (2 * m, rs) \<and> 111455 \<le> m \<and> m \<le> 111456"
proof -
  have "list_all (\<lambda>b. \<exists>n. length b = 2 * n \<and> block_ok 44100 48000 2 (length (replicate 4096 (0 :: s16))) n)
      (replicate 100 (replicate 2048 (5 :: s16)))"
    by (auto simp: list_all_iff block_ok_def INPCM_DELAY_SIZE_def intro: exI [of _ 1024])
  from resample_stream_safe [OF _ _ _ this] show ?thesis
    by (fastforce simp: rate_ok_def sum_list_replicate)
qed

section \<open>Short blocks\<close>

text \<open>A conversion that ends has copied the last six samples of its block to the delay line.\<close>

lemma mono_loop_needs:
  "mono_loop inpcm ratio innum rs k out = Some r \<Longrightarrow> int INPCM_DELAY_SIZE \<le> innum"
proof (induction inpcm ratio innum rs k out rule: mono_loop.induct)
  case (1 inpcm ratio innum rs k out)
  show ?case using "1.prems" "1.IH"
    by (subst (asm) mono_loop.simps)
      (fastforce simp: Let_def copy_range_def split: prod.splits if_splits option.splits)
qed

lemma dual_loop_needs:
  "dual_loop inpcm ratio innum rs k out = Some r \<Longrightarrow> int INPCM_DELAY_SIZE \<le> innum"
proof (induction inpcm ratio innum rs k out rule: dual_loop.induct)
  case (1 inpcm ratio innum rs k out)
  obtain n0 w0 w1 where pos: "position ratio (rs_outnum rs + int k) = (n0, w0, w1)"
    by (cases "position ratio (rs_outnum rs + int k)")
  show ?case
  proof (cases "n0 - rs_innum rs + 1 \<ge> innum")
    case True
    then show ?thesis using "1.prems" unfolding dual_loop.simps [of inpcm ratio innum rs k out]
      by (auto simp: pos copy_range_def split: option.splits if_splits)
  next
    case False
    then show ?thesis using "1.prems" "1.IH" [OF pos [symmetric] refl refl refl False]
      unfolding dual_loop.simps [of inpcm ratio innum rs k out]
      by (auto simp: pos Let_def split: option.splits if_splits)
  qed
qed

lemma process_needs:
  assumes "s \<noteq> t" and "ch = 1 \<or> ch = 2" and "length b = ch * n"
    and "resampling_process b out s t (length b) ch rs = Some r"
  shows "INPCM_DELAY_SIZE \<le> n"
proof -
  have m: "length b mod ch = 0" using assms(3) by simp
  have c: "cdiv (2 * int n) 2 = int n" by (simp add: cdiv_def signed_divide_int_def sgn_if)
  from assms(2) show ?thesis
  proof
    assume "ch = 1"
    with assms m show ?thesis
      by (auto simp: resampling_process_def resampling_process_mono_def resampling_mono_def
          dest!: mono_loop_needs split: option.splits)
  next
    assume "ch = 2"
    with assms m c show ?thesis
      by (auto simp: resampling_process_def resampling_process_dual_def resampling_dual_def Let_def
          dest!: dual_loop_needs split: option.splits)
  qed
qed

text \<open>
  C23. The converter needs six samples per channel in every block.  At any time of a stream, a block of at most
  one second with room in the output is converted, unless the rates differ and it has fewer than six samples per
  channel: then the delay line is filled from in front of the block.
\<close>

theorem six_samples_needed:
  assumes r: "rate_ok s" "rate_ok t" and inv: "in_step s t rs" and ch: "ch = 1 \<or> ch = 2"
    and b: "length b = ch * n" and n: "int n \<le> s" and room: "(8 * int n + 1) * t \<le> 8 * s * int (length out div ch)"
  shows "resampling_process b out s t (length b) ch rs = None \<longleftrightarrow> s \<noteq> t \<and> n < INPCM_DELAY_SIZE"
proof (cases "s \<noteq> t \<and> n < INPCM_DELAY_SIZE")
  case True
  then have st: "s \<noteq> t" and "\<not> INPCM_DELAY_SIZE \<le> n" by simp_all
  then have "resampling_process b out s t (length b) ch rs = None" 
    by (cases "resampling_process b out s t (length b) ch rs") (auto dest: process_needs [OF st ch b])
  with True show ?thesis by blast
next
  case False
  consider "INPCM_DELAY_SIZE \<le> n" | "s = t" using False by linarith
  then have "\<exists>r. resampling_process b out s t (length b) ch rs = Some r"
  proof cases
    case 1
    with n room have "block_ok s t ch (length out) n" by (simp add: block_ok_def)
    from resampling_process_runs [OF r inv ch b this] show ?thesis by blast
  next
    case 2
    have "s * (8 * int n + 1) \<le> s * (8 * int (length out div ch))" using room 2 by (simp add: algebra_simps)
    then have "8 * int n + 1 \<le> 8 * int (length out div ch)" using r(1) by (simp add: rate_ok_def)
    then have "n \<le> length out div ch" by simp
    then have "length b \<le> length out" using ch b by auto
    then show ?thesis using 2 b by (auto simp: resampling_process_def copy_range_def)
  qed
  with False show ?thesis by auto
qed

theorem six_samples_needed_witness:
  "resampling_process [1, 2, 3, 4, 5] (replicate 64 0) 16000 48000 5 1 resample0 = None \<and>
   resampling_process [1, 2, 3, 4, 5, 6] (replicate 64 0) 16000 48000 6 1 resample0 \<noteq> None"
proof -
  have r: "rate_ok 16000" "rate_ok 48000" by (simp_all add: rate_ok_def)
  have one: "(1 :: nat) = 1 \<or> 1 = (2 :: nat)" by simp
  have l: "length [1, 2, 3, 4, 5 :: s16] = 5" "length [1, 2, 3, 4, 5, 6 :: s16] = 6" by simp_all
  note x = six_samples_needed [OF r in_step_start [OF r] one, where out = "replicate 64 0"]
  show ?thesis
    using x [of "[1, 2, 3, 4, 5]" 5, unfolded l] x [of "[1, 2, 3, 4, 5, 6]" 6, unfolded l]
    by (simp add: INPCM_DELAY_SIZE_def)
qed

end
