(* ===== verification/Resample_Signal.thy ===== *)
theory Resample_Signal
  imports Resample_Stream
begin

text \<open>
  What the converter computes, for one channel: a stream is a function \<open>x\<close> from sample numbers to
  samples, and the output sample with the number \<open>K\<close> is the interpolation between two samples of it.
  So the way a stream is cut into blocks cannot be heard, and the samples lie on the line between
  their neighbours up to rounding.
\<close>

section \<open>The signal\<close>

definition signal_at :: "(int \<Rightarrow> s16) \<Rightarrow> rat \<Rightarrow> int \<Rightarrow> s16" where
  "signal_at x r K = (let (n, w0, w1) = position r K in interpolate w0 w1 (x n) (x (n + 1)))"

definition whole :: "rat \<Rightarrow> int \<Rightarrow> int" where
  "whole r K = fst (position r K)"

text \<open>The last six samples before the block are in the delay line.\<close>

definition delayed :: "(int \<Rightarrow> s16) \<Rightarrow> int \<Rightarrow> s16 list \<Rightarrow> bool" where
  "delayed x I d \<longleftrightarrow> (\<forall>n. - int INPCM_DELAY_SIZE \<le> n \<and> n < 0 \<longrightarrow> rd d (int INPCM_DELAY_SIZE + n) = Some (x (I + n)))"

definition block_of_stream :: "(int \<Rightarrow> s16) \<Rightarrow> int \<Rightarrow> s16 list \<Rightarrow> bool" where
  "block_of_stream x I b \<longleftrightarrow> (\<forall>n. 0 \<le> n \<and> n < int (length b) \<longrightarrow> b ! nat n = x (I + n))"

lemma sample_in_signal:
  assumes "delayed x I d" and "block_of_stream x I b"
    and "sample_in d INPCM_DELAY_SIZE 1 0 b 1 0 n = Some v"
  shows "v = x (I + n)"
proof (cases "n < 0")
  case True
  with assms(3) have "rd d (int INPCM_DELAY_SIZE + n) = Some v" by (simp add: sample_in_def)
  moreover from this have "- int INPCM_DELAY_SIZE \<le> n" by (auto simp: rd_def split: if_splits)
  ultimately show ?thesis using True assms(1) unfolding delayed_def by (metis option.inject)
next
  case False
  with assms(2,3) show ?thesis by (auto simp: sample_in_def rd_def block_of_stream_def split: if_splits)
qed

text \<open>The loop from round \<open>k\<close> on appends the samples of the signal until the block is used up.\<close>

lemma mono_loop_signal:
  "mono_loop b r (int (length b)) rs k out = Some (k', out', d) \<Longrightarrow> delayed x (rs_innum rs) (rs_inpcm rs) \<Longrightarrow>
     block_of_stream x (rs_innum rs) b \<Longrightarrow> k \<le> length out \<Longrightarrow>
     k \<le> k' \<and> take k' out' = take k out @ map (\<lambda>j. signal_at x r (rs_outnum rs + int j)) [k..<k'] \<and>
     (\<forall>j. k \<le> j \<and> j < k' \<longrightarrow> whole r (rs_outnum rs + int j) + 1 < rs_innum rs + int (length b)) \<and>
     rs_innum rs + int (length b) \<le> whole r (rs_outnum rs + int k') + 1 \<and>
     copy_range (rs_inpcm rs) b (int (length b) - int INPCM_DELAY_SIZE) INPCM_DELAY_SIZE = Some d"
proof (induction b r "int (length b)" rs k out rule: mono_loop.induct)
  case (1 b r rs k out)
  obtain n w0 w1 where pos: "position r (rs_outnum rs + int k) = (n, w0, w1)"
    by (cases "position r (rs_outnum rs + int k)")
  then have wh: "whole r (rs_outnum rs + int k) = n" by (simp add: whole_def)
  let ?n = "n - rs_innum rs"
  let ?smp = "sample_in (rs_inpcm rs) INPCM_DELAY_SIZE 1 0 b 1 0"
  note loop = "1.prems"(1) [unfolded mono_loop.simps [of b r "int (length b)" rs k out] pos prod.case Let_def]
  show ?case
  proof (cases "?n + 1 \<ge> int (length b)")
    case True
    with loop have "k' = k" "out' = out"
      "copy_range (rs_inpcm rs) b (int (length b) - int INPCM_DELAY_SIZE) INPCM_DELAY_SIZE = Some d"
      by (auto split: option.splits)
    with True wh show ?thesis by simp
  next
    case False
    then obtain out1 where o: "one_channel ?smp ?n w0 w1 out (int k) = Some out1" and kl: "k < length out"
      and l: "mono_loop b r (int (length b)) rs (k + 1) out1 = Some (k', out', d)"
      using loop by (auto split: option.splits if_splits)
    obtain p0 p1 where p: "?smp ?n = Some p0" "?smp (?n + 1) = Some p1"
      and w: "wr out (int k) (interpolate w0 w1 p0 p1) = Some out1"
      using o by (auto simp: one_channel_def split: option.splits)
    have "p0 = x n" "p1 = x (n + 1)"
      using sample_in_signal [OF "1.prems"(2,3) p(1)] sample_in_signal [OF "1.prems"(2,3) p(2)]
      by (simp_all add: algebra_simps)
    then have s: "interpolate w0 w1 p0 p1 = signal_at x r (rs_outnum rs + int k)"
      by (simp add: signal_at_def pos)
    have o1: "out1 = out[k := signal_at x r (rs_outnum rs + int k)]"
      using w kl by (simp add: wr_def s)
    have kl1: "k + 1 \<le> length out1" using kl by (simp add: o1)
    from "1.hyps" [OF pos [symmetric] refl refl refl False o kl l "1.prems"(2,3) kl1]
    have IH: "k + 1 \<le> k'" "take k' out' = take (k + 1) out1 @ map (\<lambda>j. signal_at x r (rs_outnum rs + int j)) [k + 1..<k']"
      "\<forall>j. k + 1 \<le> j \<and> j < k' \<longrightarrow> whole r (rs_outnum rs + int j) + 1 < rs_innum rs + int (length b)"
      "rs_innum rs + int (length b) \<le> whole r (rs_outnum rs + int k') + 1"
      "copy_range (rs_inpcm rs) b (int (length b) - int INPCM_DELAY_SIZE) INPCM_DELAY_SIZE = Some d" by blast+
    have "take (k + 1) out1 = take k out @ [signal_at x r (rs_outnum rs + int k)]"
      using kl by (simp add: o1 take_Suc_conv_app_nth)
    moreover have "[k..<k'] = k # [k + 1..<k']" using IH(1) by (simp add: upt_conv_Cons)
    ultimately have "take k' out' = take k out @ map (\<lambda>j. signal_at x r (rs_outnum rs + int j)) [k..<k']"
      using IH(2) by simp
    moreover have "whole r (rs_outnum rs + int j) + 1 < rs_innum rs + int (length b)" if "k \<le> j" "j < k'" for j
      using IH(3) that False wh by (cases "j = k") auto
    ultimately show ?thesis using IH(1,4,5) by simp
  qed
qed

section \<open>The filter\<close>

text \<open>The filter on a list of samples.\<close>

fun dc_filter :: "rat \<Rightarrow> s16 list \<Rightarrow> rat \<times> rat \<Rightarrow> s16 list \<times> rat \<times> rat" where
  "dc_filter coef [] h = ([], h)"
| "dc_filter coef (v # vs) h =
     (let (u, h) = dc_step coef v h; (us, h) = dc_filter coef vs h in (u # us, h))"

lemma dc_filter_append:
  "dc_filter coef (us @ vs) h =
     (let (us', h') = dc_filter coef us h; (vs', h'') = dc_filter coef vs h' in (us' @ vs', h''))"
  by (induction us arbitrary: h) (auto simp: Let_def split: prod.splits)

lemma length_dc_filter: "length (fst (dc_filter coef vs h)) = length vs"
  by (induction vs arbitrary: h) (simp_all add: split_def Let_def)

lemma dc_loop_filter:
  "len \<le> length pcm \<Longrightarrow> i \<le> len \<Longrightarrow>
     dc_loop coef 1 len i pcm h =
       Some (take i pcm @ fst (dc_filter coef (drop i (take len pcm)) h) @ drop len pcm,
             snd (dc_filter coef (drop i (take len pcm)) h))"
proof (induction coef "1 :: nat" len i pcm h rule: dc_loop.induct)
  case (1 coef len i pcm h)
  show ?case
  proof (cases "i < len")
    case True
    then have r: "rd pcm (int i) = Some (pcm ! i)" using "1.prems" by (simp add: rd_def)
    obtain v h1 where d: "dc_step coef (pcm ! i) h = (v, h1)" by (cases "dc_step coef (pcm ! i) h")
    let ?p = "pcm[i := v]"
    have il: "i < length pcm" using True "1.prems" by simp
    have 1: "drop i (take len pcm) = pcm ! i # drop (i + 1) (take len ?p)"
      using True il by (simp add: Cons_nth_drop_Suc [symmetric] take_update_swap drop_update_cancel del: take_update_cancel)
    have 2: "take (i + 1) ?p = take i pcm @ [v]" "drop len ?p = drop len pcm"
      using True il by (simp_all add: take_Suc_conv_app_nth)
    have "dc_loop coef 1 len i pcm h = dc_loop coef 1 len (i + 1) ?p h1"
      using True by (subst dc_loop.simps) (simp add: r d)
    also have "\<dots> = Some (take (i + 1) ?p @ fst (dc_filter coef (drop (i + 1) (take len ?p)) h1) @ drop len ?p,
        snd (dc_filter coef (drop (i + 1) (take len ?p)) h1))"
      using "1.hyps" [OF _ r d [symmetric] refl] True "1.prems" by simp
    finally show ?thesis unfolding 1 2 by (simp add: d split_def Let_def)
  next
    case False
    with "1.prems" have "i = len" by simp
    then show ?thesis by (subst dc_loop.simps) simp
  qed
qed

section \<open>Blocks\<close>

text \<open>One block through the converter and the filter.\<close>

lemma process_mono_signal:
  assumes p: "resampling_process_mono b out s t (int (length b)) rs = Some (k, out', rs')"
    and d: "delayed x (rs_innum rs) (rs_inpcm rs)" and b: "block_of_stream x (rs_innum rs) b"
    and h: "hp_mem rs = (h0, h1, h2, h3)" and k: "k \<le> length out"
  shows "take k out' = fst (dc_filter (dc_coef 3 t)
        (map (\<lambda>j. signal_at x (rate_ratio s t) (rs_outnum rs + int j)) [0..<k]) (h0, h1)) \<and>
    (\<exists>g0 g1. snd (dc_filter (dc_coef 3 t)
        (map (\<lambda>j. signal_at x (rate_ratio s t) (rs_outnum rs + int j)) [0..<k]) (h0, h1)) = (g0, g1) \<and>
      hp_mem rs' = (g0, g1, h2, h3)) \<and>
    (\<forall>j < k. whole (rate_ratio s t) (rs_outnum rs + int j) + 1 < rs_innum rs + int (length b)) \<and>
    rs_innum rs + int (length b) \<le> whole (rate_ratio s t) (rs_outnum rs + int k) + 1 \<and>
    delayed x (rs_innum rs + int (length b)) (rs_inpcm rs') \<and>
    (rs_innum rs + int (length b) < s \<longrightarrow>
       rs_innum rs' = rs_innum rs + int (length b) \<and> rs_outnum rs' = rs_outnum rs + int k)"
proof -
  let ?xs = "map (\<lambda>j. signal_at x (rate_ratio s t) (rs_outnum rs + int j)) [0..<k]"
  obtain out1 dl where l: "mono_loop b (rate_ratio s t) (int (length b)) rs 0 out = Some (k, out1, dl)"
    and rs: "rs' = (count_block s t (int (length b)) (int k) (rs\<lparr>rs_inpcm := dl\<rparr>))\<lparr>hp_mem := hp_mem rs'\<rparr>"
    and f: "\<exists>g0 g1. dc_loop (dc_coef 3 t) 1 k 0 out1 (h0, h1) = Some (out', g0, g1) \<and> hp_mem rs' = (g0, g1, h2, h3)"
    using p by (auto simp: resampling_process_mono_def resampling_mono_def dc_reject_mono_def h Let_def
        split: option.splits)
  from mono_loop_signal [OF l d b] have
    t1: "take k out1 = ?xs"
    and wh: "\<forall>j. j < k \<longrightarrow> whole (rate_ratio s t) (rs_outnum rs + int j) + 1 < rs_innum rs + int (length b)"
      "rs_innum rs + int (length b) \<le> whole (rate_ratio s t) (rs_outnum rs + int k) + 1"
    and c: "copy_range (rs_inpcm rs) b (int (length b) - int INPCM_DELAY_SIZE) INPCM_DELAY_SIZE = Some dl"
    by simp_all
  have "length out1 = length out" using mono_loop_length [OF l] by simp
  with k have k1: "k \<le> length out1" by simp
  obtain g0 g1 where g: "snd (dc_filter (dc_coef 3 t) ?xs (h0, h1)) = (g0, g1)"
    by (cases "snd (dc_filter (dc_coef 3 t) ?xs (h0, h1))")
  from dc_loop_filter [OF k1 le0, of "dc_coef 3 t" "(h0, h1)"]
  have "dc_loop (dc_coef 3 t) 1 k 0 out1 (h0, h1) =
      Some (fst (dc_filter (dc_coef 3 t) ?xs (h0, h1)) @ drop k out1, g0, g1)" by (simp add: t1 g)
  with f have o: "out' = fst (dc_filter (dc_coef 3 t) ?xs (h0, h1)) @ drop k out1" "hp_mem rs' = (g0, g1, h2, h3)"
    by auto
  have dlen: "length (fst (dc_filter (dc_coef 3 t) ?xs (h0, h1))) = k" by (simp add: length_dc_filter)
  have "delayed x (rs_innum rs + int (length b)) dl"
    unfolding delayed_def
  proof (intro allI impI)
    fix n assume n: "- int INPCM_DELAY_SIZE \<le> n \<and> n < 0"
    define i where "i = nat (int INPCM_DELAY_SIZE + n)"
    have i: "int INPCM_DELAY_SIZE + n = int i" "i < INPCM_DELAY_SIZE"
      using n by (auto simp: i_def nat_less_iff)
    have c': "INPCM_DELAY_SIZE \<le> length b" "INPCM_DELAY_SIZE \<le> length (rs_inpcm rs)"
      "dl = take INPCM_DELAY_SIZE (drop (length b - INPCM_DELAY_SIZE) b) @ drop INPCM_DELAY_SIZE (rs_inpcm rs)"
      using c by (auto simp: copy_range_def nat_diff_distrib split: if_splits)
    have "dl ! i = b ! (length b - INPCM_DELAY_SIZE + i)"
      using i(2) c'(1) by (simp add: c'(3) nth_append)
    also have "length b - INPCM_DELAY_SIZE + i = nat (int (length b) + n)" using c'(1) i by simp
    also have "b ! nat (int (length b) + n) = x (rs_innum rs + (int (length b) + n))"
      using b n c'(1) unfolding block_of_stream_def by simp
    finally show "rd dl (int INPCM_DELAY_SIZE + n) = Some (x (rs_innum rs + int (length b) + n))"
      using i c' by (simp add: rd_def add.assoc)
  qed
  moreover have "rs_inpcm rs' = dl" by (subst rs) simp
  moreover have "rs_innum rs' = rs_innum rs + int (length b) \<and> rs_outnum rs' = rs_outnum rs + int k"
    if "rs_innum rs + int (length b) < s"
    using that by (subst (1 2) rs) (simp add: count_block_def Let_def)
  ultimately show ?thesis using o g dlen wh by simp
qed

text \<open>A stream of one channel: the samples it gives, one block after the other.\<close>

fun convert_out :: "int \<Rightarrow> int \<Rightarrow> s16 list list \<Rightarrow> s16 list \<Rightarrow> resample \<Rightarrow> s16 list option" where
  "convert_out s t [] out rs = Some []"
| "convert_out s t (b # bs) out rs =
     (case resampling_process b out s t (length b) 1 rs of
        None \<Rightarrow> None
      | Some (_, k, out, rs) \<Rightarrow> map_option (\<lambda>ys. take k out @ ys) (convert_out s t bs out rs))"

lemma block_of_stream_nth: "block_of_stream x I b \<longleftrightarrow> (\<forall>i < length b. b ! i = x (I + int i))"
  unfolding block_of_stream_def by (metis int_nat_eq nat_int nat_less_iff of_nat_0_le_iff of_nat_less_iff)

lemma block_of_stream_append:
  "block_of_stream x I (b @ c) \<longleftrightarrow> block_of_stream x I b \<and> block_of_stream x (I + int (length b)) c"
proof -
  have glue: "P i" if "\<forall>i < l. P i" "\<forall>i < l'. P (l + i)" "i < l + l'" for P i and l l' :: nat
    using that(1,3) that(2) [rule_format, of "i - l"] by (cases "i < l") auto
  have split: "(\<forall>i < l + l'. P i) \<longleftrightarrow> (\<forall>i < l. P i) \<and> (\<forall>i < l'. P (l + i))" for P and l l' :: nat
  proof (intro iffI conjI allI impI)
    fix i assume "(\<forall>i < l. P i) \<and> (\<forall>i < l'. P (l + i))" "i < l + l'"
    then show "P i" using glue [of l P l' i] by blast
  qed simp_all
  show ?thesis unfolding block_of_stream_nth length_append split by (simp add: nth_append add.assoc)
qed

lemma convert_out_signal:
  assumes r: "rate_ok s" "rate_ok t" and ne: "s \<noteq> t"
  shows "in_step s t rs \<Longrightarrow> delayed x (rs_innum rs) (rs_inpcm rs) \<Longrightarrow>
    block_of_stream x (rs_innum rs) (concat bs) \<Longrightarrow> rs_innum rs + int (length (concat bs)) \<le> s \<Longrightarrow>
    list_all (\<lambda>b. block_ok s t 1 (length out) (length b)) bs \<Longrightarrow> hp_mem rs = (h0, h1, h2, h3) \<Longrightarrow>
    \<exists>m. convert_out s t bs out rs = Some (fst (dc_filter (dc_coef 3 t)
        (map (\<lambda>j. signal_at x (rate_ratio s t) (rs_outnum rs + int j)) [0..<m]) (h0, h1))) \<and>
      (\<forall>j < m. whole (rate_ratio s t) (rs_outnum rs + int j) + 1 < rs_innum rs + int (length (concat bs))) \<and>
      (if bs = [] then m = 0
       else rs_innum rs + int (length (concat bs)) \<le> whole (rate_ratio s t) (rs_outnum rs + int m) + 1)"
proof (induction bs arbitrary: out rs h0 h1 h2 h3)
  case (Cons b bs)
  let ?r = "rate_ratio s t" and ?c = "dc_coef 3 t" and ?K = "rs_outnum rs"
  let ?sig = "\<lambda>K n. map (\<lambda>j. signal_at x ?r (K + int j)) [0..<n]"
  have bo: "block_ok s t 1 (length out) (length b)" using Cons.prems(5) by simp
  then have n: "int INPCM_DELAY_SIZE \<le> int (length b)" "int (length b) \<le> s" "int (length b) \<le> int (length b)"
    and room: "(8 * int (length b) + 1) * t \<le> 8 * s * int (length out)" by (simp_all add: block_ok_def)
  obtain k out1 rs1 where p: "resampling_process_mono b out s t (int (length b)) rs = Some (k, out1, rs1)"
    and l1: "length out1 = length out" and kl: "k \<le> length out" and st1: "in_step s t rs1"
    using process_mono_runs [OF r Cons.prems(1) n room] room by blast
  have bs1: "block_of_stream x (rs_innum rs) b" "block_of_stream x (rs_innum rs + int (length b)) (concat bs)"
    using Cons.prems(3) by (simp_all add: block_of_stream_append)
  from process_mono_signal [OF p Cons.prems(2) bs1(1) Cons.prems(6) kl] obtain g0 g1 where
    o: "take k out1 = fst (dc_filter ?c (?sig ?K k) (h0, h1))"
      "snd (dc_filter ?c (?sig ?K k) (h0, h1)) = (g0, g1)" "hp_mem rs1 = (g0, g1, h2, h3)"
    and wh: "\<forall>j < k. whole ?r (?K + int j) + 1 < rs_innum rs + int (length b)"
      "rs_innum rs + int (length b) \<le> whole ?r (?K + int k) + 1"
    and dl: "delayed x (rs_innum rs + int (length b)) (rs_inpcm rs1)"
    and cnt: "rs_innum rs + int (length b) < s \<Longrightarrow>
      rs_innum rs1 = rs_innum rs + int (length b) \<and> rs_outnum rs1 = ?K + int k" by blast
  have proc: "resampling_process b out s t (length b) 1 rs = Some ([], k, out1, rs1)"
    using p ne by (simp add: resampling_process_def)
  show ?case
  proof (cases "bs = []")
    case True
    with proc o(1) wh show ?thesis by (intro exI [of _ k]) simp
  next
    case False
    then obtain c cs where bs: "bs = c # cs" by (cases bs) auto
    then have "INPCM_DELAY_SIZE \<le> length c" using Cons.prems(5) by (simp add: block_ok_def)
    then have "0 < length (concat bs)" using bs by (auto simp: INPCM_DELAY_SIZE_def)
    moreover have "int (length (concat (b # bs))) = int (length b) + int (length (concat bs))" by simp
    ultimately have "rs_innum rs + int (length b) < s" using Cons.prems(4) by linarith
    from cnt [OF this] have cnt': "rs_innum rs1 = rs_innum rs + int (length b)" "rs_outnum rs1 = ?K + int k" by simp_all
    have "delayed x (rs_innum rs1) (rs_inpcm rs1)" "block_of_stream x (rs_innum rs1) (concat bs)"
      "rs_innum rs1 + int (length (concat bs)) \<le> s" "list_all (\<lambda>b. block_ok s t 1 (length out1) (length b)) bs"
      using dl bs1(2) Cons.prems(4,5) l1 by (simp_all add: cnt'(1) add.assoc)
    from Cons.IH [OF st1 this o(3)] False obtain m where
      ih: "convert_out s t bs out1 rs1 = Some (fst (dc_filter ?c (?sig (?K + int k) m) (g0, g1)))"
        "\<forall>j < m. whole ?r (?K + int k + int j) + 1 < rs_innum rs + int (length b) + int (length (concat bs))"
        "rs_innum rs + int (length b) + int (length (concat bs)) \<le> whole ?r (?K + int k + int m) + 1"
      unfolding cnt' by auto
    have sig: "?sig ?K (k + m) = ?sig ?K k @ ?sig (?K + int k) m"
    proof -
      have "[0..<k + m] = [0..<k] @ map (\<lambda>j. k + j) [0..<m]"
        using upt_add_eq_append [of 0 k m] map_add_upt [of k m] by (simp add: add.commute)
      then show ?thesis by (simp add: comp_def add.assoc)
    qed
    have "fst (dc_filter ?c (?sig ?K (k + m)) (h0, h1)) =
        take k out1 @ fst (dc_filter ?c (?sig (?K + int k) m) (g0, g1))"
      unfolding sig dc_filter_append using o(1,2) by (simp add: split_def Let_def)
    then have "convert_out s t (b # bs) out rs = Some (fst (dc_filter ?c (?sig ?K (k + m)) (h0, h1)))"
      using proc ih(1) by simp
    moreover have "whole ?r (?K + int j) + 1 < rs_innum rs + int (length (concat (b # bs)))" if "j < k + m" for j
    proof (cases "j < k")
      case True
      with wh(1) have "whole ?r (?K + int j) + 1 < rs_innum rs + int (length b)" by blast
      then show ?thesis by simp
    next
      case False
      with that ih(2) [rule_format, of "j - k"] show ?thesis by (simp add: add.assoc)
    qed
    ultimately show ?thesis using ih(3) by (intro exI [of _ "k + m"]) (simp add: add.assoc)
  qed
qed simp

lemma convert_out_same_rate:
  assumes r: "rate_ok s"
  shows "list_all (\<lambda>b. block_ok s s 1 (length out) (length b)) bs \<Longrightarrow> convert_out s s bs out rs = Some (concat bs)"
proof (induction bs arbitrary: out)
  case (Cons b bs)
  then have "length b \<le> length out" using block_ok_fits [OF r, of 1 "length out" "length b"] by simp
  then have "copy_range out b 0 (length b) = Some (b @ drop (length b) out)" by (simp add: copy_range_def)
  with Cons.IH [of "b @ drop (length b) out"] Cons.prems \<open>length b \<le> length out\<close> show ?case
    by (simp add: resampling_process_def)
qed simp

text \<open>
  How a stream of one channel is cut into blocks does not matter: two ways of cutting up to one
  second of it give the same samples.
\<close>

lemma mono_same_samples:
  assumes "rate_ok s" "rate_ok t" and "concat bs = concat bs'" and "int (length (concat bs)) \<le> s"
    and "list_all (\<lambda>b. block_ok s t 1 (length out) (length b)) bs"
    and "list_all (\<lambda>b. block_ok s t 1 (length out') (length b)) bs'"
  shows "\<exists>ys. convert_out s t bs out resample0 = Some ys \<and> convert_out s t bs' out' resample0 = Some ys"
proof (cases "s = t")
  case True
  with convert_out_same_rate [of s out bs resample0] convert_out_same_rate [of s out' bs' resample0] assms
  show ?thesis by simp
next
  case False
  define x where "x n = (if 0 \<le> n \<and> n < int (length (concat bs)) then concat bs ! nat n else 0)" for n
  let ?r = "rate_ratio s t"
  have x: "block_of_stream x (rs_innum resample0) (concat bs)" "block_of_stream x (rs_innum resample0) (concat bs')"
    unfolding assms(3) [symmetric] by (simp_all add: block_of_stream_def x_def resample0_def)
  have d: "delayed x (rs_innum resample0) (rs_inpcm resample0)"
    by (auto simp: delayed_def resample0_def x_def rd_def INPCM_DELAY_SIZE_def)
  have h: "hp_mem resample0 = (0, 0, 0, 0)" by (simp add: resample0_def)
  have le: "rs_innum resample0 + int (length (concat bs)) \<le> s" "rs_innum resample0 + int (length (concat bs')) \<le> s"
    using assms(3,4) by (simp_all add: resample0_def)
  note S = convert_out_signal [OF assms(1,2) False in_step_start [OF assms(1,2)] d]
  obtain m where m: "convert_out s t bs out resample0 = Some (fst (dc_filter (dc_coef 3 t)
        (map (\<lambda>j. signal_at x ?r (rs_outnum resample0 + int j)) [0..<m]) (0, 0)))"
      "\<forall>j < m. whole ?r (rs_outnum resample0 + int j) + 1 < rs_innum resample0 + int (length (concat bs))"
      "if bs = [] then m = 0 else rs_innum resample0 + int (length (concat bs)) \<le> whole ?r (rs_outnum resample0 + int m) + 1"
    using S [OF x(1) le(1) assms(5) h] by blast
  obtain m' where m': "convert_out s t bs' out' resample0 = Some (fst (dc_filter (dc_coef 3 t)
        (map (\<lambda>j. signal_at x ?r (rs_outnum resample0 + int j)) [0..<m']) (0, 0)))"
      "\<forall>j < m'. whole ?r (rs_outnum resample0 + int j) + 1 < rs_innum resample0 + int (length (concat bs))"
      "if bs' = [] then m' = 0 else rs_innum resample0 + int (length (concat bs)) \<le> whole ?r (rs_outnum resample0 + int m') + 1"
    using S [OF x(2) le(2) assms(6) h] unfolding assms(3) by blast
  have empty: "cs = []" if "concat cs = []" "list_all (\<lambda>b. block_ok s t 1 l (length b)) cs" for cs l
    using that by (cases cs) (auto simp: block_ok_def INPCM_DELAY_SIZE_def)
  have "bs = [] \<longleftrightarrow> bs' = []" using empty [OF _ assms(5)] empty [OF _ assms(6)] assms(3) by auto
  moreover have "m = m'" if "bs \<noteq> []" "bs' \<noteq> []"
    using m(2,3) m'(2,3) that by (metis leD linorder_neqE_nat)
  ultimately have "m = m'" using m(3) m'(3) by (cases "bs = []") auto
  with m(1) m'(1) show ?thesis by simp
qed

section \<open>Accuracy\<close>

text \<open>The line through the samples of a signal.\<close>

definition lerp :: "(int \<Rightarrow> s16) \<Rightarrow> rat \<Rightarrow> rat" where
  "lerp x p = (let n = \<lfloor>p\<rfloor>; f = p - of_int n in (1 - f) * of_int (sint (x n)) + f * of_int (sint (x (n + 1))))"

lemma rnd32_abs:
  assumes "\<bar>x\<bar> \<le> c" and "2 powi (-126) \<le> c"
  shows "\<bar>rnd32 x - x\<bar> \<le> c / 2 ^ 24"
proof (cases "2 powi (-126) \<le> \<bar>x\<bar>")
  case True
  from rnd32_rel [OF this] assms(1) show ?thesis
    by (meson divide_right_mono order_trans zero_le_numeral zero_le_power)
next
  case False
  show ?thesis
  proof (cases "x = 0")
    case True
    have "(0 :: rat) < 2 powi (-126)" by simp
    with assms(2) have "0 \<le> c" by linarith
    with True show ?thesis by simp
  next
    case nz: False
    have "(2 :: rat) powi flog2 \<bar>x\<bar> < 2 powi (-126)" using flog2_bounds(1) [of "\<bar>x\<bar>"] nz False by simp
    then have "flog2 \<bar>x\<bar> < -126"
      using power_int_increasing [of "-126" "flog2 \<bar>x\<bar>" "2 :: rat"] by (cases "flog2 \<bar>x\<bar> < -126") auto
    then have "ulp32 x \<le> 2 powi (-149)" by (simp add: ulp32_def)
    then have "\<bar>rnd32 x - x\<bar> \<le> 2 powi (-149) / 2" using rnd32_error [of x] by linarith
    also have "(2 :: rat) powi (-149) / 2 = 2 powi (-126) / 2 ^ 24" by (simp add: power_int_minus_divide)
    also have "\<dots> \<le> c / 2 ^ 24" using assms(2) by (intro divide_right_mono) auto
    finally show ?thesis .
  qed
qed

lemma rnd32_abs_simp:
  assumes "\<bar>x\<bar> \<le> c" and "1 \<le> c"
  shows "\<bar>rnd32 x - x\<bar> \<le> c / 16777216"
proof -
  have "(2 :: rat) powi (-126) \<le> 2 powi 0" by (rule power_int_increasing) simp_all
  with assms(2) have "2 powi (-126) \<le> c" by simp
  from rnd32_abs [OF assms(1) this] show ?thesis by simp
qed

lemma sint_s16_bounds: "-32768 \<le> sint (v :: s16)" "sint (v :: s16) \<le> 32767"
  using sint_greater_eq [of v] sint_less [of v] by simp_all

lemma clamp16_sint: "-32768 \<le> z \<Longrightarrow> z \<le> 32767 \<Longrightarrow> sint (clamp16 z) = z"
  using signed_take_bit_int_eq_self [of 15 z] by (simp add: clamp16_def sint_sbintrunc')

text \<open>The interpolation is the line up to a little more than the truncation to an integer.\<close>

lemma interpolate_near:
  fixes f :: rat
  assumes "0 \<le> f" "f \<le> 1" and w0: "w0 = rnd32 f" and w1: "w1 = rnd32 (1 - w0)"
  shows "\<bar>of_int (sint (interpolate w0 w1 p0 p1)) - ((1 - f) * of_int (sint p0) + f * of_int (sint p1))\<bar> < 33 / 32"
proof -
  define A B where "A = sint p0" and "B = sint p1"
  define a b where "a = (of_int A :: rat)" and "b = (of_int B :: rat)"
  have AB: "-32768 \<le> A" "A \<le> 32767" "-32768 \<le> B" "B \<le> 32767"
    using sint_s16_bounds [of p0] sint_s16_bounds [of p1] by (simp_all add: A_def B_def)
  have ab: "-32768 \<le> a" "a \<le> 32767" "-32768 \<le> b" "b \<le> 32767"
    using AB by (simp_all add: a_def b_def)
  then have ab': "\<bar>a\<bar> \<le> 32768" "\<bar>b\<bar> \<le> 32768" by simp_all
  have fl: "float_of_int A = a" "float_of_int B = b"
    using AB by (simp_all add: float_of_int_def rnd32_int a_def b_def)
  define L where "L = (1 - f) * a + f * b"
  have e0: "\<bar>w0 - f\<bar> \<le> 1 / 16777216" unfolding w0 by (rule rnd32_abs_simp) (use assms(1,2) in simp_all)
  then have "\<bar>1 - w0\<bar> \<le> 2" using assms(1,2) by linarith
  then have "\<bar>w1 - (1 - w0)\<bar> \<le> 2 / 16777216" unfolding w1 by (rule rnd32_abs_simp) simp
  then have e1: "\<bar>w1 - (1 - f)\<bar> \<le> 3 / 16777216" using e0 by linarith
  have prod: "\<bar>w * c - v * c\<bar> \<le> e * 32768" if "\<bar>w - v\<bar> \<le> e" "\<bar>c\<bar> \<le> 32768" for w v c e :: rat
  proof -
    have "\<bar>w * c - v * c\<bar> = \<bar>w - v\<bar> * \<bar>c\<bar>" by (simp add: abs_mult flip: left_diff_distrib)
    also have "\<dots> \<le> e * 32768" using that by (intro mult_mono) auto
    finally show ?thesis .
  qed
  have m0: "\<bar>w0 * b - f * b\<bar> \<le> 1 / 512" using prod [OF e0 ab'(2)] by simp
  have m1: "\<bar>w1 * a - (1 - f) * a\<bar> \<le> 3 / 512" using prod [OF e1 ab'(1)] by simp
  have fb: "\<bar>f * b\<bar> \<le> 1 * 32768" "\<bar>(1 - f) * a\<bar> \<le> 1 * 32768"
    unfolding abs_mult using assms(1,2) ab' by (intro mult_mono; simp)+
  have "\<bar>fmul w0 b - w0 * b\<bar> \<le> 32769 / 16777216" unfolding fmul_def by (rule rnd32_abs_simp) (use m0 fb in linarith)+
  with m0 have P0: "\<bar>fmul w0 b - f * b\<bar> \<le> 1 / 128" by linarith
  have "\<bar>fmul w1 a - w1 * a\<bar> \<le> 32769 / 16777216" unfolding fmul_def by (rule rnd32_abs_simp) (use m1 fb in linarith)+
  with m1 have P1: "\<bar>fmul w1 a - (1 - f) * a\<bar> \<le> 1 / 64" by linarith
  have "(1 - f) * a + f * b \<le> (1 - f) * 32767 + f * 32767"
    using ab assms(1,2) by (intro add_mono mult_left_mono) auto
  then have Lu: "L \<le> 32767" by (simp add: L_def algebra_simps)
  have "(1 - f) * (-32768) + f * (-32768) \<le> (1 - f) * a + f * b"
    using ab assms(1,2) by (intro add_mono mult_left_mono) auto
  then have Ll: "-32768 \<le> L" by (simp add: L_def algebra_simps)
  let ?S = "fmul w0 b + fmul w1 a"
  have S: "\<bar>?S - L\<bar> \<le> 3 / 128" using P0 P1 unfolding L_def by linarith
  have "\<bar>fadd (fmul w0 b) (fmul w1 a) - ?S\<bar> \<le> 32769 / 16777216"
    unfolding fadd_def by (rule rnd32_abs_simp) (use S Lu Ll in linarith)+
  with S have V: "\<bar>fadd (fmul w0 b) (fmul w1 a) - L\<bar> < 1 / 32" by linarith
  define v where "v = fadd (fmul w0 b) (fmul w1 a)"
  have t: "\<bar>of_int (int_of_float v) - v\<bar> < 1"
    unfolding int_of_float_def by (cases "v < 0"; simp only: if_True if_False of_int_minus; linarith)
  have "v < 32767 + 1 / 32" "-32768 - 1 / 32 < v" using V Lu Ll unfolding v_def [symmetric] by linarith+
  then have "int_of_float v < 32768 \<and> -32769 < int_of_float v"
    unfolding int_of_float_def by (cases "v < 0"; simp only: if_True if_False; linarith)
  then have "int_of_float v \<le> 32767" "-32768 \<le> int_of_float v" by simp_all
  from clamp16_sint [OF this(2,1)] have "sint (interpolate w0 w1 p0 p1) = int_of_float v"
    by (simp add: interpolate_def A_def [symmetric] B_def [symmetric] fl v_def)
  moreover have "\<bar>of_int (int_of_float v) - L\<bar> < 33 / 32" using t V unfolding v_def [symmetric] by linarith
  ultimately show ?thesis unfolding L_def a_def b_def A_def B_def by (simp only:)
qed

text \<open>An output sample lies on the line, at a point close to its exact position.\<close>

lemma signal_at_near:
  assumes "rate_ok s" "rate_ok t" and "0 \<le> k" "k < 2 ^ 24" and "k * s \<le> 2 ^ 18 * t"
  shows "\<exists>p. \<bar>p - of_int (k * s) / of_int t\<bar> \<le> 1 / 16 \<and>
    \<bar>of_int (sint (signal_at x (rate_ratio s t) k)) - lerp x p\<bar> < 33 / 32"
proof -
  define p where "p = fmul (rate_ratio s t) (float_of_int k)"
  have p: "\<bar>p - of_int (k * s) / of_int t\<bar> \<le> 1 / 16" "0 \<le> p"
    using position_computed [OF assms] by (simp_all add: p_def)
  have "k * s \<le> 2 ^ 18 * t" by (rule assms(5))
  then have "(of_int (k * s) :: rat) \<le> of_int (2 ^ 18 * t)" by (simp only: of_int_le_iff)
  moreover have tpos: "(0 :: rat) < of_int t" using assms(2) by (simp add: rate_ok_def)
  ultimately have q: "of_int (k * s) / of_int t \<le> (262144 :: rat)" by (simp add: pos_divide_le_eq)
  have "p \<le> 262145" using abs_le_D1 [OF p(1)] q by linarith
  define n where "n = \<lfloor>p\<rfloor>"
  define f where "f = p - of_int n"
  have f: "0 \<le> f" "f \<le> 1" unfolding f_def n_def by linarith+
  have n: "0 \<le> n" "n \<le> 262145" using p(2) \<open>p \<le> 262145\<close> by (simp_all add: n_def floor_le_iff)
  then have fn: "float_of_int n = of_int n" by (simp add: float_of_int_def rnd32_int)
  have "position (rate_ratio s t) k = (n, rnd32 f, rnd32 (1 - rnd32 f))"
    using p(2) by (simp add: position_def Let_def p_def [symmetric] int_of_float_def n_def [symmetric] fn
        fsub_def f_def)
  then have e: "signal_at x (rate_ratio s t) k = interpolate (rnd32 f) (rnd32 (1 - rnd32 f)) (x n) (x (n + 1))"
    by (simp add: signal_at_def)
  have "lerp x p = (1 - f) * of_int (sint (x n)) + f * of_int (sint (x (n + 1)))"
    by (simp only: lerp_def Let_def n_def [symmetric] f_def [symmetric])
  with interpolate_near [OF f refl refl, of "x n" "x (n + 1)"] p(1) show ?thesis unfolding e by metis
qed

definition stream_of :: "s16 list \<Rightarrow> int \<Rightarrow> s16" where
  "stream_of b n = (if 0 \<le> n \<and> n < int (length b) then b ! nat n else 0)"

text \<open>
  C12. The converter interpolates: of a block of up to one second at the start of a stream, every output
  sample is the value of the straight line through the input samples, at a point that is within a
  sixteenth of a sample of the exact position, up to the truncation to an integer and a thirty-second
  part of a unit.
\<close>

theorem resampling_mono_accurate:
  assumes "rate_ok s" "rate_ok t" and "block_ok s t 1 (length out) (length b)"
  shows "\<exists>k out' rs. resampling_mono b out s t (int (length b)) resample0 = Some (k, out', rs) \<and>
    (\<forall>j < k. \<exists>p. \<bar>p - of_int (int j * s) / of_int t\<bar> \<le> 1 / 16 \<and>
       \<bar>of_int (sint (out' ! j)) - lerp (stream_of b) p\<bar> < 33 / 32)"
proof -
  let ?r = "rate_ratio s t"
  have n: "int INPCM_DELAY_SIZE \<le> int (length b)" "int (length b) \<le> s"
    and room: "(8 * int (length b) + 1) * t \<le> 8 * s * int (length out)" using assms(3) by (simp_all add: block_ok_def)
  have st: "1 \<le> s" "s \<le> 65536" "1 \<le> t" "t \<le> 65536" using assms(1,2) by (simp_all add: rate_ok_def)
  have g: "int INPCM_DELAY_SIZE \<le> int (length b) \<and> int (length b) \<le> int (length b) \<and>
      length (rs_inpcm resample0) = 2 * INPCM_DELAY_SIZE" using n by (simp add: resample0_def)
  have r0: "rs_innum resample0 = 0" "rs_outnum resample0 = 0" by (simp_all add: resample0_def)
  obtain k out' d where l: "mono_loop b ?r (int (length b)) resample0 0 out = Some (k, out', d)"
    and kl: "k \<le> length out" "length out' = length out"
    and kb: "k = 0 \<or> 16 * ((int k - 1) * s) + 15 * t < 16 * (t * int (length b))"
    using mono.loop_runs [OF assms(1,2) in_step_start [OF assms(1,2)] g _ n(2), of out 0] room r0 by auto
  have del: "delayed (stream_of b) (rs_innum resample0) (rs_inpcm resample0)"
    by (auto simp: delayed_def resample0_def stream_of_def rd_def INPCM_DELAY_SIZE_def)
  have blk: "block_of_stream (stream_of b) (rs_innum resample0) b"
    by (simp add: block_of_stream_def stream_of_def r0)
  from mono_loop_signal [OF l del blk] have tk: "take k out' = map (\<lambda>j. signal_at (stream_of b) ?r (int j)) [0..<k]"
    by (simp add: r0)
  have "\<exists>p. \<bar>p - of_int (int j * s) / of_int t\<bar> \<le> 1 / 16 \<and>
      \<bar>of_int (sint (out' ! j)) - lerp (stream_of b) p\<bar> < 33 / 32" if j: "j < k" for j
  proof -
    have "int j * s \<le> (int k - 1) * s" using j st by (intro mult_right_mono) auto
    moreover have "t * int (length b) \<le> t * s" using n st by (intro mult_left_mono) auto
    ultimately have js: "int j * s \<le> t * s" using kb j st by linarith
    then have jt: "int j \<le> t" using st by simp
    have "t * s \<le> t * 65536" using st by (intro mult_left_mono) auto
    with js st have "int j * s \<le> 262144 * t" by linarith
    then have "int j * s \<le> 2 ^ 18 * t" by simp
    moreover have "int j < 2 ^ 24" using jt st by simp
    moreover have "out' ! j = signal_at (stream_of b) ?r (int j)"
      using arg_cong [OF tk, of "\<lambda>xs. xs ! j"] j by simp
    ultimately show ?thesis using signal_at_near [OF assms(1,2), of "int j" "stream_of b"] by simp
  qed
  then show ?thesis by (auto simp: resampling_mono_def l)
qed

theorem resampling_mono_accurate_witness:
  "\<exists>k out' rs. resampling_mono [0, 100, 200, 300, 400, 500] (replicate 8 0) 44100 48000 6 resample0 =
     Some (k, out', rs) \<and>
     (\<forall>j < k. \<exists>p. \<bar>p - of_int (int j * 44100) / 48000\<bar> \<le> 1 / 16 \<and>
        \<bar>of_int (sint (out' ! j)) - lerp (stream_of [0, 100, 200, 300, 400, 500]) p\<bar> < 33 / 32)"
proof -
  have "rate_ok 44100" "rate_ok 48000" by (simp_all add: rate_ok_def)
  moreover have "block_ok 44100 48000 1 (length (replicate 8 (0 :: s16))) (length [0, 100, 200, 300, 400, 500 :: s16])"
    by (simp add: block_ok_def INPCM_DELAY_SIZE_def)
  ultimately show ?thesis
    using resampling_mono_accurate [of 44100 48000 "replicate 8 0" "[0, 100, 200, 300, 400, 500]"] by simp
qed

end
