(* ===== verification/Resample_Channels.thy ===== *)
theory Resample_Channels
  imports Resample_Signal
begin

text \<open>
  The converters for two channels against the converter for one.  \<open>channel c\<close> takes channel \<open>c\<close> out of
  interleaved samples; a stereo conversion is two conversions of one channel side by side, errors
  included, and the down mix is the conversion of the channel it picks.  So the cutting of a stream of
  one channel into blocks, which cannot be heard, carries over to two.
\<close>

section \<open>Channels\<close>

definition channel :: "nat \<Rightarrow> s16 list \<Rightarrow> s16 list" where
  "channel c xs = map (\<lambda>i. xs ! (2 * i + c)) [0..<length xs div 2]"

lemma length_channel [simp]: "length (channel c xs) = length xs div 2"
  by (simp add: channel_def)

lemma nth_channel: "i < length xs div 2 \<Longrightarrow> channel c xs ! i = xs ! (2 * i + c)"
  by (simp add: channel_def)

lemma channel_index: "i < l div 2 \<Longrightarrow> c < 2 \<Longrightarrow> 2 * i + c < (l :: nat)"
  by presburger

lemma channel_bound:
  assumes "even (length xs)" and "c < 2"
  shows "0 \<le> n \<and> n < int (length (channel c xs)) \<longleftrightarrow> 0 \<le> 2 * n + int c \<and> 2 * n + int c < int (length xs)"
  using assms by (auto elim!: evenE)

lemma rd_channel:
  assumes "even (length xs)" and "c < 2"
  shows "rd (channel c xs) n = rd xs (2 * n + int c)"
proof (cases "0 \<le> n \<and> n < int (length (channel c xs))")
  case True
  then have "channel c xs ! nat n = xs ! (2 * nat n + c)" by (intro nth_channel) auto
  moreover have "nat (2 * n + int c) = 2 * nat n + c" using True by (simp add: nat_add_distrib nat_mult_distrib)
  ultimately show ?thesis using True channel_bound [OF assms, of n] by (simp add: rd_def)
next
  case False
  with channel_bound [OF assms, of n] show ?thesis unfolding rd_def by (simp only: if_False)
qed

lemma channel_update:
  assumes "c < 2" and "c' < 2"
  shows "channel c (xs[2 * i + c' := v]) = (if c = c' then (channel c xs)[i := v] else channel c xs)"
proof (rule nth_equalityI)
  fix j assume "j < length (channel c (xs[2 * i + c' := v]))"
  then have j: "j < length xs div 2" by simp
  have "2 * j + c = 2 * i + c' \<longleftrightarrow> j = i \<and> c = c'" using assms by presburger
  with j channel_index [OF j assms(1)] show "channel c (xs[2 * i + c' := v]) ! j =
      (if c = c' then (channel c xs)[i := v] else channel c xs) ! j"
    by (auto simp: nth_channel nth_list_update)
qed simp

lemma wr_channel:
  assumes "even (length xs)" and "c < 2"
  shows "wr (channel c xs) n v = map_option (channel c) (wr xs (2 * n + int c) v)"
proof (cases "0 \<le> n \<and> n < int (length (channel c xs))")
  case True
  have "nat (2 * n + int c) = 2 * nat n + c" using True by (simp add: nat_add_distrib nat_mult_distrib)
  with True channel_bound [OF assms, of n] channel_update [OF assms(2,2)] show ?thesis by (simp add: wr_def)
next
  case False
  with channel_bound [OF assms, of n] show ?thesis unfolding wr_def by (simp only: if_False option.map)
qed

lemma wr_other_channel:
  assumes "c < 2" and "c' < 2" and "c \<noteq> c'" and "wr xs (2 * int n + int c') v = Some ys"
  shows "channel c ys = channel c xs"
proof -
  have "nat (2 * int n + int c') = 2 * n + c'" by simp
  with assms channel_update [OF assms(1,2), of xs n v] show ?thesis by (auto simp: wr_def split: if_splits)
qed

lemma channel_take: "c < 2 \<Longrightarrow> channel c (take (2 * n) xs) = take n (channel c xs)"
proof (rule nth_equalityI)
  assume c: "c < 2"
  show l: "length (channel c (take (2 * n) xs)) = length (take n (channel c xs))"
    by (simp add: min_def) presburger
  fix i assume i: "i < length (channel c (take (2 * n) xs))"
  then have "i < n" "i < length xs div 2" using l by simp_all
  with i c channel_index [of i n c] show "channel c (take (2 * n) xs) ! i = take n (channel c xs) ! i"
    by (simp add: nth_channel)
qed

lemma channel_drop: "channel c (drop (2 * n) xs) = drop n (channel c xs)"
  by (rule nth_equalityI) (auto simp: nth_channel algebra_simps)

lemma channel_append:
  assumes "length xs = 2 * n" and "c < 2"
  shows "channel c (xs @ ys) = channel c xs @ channel c ys"
proof (rule nth_equalityI)
  show "length (channel c (xs @ ys)) = length (channel c xs @ channel c ys)" using assms by simp
  fix i assume "i < length (channel c (xs @ ys))"
  then have i: "i < n + length ys div 2" using assms by simp
  show "channel c (xs @ ys) ! i = (channel c xs @ channel c ys) ! i"
  proof (cases "i < n")
    case True
    with assms i show ?thesis by (simp add: nth_channel nth_append)
  next
    case False
    then have "2 * i + c - 2 * n = 2 * (i - n) + c" "\<not> 2 * i + c < 2 * n" by simp_all
    with assms i False show ?thesis by (simp add: nth_channel nth_append)
  qed
qed

lemma copy_range_channel:
  assumes "even (length dst)" "even (length src)" "c < 2"
  shows "copy_range (channel c dst) (channel c src) from n =
    map_option (channel c) (copy_range dst src (2 * from) (2 * n))"
proof (cases "0 \<le> from \<and> from + int n \<le> int (length (channel c src)) \<and> n \<le> length (channel c dst)")
  case True
  then have b: "0 \<le> 2 * from \<and> 2 * from + int (2 * n) \<le> int (length src) \<and> 2 * n \<le> length dst"
    using assms by (auto elim!: evenE)
  have f: "nat (2 * from) = 2 * nat from" using True by (simp add: nat_mult_distrib)
  have l: "length (take (2 * n) (drop (2 * nat from) src)) = 2 * n" using b by auto
  show ?thesis
    unfolding copy_range_def if_P [OF True] if_P [OF b] f option.map
    by (simp only: channel_append [OF l assms(3)] channel_take [OF assms(3)] channel_drop)
next
  case False
  then have "\<not> (0 \<le> 2 * from \<and> 2 * from + int (2 * n) \<le> int (length src) \<and> 2 * n \<le> length dst)"
    using assms by (auto elim!: evenE)
  with False show ?thesis unfolding copy_range_def by (simp only: if_False option.map)
qed

section \<open>The conversion loop\<close>

lemma sample_in_channel:
  assumes "even (length d)" "even (length b)" "c < 2"
  shows "sample_in (channel c d) INPCM_DELAY_SIZE 1 0 (channel c b) 1 0 n =
    sample_in d (INPCM_DELAY_SIZE * 2) 2 c b 2 c n"
  using rd_channel [OF assms(1,3), of "int INPCM_DELAY_SIZE + n"] rd_channel [OF assms(2,3), of n]
  by (simp add: sample_in_def algebra_simps)

lemma one_channel_channel:
  assumes "even (length out)" and "c < 2"
  shows "one_channel smp n w0 w1 (channel c out) k =
    map_option (channel c) (one_channel smp n w0 w1 out (2 * k + int c))"
  by (simp add: one_channel_def wr_channel [OF assms] split: option.splits)

text \<open>Either both channels can be converted or none.\<close>

lemma rd_None: "rd xs i = None \<longleftrightarrow> \<not> (0 \<le> i \<and> i < int (length xs))"
  by (simp add: rd_def)

lemma wr_None: "wr xs i v = None \<longleftrightarrow> \<not> (0 \<le> i \<and> i < int (length xs))"
  by (simp add: wr_def)

lemma one_channel_None:
  "one_channel smp n w0 w1 out k = None \<longleftrightarrow>
     smp n = None \<or> smp (n + 1) = None \<or> \<not> (0 \<le> k \<and> k < int (length out))"
  by (auto simp: one_channel_def wr_None split: option.splits)

lemma sample_in_None:
  "length d = length d' \<Longrightarrow> length b = length b' \<Longrightarrow>
     sample_in d z st c b st' c' n = None \<longleftrightarrow> sample_in d' z st c b' st' c' n = None"
  by (simp add: sample_in_def rd_None)

lemma dual_loop_channel:
  "even (length b) \<Longrightarrow> even (length out) \<Longrightarrow> even (length (rs_inpcm rs)) \<Longrightarrow> c < 2 \<Longrightarrow>
     mono_loop (channel c b) r I (rs\<lparr>rs_inpcm := channel c (rs_inpcm rs), hp_mem := h\<rparr>) k (channel c out) =
     map_option (\<lambda>(k, out, d). (k, channel c out, channel c d)) (dual_loop b r I rs k out)"
proof (induction b r I rs k out rule: dual_loop.induct)
  case (1 b r I rs k out)
  obtain n0 w0 w1 where pos: "position r (rs_outnum rs + int k) = (n0, w0, w1)"
    by (cases "position r (rs_outnum rs + int k)")
  let ?n = "n0 - rs_innum rs"
  let ?smp = "\<lambda>c. sample_in (rs_inpcm rs) (INPCM_DELAY_SIZE * 2) 2 c b 2 c"
  let ?rs = "rs\<lparr>rs_inpcm := channel c (rs_inpcm rs), hp_mem := h\<rparr>"
  note ev = "1.prems"
  note smp = sample_in_channel [OF ev(3,1)]
  have delay: "rs_inpcm ?rs = channel c (rs_inpcm rs)" by simp
  note M = mono_loop.simps [of "channel c b" r I ?rs k "channel c out"]
  note D = dual_loop.simps [of b r I rs k out]
  have one: "one_channel (?smp c') ?n w0 w1 o' (2 * int k + int c') = None \<longleftrightarrow>
      one_channel (?smp c) ?n w0 w1 out (2 * int k + int c) = None" if "length o' = length out" "c' < 2" for o' c'
  proof -
    have "?smp c' x = None \<longleftrightarrow> ?smp c x = None" for x
      unfolding smp [OF that(2), symmetric] smp [OF ev(4), symmetric] by (rule sample_in_None) simp_all
    moreover have "2 * int k + int c' < int (length o') \<longleftrightarrow> 2 * int k + int c < int (length out)"
      using channel_bound [of out c "int k"] channel_bound [of o' c' "int k"] that ev(2,4) by simp
    ultimately show ?thesis by (simp add: one_channel_None)
  qed
  show ?case
  proof (cases "?n + 1 \<ge> I")
    case True
    have "2 * (I - int INPCM_DELAY_SIZE) = I * 2 - int INPCM_DELAY_SIZE * 2" by simp
    with copy_range_channel [OF ev(3,1,4), of "I - int INPCM_DELAY_SIZE" INPCM_DELAY_SIZE]
    have "copy_range (channel c (rs_inpcm rs)) (channel c b) (I - int INPCM_DELAY_SIZE) INPCM_DELAY_SIZE =
        map_option (channel c) (copy_range (rs_inpcm rs) b (I * 2 - int INPCM_DELAY_SIZE * 2) (INPCM_DELAY_SIZE * 2))"
      by (simp only: mult.commute [of 2 INPCM_DELAY_SIZE])
    with True pos show ?thesis unfolding M D by (simp split: option.split)
  next
    case False
    have m: "one_channel (sample_in (rs_inpcm ?rs) INPCM_DELAY_SIZE 1 0 (channel c b) 1 0) ?n w0 w1 (channel c out) (int k) =
        map_option (channel c) (one_channel (?smp c) ?n w0 w1 out (2 * int k + int c))"
      unfolding one_channel_channel [OF ev(2,4), symmetric] delay smp [OF ev(4), THEN ext] ..
    show ?thesis
    proof (cases "one_channel (?smp c) ?n w0 w1 out (2 * int k + int c) = None")
      case True
      then have "one_channel (?smp 0) ?n w0 w1 out (int k * 2) = None"
        using one [of out 0] by (simp add: mult.commute)
      with False True m pos show ?thesis unfolding M D by simp
    next
      case some: False
      obtain o1 where o1: "one_channel (?smp 0) ?n w0 w1 out (int k * 2) = Some o1"
        using some one [of out 0] by (auto simp: mult.commute)
      then have l1: "length o1 = length out" using one_channel_length by blast
      obtain o2 where o2: "one_channel (?smp 1) ?n w0 w1 o1 (int k * 2 + 1) = Some o2"
        using some one [of o1 1] l1 by (auto simp: mult.commute)
      then have l2: "length o2 = length out" and kl: "2 * k + 1 < length out"
        using one_channel_length [OF o2] l1 by auto
      have u1: "\<exists>v. wr out (2 * int k + int 0) v = Some o1" "\<exists>v. wr o1 (2 * int k + int 1) v = Some o2"
        using o1 o2 by (auto simp: one_channel_def mult.commute split: option.splits)
      have c: "one_channel (sample_in (rs_inpcm ?rs) INPCM_DELAY_SIZE 1 0 (channel c b) 1 0) ?n w0 w1 (channel c out) (int k) =
          Some (channel c o2)"
      proof (cases "c = 0")
        case True
        from u1(2) wr_other_channel [of 0 1 o1 k] have "channel 0 o2 = channel 0 o1" by auto
        with o1 True show ?thesis unfolding m by (simp add: mult.commute)
      next
        case False
        then have c1: "c = 1" using ev(4) by simp
        from u1(1) wr_other_channel [of 1 0 out k] have "channel 1 o1 = channel 1 out" by auto
        moreover have "even (length o1)" using ev(2) l1 by simp
        ultimately have "map_option (channel 1) (one_channel (?smp 1) ?n w0 w1 out (2 * int k + int 1)) =
            map_option (channel 1) (one_channel (?smp 1) ?n w0 w1 o1 (2 * int k + int 1))"
          using one_channel_channel [OF ev(2), of 1] one_channel_channel [of o1 1] by (metis one_less_numeral_iff semiring_norm(76))
        with o2 c1 show ?thesis unfolding m by (simp add: mult.commute)
      qed
      have kd: "k < length out" "k < length (channel c out)" using kl by simp_all
      have "even (length o2)" using ev(2) l2 by simp
      from "1.IH" [OF pos [symmetric] refl refl refl False o1 o2 kd(1) ev(1) this ev(3,4)]
      show ?thesis using False pos c o1 o2 kd unfolding M D by simp
    qed
  qed
qed

section \<open>The filter\<close>

lemma dc_loop_channel:
  "even (length pcm) \<Longrightarrow> c < 2 \<Longrightarrow> st = 2 \<Longrightarrow> len = 2 * l \<Longrightarrow> j = 2 * i + c \<Longrightarrow>
     dc_loop coef 1 l i (channel c pcm) h =
       map_option (\<lambda>(p, h). (channel c p, h)) (dc_loop coef st len j pcm h)"
proof (induction coef st len j pcm h arbitrary: i rule: dc_loop.induct)
  case (1 coef st len j pcm h)
  note p = "1.prems"
  show ?case
  proof (cases "j < len \<and> 0 < st")
    case True
    then have i: "i < l" using p by simp
    have "2 * int i + int c = int j" using p by simp
    with rd_channel [OF p(1,2), of "int i"] have r: "rd (channel c pcm) (int i) = rd pcm (int j)" by simp
    note S = dc_loop.simps [of coef 1 l i "channel c pcm" h] dc_loop.simps [of coef st len j pcm h]
    show ?thesis
    proof (cases "rd pcm (int j)")
      case None
      with r True i show ?thesis unfolding S by simp
    next
      case (Some x)
      obtain v h' where d: "dc_step coef x h = (v, h')" by (cases "dc_step coef x h")
      have "(channel c pcm)[i := v] = channel c (pcm[j := v])"
        using channel_update [OF p(2,2), of pcm i v] p by simp
      moreover have "even (length (pcm[j := v]))" "j + st = 2 * (i + 1) + c" using p by simp_all
      ultimately show ?thesis
        using "1.IH" [OF True Some d [symmetric] refl, of "i + 1"] p True i r Some d unfolding S by simp
    qed
  next
    case False
    then have "\<not> i < l" using p by simp
    then show ?thesis
      unfolding dc_loop.simps [of coef 1 l i "channel c pcm" h] dc_loop.simps [of coef st len j pcm h]
      by (simp add: if_not_P [OF False])
  qed
qed

text \<open>Filtering one channel leaves the other as it is.\<close>

lemma dc_loop_other:
  "dc_loop coef st len j pcm h = Some (pcm', h') \<Longrightarrow> c < 2 \<Longrightarrow> c' < 2 \<Longrightarrow> c \<noteq> c' \<Longrightarrow> st = 2 \<Longrightarrow> j = 2 * i + c' \<Longrightarrow>
     channel c pcm' = channel c pcm"
proof (induction coef st len j pcm h arbitrary: i rule: dc_loop.induct)
  case (1 coef st len j pcm h)
  note S = "1.prems"(1) [unfolded dc_loop.simps [of coef st len j pcm h]]
  show ?case
  proof (cases "j < len \<and> 0 < st")
    case True
    then obtain x where x: "rd pcm (int j) = Some x" using S by (auto split: option.splits)
    obtain v h1 where d: "dc_step coef x h = (v, h1)" by (cases "dc_step coef x h")
    have "dc_loop coef st len (j + st) (pcm[j := v]) h1 = Some (pcm', h')" using S True x d by simp
    moreover have "j + st = 2 * (i + 1) + c'" using "1.prems" by simp
    ultimately have "channel c pcm' = channel c (pcm[j := v])"
      using "1.IH" [OF True x d [symmetric] refl, of "i + 1"] "1.prems"(2-5) by blast
    with channel_update [OF "1.prems"(2,3), of pcm i v] "1.prems"(4,6) show ?thesis by simp
  next
    case False
    with S show ?thesis by auto
  qed
qed

lemma dc_loop_None:
  "dc_loop coef st len j pcm h = None \<longleftrightarrow> (\<exists>i. 0 < st \<and> j + i * st < len \<and> length pcm \<le> j + i * st)"
proof (induction coef st len j pcm h rule: dc_loop.induct)
  case (1 coef st len j pcm h)
  show ?case
  proof (cases "j < len \<and> 0 < st")
    case True
    show ?thesis
    proof (cases "rd pcm (int j)")
      case None
      then have "length pcm \<le> j" by (simp add: rd_def split: if_splits)
      with True None show ?thesis
        unfolding dc_loop.simps [of coef st len j pcm h] by (auto intro!: exI [of _ 0])
    next
      case (Some x)
      obtain v h1 where d: "dc_step coef x h = (v, h1)" by (cases "dc_step coef x h")
      have l: "j < length pcm" using Some by (simp add: rd_def split: if_splits)
      have "(\<exists>i. j + st + i * st < len \<and> length pcm \<le> j + st + i * st) \<longleftrightarrow> (\<exists>i. j + i * st < len \<and> length pcm \<le> j + i * st)"
      proof (intro iffI; elim exE)
        fix i assume "j + st + i * st < len \<and> length pcm \<le> j + st + i * st"
        then show "\<exists>i. j + i * st < len \<and> length pcm \<le> j + i * st"
          by (intro exI [of _ "Suc i"]) simp
      next
        fix i assume i: "j + i * st < len \<and> length pcm \<le> j + i * st"
        with l obtain i' where "i = Suc i'" by (cases i) auto
        with i show "\<exists>i. j + st + i * st < len \<and> length pcm \<le> j + st + i * st"
          by (intro exI [of _ i']) simp
      qed
      with "1.IH" [OF True Some d [symmetric] refl] True Some d show ?thesis
        unfolding dc_loop.simps [of coef st len j pcm h] by simp
    qed
  next
    case False
    then show ?thesis unfolding dc_loop.simps [of coef st len j pcm h] by auto
  qed
qed

text \<open>The filter states of one channel.\<close>

fun channel_mem :: "nat \<Rightarrow> rat \<times> rat \<times> rat \<times> rat \<Rightarrow> rat \<times> rat \<times> rat \<times> rat" where
  "channel_mem c (h0, h1, h2, h3) = (if c = 0 then (h0, h1, 0, 0) else (h2, h3, 0, 0))"

lemma dc_reject_channel:
  assumes e: "even (length pcm)" and c: "c < 2" and h: "hm = (h0, h1, h2, h3)"
  shows "dc_reject_mono (channel c pcm) hz (channel_mem c hm) l Fs =
    map_option (\<lambda>(p, hm). (channel c p, channel_mem c hm)) (dc_reject_dual pcm hz hm (l * 2) Fs)"
proof -
  let ?k = "dc_coef hz Fs"
  have none: "dc_loop ?k 2 (l * 2) 0 q g = None \<longleftrightarrow> dc_loop ?k 2 (l * 2) 1 q' g' = None"
    if "length q = length pcm" "length q' = length pcm" for q q' g g'
    using e unfolding dc_loop_None that by presburger
  note A = dc_loop_channel [OF e, of 0 2 "l * 2" l 0 0 ?k "(h0, h1)"]
  note E = dc_loop_channel [OF e, of 1 2 "l * 2" l 1 0 ?k "(h2, h3)"]
  show ?thesis
  proof (cases "dc_loop ?k 2 (l * 2) 0 pcm (h0, h1)")
    case None
    have "dc_loop ?k 2 (l * 2) 1 pcm (h2, h3) = None"
      using None none by blast
    moreover have "c = 0 \<or> c = 1" using c by auto
    ultimately show ?thesis using None A E by (auto simp: dc_reject_mono_def dc_reject_dual_def h)
  next
    case (Some r)
    obtain p1 g0 g1 where r: "r = (p1, g0, g1)" by (cases r)
    note l1 = dc_loop_length [OF Some [unfolded r]]
    have c1: "channel 1 p1 = channel 1 pcm" by (rule dc_loop_other [OF Some [unfolded r], of 1 0 0]) simp_all
    have c0: "channel 0 p2 = channel 0 p1" if "dc_loop ?k 2 (l * 2) 1 p1 (h2, h3) = Some (p2, g)" for p2 g
      by (rule dc_loop_other [OF that, of 0 1 0]) simp_all
    have e1: "even (length p1)" using e l1 by simp
    note E1 = dc_loop_channel [OF e1, of 1 2 "l * 2" l 1 0 ?k "(h2, h3)"]
    have n1: "dc_loop ?k 2 (l * 2) 1 p1 (h2, h3) \<noteq> None"
      using Some none [OF refl l1] by (metis option.distinct(1))
    then obtain p2 g2 g3 where p2: "dc_loop ?k 2 (l * 2) 1 p1 (h2, h3) = Some (p2, g2, g3)" by auto
    show ?thesis
    proof (cases "c = 0")
      case True
      with A Some r p2 c0 [OF p2] show ?thesis by (simp add: dc_reject_mono_def dc_reject_dual_def h)
    next
      case False
      with c have "c = 1" by simp
      with E1 c1 Some r p2 show ?thesis by (simp add: dc_reject_mono_def dc_reject_dual_def h)
    qed
  qed
qed

section \<open>A block\<close>

definition channel_state :: "nat \<Rightarrow> resample \<Rightarrow> resample" where
  "channel_state c rs = rs\<lparr>rs_inpcm := channel c (rs_inpcm rs), hp_mem := channel_mem c (hp_mem rs)\<rparr>"

lemma count_block_channel:
  "count_block s t i k (rs\<lparr>rs_inpcm := d, hp_mem := h\<rparr>) = (count_block s t i k rs)\<lparr>rs_inpcm := d, hp_mem := h\<rparr>"
  by (simp add: count_block_def Let_def)

lemma process_dual_channel:
  assumes ev: "even (length b)" "even (length out)" "even (length (rs_inpcm rs))" and c: "c < 2"
  shows "resampling_process_mono (channel c b) (channel c out) s t (int (length b div 2)) (channel_state c rs) =
    map_option (\<lambda>(k, out, rs). (k div 2, channel c out, channel_state c rs))
      (resampling_process_dual b out s t (int (length b)) rs)"
proof -
  let ?I = "int (length b div 2)"
  have I: "cdiv (int (length b)) 2 = ?I" by (simp add: cdiv_nonneg zdiv_int)
  note L = dual_loop_channel [OF ev c, of "rate_ratio s t" ?I "channel_mem c (hp_mem rs)" 0]
  show ?thesis
  proof (cases "dual_loop b (rate_ratio s t) ?I rs 0 out")
    case None
    with L show ?thesis
      by (simp add: resampling_process_mono_def resampling_process_dual_def resampling_mono_def
          resampling_dual_def channel_state_def I Let_def)
  next
    case (Some r)
    obtain k o1 d where r: "r = (k, o1, d)" by (cases r)
    have "length o1 = length out" using dual_loop_length [OF Some [unfolded r]] by simp
    then have e1: "even (length o1)" using ev(2) by simp
    obtain h0 h1 h2 h3 where h: "hp_mem rs = (h0, h1, h2, h3)" by (cases "hp_mem rs")
    note R = dc_reject_channel [OF e1 c h, of 3 k t]
    have m: "hp_mem (count_block s t ?I (int k) (rs\<lparr>rs_inpcm := d\<rparr>)) = hp_mem rs"
      by (simp add: count_block_def Let_def)
    have cb: "count_block s t ?I (int k) ((channel_state c rs)\<lparr>rs_inpcm := channel c d\<rparr>) =
      channel_state c (count_block s t ?I (int k) (rs\<lparr>rs_inpcm := d\<rparr>))"
      by (cases rs) (simp add: count_block_def channel_state_def Let_def)
    have l: "mono_loop (channel c b) (rate_ratio s t) ?I (channel_state c rs) 0 (channel c out) =
        Some (k, channel c o1, channel c d)"
      using L Some r by (simp add: channel_state_def)
    have cs: "(channel_state c x)\<lparr>hp_mem := channel_mem c hm\<rparr> = channel_state c (x\<lparr>hp_mem := hm\<rparr>)"
      "hp_mem (channel_state c x) = channel_mem c (hp_mem x)" for x hm
      by (simp_all add: channel_state_def)
    have "resampling_process_mono (channel c b) (channel c out) s t ?I (channel_state c rs) =
        map_option (\<lambda>(p, hm). (k, p, (channel_state c (count_block s t ?I (int k) (rs\<lparr>rs_inpcm := d\<rparr>)))\<lparr>hp_mem := hm\<rparr>))
          (dc_reject_mono (channel c o1) 3 (channel_mem c (hp_mem rs)) k t)"
      by (simp add: resampling_process_mono_def resampling_mono_def l cb cs m Let_def)
    also have "\<dots> = map_option (\<lambda>(k, out, rs). (k div 2, channel c out, channel_state c rs))
        (map_option (\<lambda>(p, hm). (k * 2, p, (count_block s t ?I (int k) (rs\<lparr>rs_inpcm := d\<rparr>))\<lparr>hp_mem := hm\<rparr>))
          (dc_reject_dual o1 3 (hp_mem rs) (k * 2) t))"
      unfolding R option.map_comp by (rule map_option_cong) (auto simp: channel_state_def)
    also have "map_option (\<lambda>(p, hm). (k * 2, p, (count_block s t ?I (int k) (rs\<lparr>rs_inpcm := d\<rparr>))\<lparr>hp_mem := hm\<rparr>))
          (dc_reject_dual o1 3 (hp_mem rs) (k * 2) t) = resampling_process_dual b out s t (int (length b)) rs"
      using Some r m by (simp add: resampling_process_dual_def resampling_dual_def I Let_def)
    finally show ?thesis .
  qed
qed

text \<open>
  C9. A stereo conversion is two conversions of one channel: for any stereo block, any buffers and any
  state of the converter, what \<open>resampling_process\<close> makes of channel \<open>c\<close> is what it makes of that
  channel alone, sample by sample, with the same count, the same next state, and it leaves its
  buffers exactly when the other does.  The channels never mix, neither in the interpolation nor in
  the delay line nor in the filter.
\<close>

theorem stereo_is_two_mono:
  assumes "even (length b)" and "even (length out)" and "even (length (rs_inpcm rs))" and "c < 2"
  shows "resampling_process (channel c b) (channel c out) s t (length b div 2) 1 (channel_state c rs) =
    map_option (\<lambda>(msgs, k, out, rs). (msgs, k div 2, channel c out, channel_state c rs))
      (resampling_process b out s t (length b) 2 rs)"
proof (cases "s = t")
  case True
  have "2 * (length b div 2) = length b" using assms(1) by simp
  with copy_range_channel [OF assms(2,1,4), of 0 "length b div 2"] True assms(1) show ?thesis
    by (simp add: resampling_process_def option.map_comp comp_def)
next
  case False
  with process_dual_channel [OF assms, of s t] assms(1) show ?thesis
    by (simp add: resampling_process_def option.map_comp comp_def split_def)
qed

theorem stereo_is_two_mono_witness:
  "resampling_process (channel 1 [1, 10, 2, 20, 3, 30, 4, 40, 5, 50, 6, 60, 7, 70]) (replicate 9 0) 44100 48000 7 1
      (channel_state 1 resample0) =
    map_option (\<lambda>(msgs, k, out, rs). (msgs, k div 2, channel 1 out, channel_state 1 rs))
      (resampling_process [1, 10, 2, 20, 3, 30, 4, 40, 5, 50, 6, 60, 7, 70] (replicate 18 0) 44100 48000 14 2 resample0)"
proof -
  let ?b = "[1, 10, 2, 20, 3, 30, 4, 40, 5, 50, 6, 60, 7, 70 :: s16]"
  have e: "even (length ?b)" "even (length (replicate 18 (0 :: s16)))" "even (length (rs_inpcm resample0))" "(1 :: nat) < 2"
    by (simp_all add: resample0_def)
  have "channel 1 (replicate 18 0) = replicate 9 (0 :: s16)"
    by (rule nth_equalityI) (simp_all add: nth_channel)
  moreover have "length ?b = 14" by simp
  moreover have "(14 :: nat) div 2 = 7" by simp
  ultimately show ?thesis using stereo_is_two_mono [OF e, of 44100 48000] by metis
qed

section \<open>The down mix\<close>

lemma fill_delay_eq:
  assumes "even (length b)" and "c < 2"
  shows "fill_delay d b (2 * f + int c) i n =
    (if n = 0 \<or> 0 \<le> f + int i \<and> f + int i + int n \<le> int (length (channel c b)) \<and> i + n \<le> length d
     then Some (take i d @ take n (drop (nat (f + int i)) (channel c b)) @ drop (i + n) d) else None)"
proof (induction n arbitrary: d i)
  case (Suc n)
  have r: "rd b (2 * f + int c + 2 * int i) = rd (channel c b) (f + int i)"
    using rd_channel [OF assms, of "f + int i"] by (simp add: algebra_simps)
  show ?case
  proof (cases "0 \<le> f + int i \<and> f + int i < int (length (channel c b)) \<and> i < length d")
    case True
    let ?j = "nat (f + int i)"
    let ?v = "channel c b ! ?j"
    have j: "?j < length (channel c b)" "nat (f + int (i + 1)) = Suc ?j" using True by auto
    have 1: "fill_delay d b (2 * f + int c) i (Suc n) = fill_delay (d[i := ?v]) b (2 * f + int c) (i + 1) n"
      using True r by (simp add: rd_def wr_def)
    have 2: "take (i + 1) (d[i := ?v]) = take i d @ [?v]" "drop (i + 1 + n) (d[i := ?v]) = drop (i + Suc n) d"
      using True by (simp_all add: take_Suc_conv_app_nth)
    have 3: "take (Suc n) (drop ?j (channel c b)) = ?v # take n (drop (Suc ?j) (channel c b))"
      using j(1) by (simp add: Cons_nth_drop_Suc [symmetric])
    have 4: "n = 0 \<or> 0 \<le> f + int (i + 1) \<and> f + int (i + 1) + int n \<le> int (length (channel c b)) \<and> i + 1 + n \<le> length d \<longleftrightarrow>
        Suc n = 0 \<or> 0 \<le> f + int i \<and> f + int i + int (Suc n) \<le> int (length (channel c b)) \<and> i + Suc n \<le> length d"
      using True by auto
    show ?thesis unfolding 1 Suc.IH length_list_update 2 3 j(2) 4 by simp
  next
    case False
    then have "fill_delay d b (2 * f + int c) i (Suc n) = None"
      using r by (auto simp: rd_def wr_def)
    with False show ?thesis by auto
  qed
qed simp

lemma fill_delay_copy:
  assumes "even (length b)" and "c < 2"
  shows "fill_delay d b ((I - int INPCM_DELAY_SIZE) * 2 + int c) 0 INPCM_DELAY_SIZE =
    copy_range d (channel c b) (I - int INPCM_DELAY_SIZE) INPCM_DELAY_SIZE"
  using fill_delay_eq [OF assms, of d "I - int INPCM_DELAY_SIZE" 0 INPCM_DELAY_SIZE]
  by (simp add: copy_range_def INPCM_DELAY_SIZE_def mult.commute)

lemma down_loop_channel:
  "even (length b) \<Longrightarrow> c < 2 \<Longrightarrow> down_loop b c r I rs k out = mono_loop (channel c b) r I rs k out"
proof (induction b c r I rs k out rule: down_loop.induct)
  case (1 b c r I rs k out)
  obtain n0 w0 w1 where pos: "position r (rs_outnum rs + int k) = (n0, w0, w1)"
    by (cases "position r (rs_outnum rs + int k)")
  let ?n = "n0 - rs_innum rs"
  have smp: "sample_in (rs_inpcm rs) INPCM_DELAY_SIZE 1 0 (channel c b) 1 0 =
      sample_in (rs_inpcm rs) INPCM_DELAY_SIZE 1 0 b 2 c"
    using rd_channel [OF "1.prems"] by (simp add: sample_in_def fun_eq_iff)
  note U = down_loop.simps [of b c r I rs k out] mono_loop.simps [of "channel c b" r I rs k out]
  show ?case
  proof (cases "?n + 1 \<ge> I")
    case True
    with pos fill_delay_copy [OF "1.prems", of "rs_inpcm rs" I] show ?thesis unfolding U by simp
  next
    case False
    then show ?thesis
      unfolding U pos Let_def prod.case smp using "1.IH" [OF pos [symmetric] refl refl refl False _ _ "1.prems"]
      by (auto split: option.splits)
  qed
qed

lemma process_down_channel:
  assumes "even (length b)" and "c < 2"
  shows "resampling_process_dual_down_ch b c out s t (int (length b)) rs =
    resampling_process_mono (channel c b) out s t (int (length b div 2)) rs"
proof -
  have I: "cdiv (int (length b)) 2 = int (length b div 2)" by (simp add: cdiv_nonneg zdiv_int)
  show ?thesis
    by (simp add: resampling_process_dual_down_ch_def resampling_process_mono_def resampling_dual_down_ch_def
        resampling_mono_def down_loop_channel [OF assms] I Let_def)
qed

lemma pick_loop_channel:
  "even (length b) \<Longrightarrow> c < 2 \<Longrightarrow> n = length b \<Longrightarrow> i = 2 * k + c \<Longrightarrow> k \<le> length b div 2 \<Longrightarrow> k \<le> length out \<Longrightarrow>
     pick_loop b n i k out =
       (if length b div 2 \<le> length out
        then Some (length b div 2, take k out @ drop k (channel c b) @ drop (length b div 2) out) else None)"
proof (induction b n i k out rule: pick_loop.induct)
  case (1 b n i k out)
  note p = "1.prems" and U = pick_loop.simps [of b n i k out]
  show ?case
  proof (cases "i < n")
    case False
    with p have "k = length b div 2" by (auto elim!: evenE)
    with False p show ?thesis unfolding U by simp
  next
    case True
    with p have k: "k < length b div 2" by (auto elim!: evenE)
    have r: "rd b (int i) = Some (b ! i)" using True p(3) by (simp add: rd_def)
    show ?thesis
    proof (cases "k < length out")
      case False
      with True r k show ?thesis unfolding U by (simp add: wr_def)
    next
      case ko: True
      then have w: "wr out (int k) (b ! i) = Some (out[k := b ! i])" by (simp add: wr_def)
      have "i + 2 = 2 * (k + 1) + c" "k + 1 \<le> length b div 2" "k + 1 \<le> length (out[k := b ! i])" using p k ko by simp_all
      note IH = "1.IH" [OF True r w p(1-3) this]
      have "take (k + 1) (out[k := b ! i]) @ drop (k + 1) (channel c b) = take k out @ drop k (channel c b)"
        using ko k p(4) by (simp add: take_Suc_conv_app_nth nth_channel Cons_nth_drop_Suc [symmetric, of k "channel c b"])
      moreover have "drop (length b div 2) (out[k := b ! i]) = drop (length b div 2) out" using k by simp
      ultimately show ?thesis using True r w IH unfolding U by (simp only: option.case if_True length_list_update append_assoc [symmetric])
    qed
  qed
qed

text \<open>
  C10. The down mix is the conversion of the channel it picks: for any stereo block, buffer and
  state, at equal or different rates, \<open>resampling_process_down_channel\<close> gives what
  \<open>resampling_process\<close> gives for that channel alone, and leaves its buffers exactly when that does.
\<close>

theorem down_channel_is_mono:
  assumes "even (length b)" and "c < 2"
  shows "resampling_process_down_channel b out s t (length b) c rs =
    map_option snd (resampling_process (channel c b) out s t (length b div 2) 1 rs)"
proof (cases "s = t")
  case True
  with pick_loop_channel [OF assms refl, of c 0 out] assms(1) show ?thesis
    by (simp add: resampling_process_down_channel_def resampling_process_def copy_range_def and_one_eq
        even_iff_mod_2_eq_zero)
next
  case False
  with process_down_channel [OF assms, of out s t rs] assms(1) show ?thesis
    by (simp add: resampling_process_down_channel_def resampling_process_def and_one_eq even_iff_mod_2_eq_zero
        option.map_comp comp_def option.map_ident)
qed

theorem down_channel_is_mono_witness:
  "resampling_process_down_channel [1, 10, 2, 20, 3, 30] (replicate 4 0) 48000 48000 6 1 resample0 =
     Some (3, [10, 20, 30, 0], resample0)"
proof -
  have e: "even (length [1, 10, 2, 20, 3, 30 :: s16])" "(1 :: nat) < 2" by simp_all
  have "channel 1 [1, 10, 2, 20, 3, 30] = [10, 20, 30]" by code_simp
  moreover have "length [1, 10, 2, 20, 3, 30 :: s16] = 6" by simp
  ultimately have "resampling_process_down_channel [1, 10, 2, 20, 3, 30] (replicate 4 0) 48000 48000 6 1 resample0 =
      map_option snd (resampling_process [10, 20, 30] (replicate 4 0) 48000 48000 (6 div 2) 1 resample0)"
    using down_channel_is_mono [OF e, of "replicate 4 0" 48000 48000 resample0] by metis
  also have "\<dots> = Some (3, [10, 20, 30, 0], resample0)"
    by (simp add: resampling_process_def copy_range_def)
  finally show ?thesis .
qed

section \<open>A stereo stream\<close>

text \<open>The converter for one channel looks at the first six entries of the delay line only.\<close>

definition short :: "resample \<Rightarrow> resample" where
  "short rs = rs\<lparr>rs_inpcm := take INPCM_DELAY_SIZE (rs_inpcm rs)\<rparr>"

lemma mono_loop_short:
  "INPCM_DELAY_SIZE \<le> length (rs_inpcm rs) \<Longrightarrow>
     mono_loop b r I (short rs) k out =
       map_option (\<lambda>(k, out, d). (k, out, take INPCM_DELAY_SIZE d)) (mono_loop b r I rs k out)"
proof (induction b r I rs k out rule: mono_loop.induct)
  case (1 b r I rs k out)
  obtain n0 w0 w1 where pos: "position r (rs_outnum rs + int k) = (n0, w0, w1)"
    by (cases "position r (rs_outnum rs + int k)")
  let ?n = "n0 - rs_innum rs"
  let ?smp = "\<lambda>d. sample_in d INPCM_DELAY_SIZE 1 0 b 1 0"
  have sh: "rs_inpcm (short rs) = take INPCM_DELAY_SIZE (rs_inpcm rs)" "rs_innum (short rs) = rs_innum rs"
    "rs_outnum (short rs) = rs_outnum rs" by (simp_all add: short_def)
  have smp: "?smp (take INPCM_DELAY_SIZE (rs_inpcm rs)) = ?smp (rs_inpcm rs)"
    using "1.prems" by (auto simp: sample_in_def rd_def fun_eq_iff)
  note U = mono_loop.simps [of b r I "short rs" k out] mono_loop.simps [of b r I rs k out]
  show ?case
  proof (cases "?n + 1 \<ge> I")
    case True
    then show ?thesis using "1.prems" unfolding U sh pos by (auto simp: copy_range_def)
  next
    case False
    show ?thesis
    proof (cases "one_channel (?smp (rs_inpcm rs)) ?n w0 w1 out (int k)")
      case None
      with False show ?thesis unfolding U sh pos Let_def prod.case smp by simp
    next
      case (Some o1)
      note IH = "1.IH" [OF pos [symmetric] refl refl refl False Some _ "1.prems"]
      from False Some IH show ?thesis unfolding U sh pos Let_def prod.case smp by simp
    qed
  qed
qed

lemma process_mono_short:
  assumes "INPCM_DELAY_SIZE \<le> length (rs_inpcm rs)"
  shows "resampling_process_mono b out s t n (short rs) =
    map_option (\<lambda>(k, out, rs). (k, out, short rs)) (resampling_process_mono b out s t n rs)"
proof (cases "mono_loop b (rate_ratio s t) n rs 0 out")
  case None
  with mono_loop_short [OF assms] show ?thesis by (simp add: resampling_process_mono_def resampling_mono_def)
next
  case (Some x)
  obtain k o1 d where x: "x = (k, o1, d)" by (cases x)
  have cb: "count_block s t n (int k) ((short rs)\<lparr>rs_inpcm := take INPCM_DELAY_SIZE d\<rparr>) =
      short (count_block s t n (int k) (rs\<lparr>rs_inpcm := d\<rparr>))"
    by (cases rs) (simp add: count_block_def short_def Let_def)
  have hm: "hp_mem (short y) = hp_mem y" "(short y)\<lparr>hp_mem := h\<rparr> = short (y\<lparr>hp_mem := h\<rparr>)" for y h
    by (cases y; simp add: short_def)+
  show ?thesis
    using Some x mono_loop_short [OF assms, of b "rate_ratio s t" n 0 out]
    by (simp add: resampling_process_mono_def resampling_mono_def cb hm Let_def option.map_comp comp_def split_def)
qed

lemma mono_loop_delay: "mono_loop b r I rs k out = Some (k', out', d) \<Longrightarrow> length d = length (rs_inpcm rs)"
proof (induction b r I rs k out rule: mono_loop.induct)
  case (1 b r I rs k out)
  show ?case
    using "1.prems" "1.IH" copy_range_length
    by (subst (asm) mono_loop.simps) (fastforce simp: Let_def split: prod.splits if_splits option.splits)
qed

lemma dual_loop_delay: "dual_loop b r I rs k out = Some (k', out', d) \<Longrightarrow> length d = length (rs_inpcm rs)"
proof (induction b r I rs k out rule: dual_loop.induct)
  case (1 b r I rs k out)
  show ?case
    using "1.prems" "1.IH" copy_range_length
    by (subst (asm) dual_loop.simps) (fastforce simp: Let_def split: prod.splits if_splits option.splits)
qed

lemma process_mono_delay:
  "resampling_process_mono b out s t n rs = Some (k, out', rs') \<Longrightarrow> length (rs_inpcm rs') = length (rs_inpcm rs)"
  by (auto simp: resampling_process_mono_def resampling_mono_def count_block_def Let_def
      dest!: mono_loop_delay split: option.splits if_splits)

lemma convert_out_short:
  "INPCM_DELAY_SIZE \<le> length (rs_inpcm rs) \<Longrightarrow> convert_out s t bs out (short rs) = convert_out s t bs out rs"
proof (induction bs arbitrary: out rs)
  case (Cons b bs)
  show ?case
  proof (cases "s = t")
    case True
    with Cons.IH [OF Cons.prems] show ?thesis
      by (cases "copy_range out b 0 (length b)") (simp_all add: resampling_process_def)
  next
    case False
    show ?thesis
    proof (cases "resampling_process_mono b out s t (int (length b)) rs")
      case None
      with False process_mono_short [OF Cons.prems] show ?thesis by (simp add: resampling_process_def)
    next
      case (Some x)
      obtain k o1 rs1 where x: "x = (k, o1, rs1)" by (cases x)
      with process_mono_delay Some Cons.prems have "INPCM_DELAY_SIZE \<le> length (rs_inpcm rs1)" by metis
      with False Some x process_mono_short [OF Cons.prems] Cons.IH show ?thesis by (simp add: resampling_process_def)
    qed
  qed
qed simp

text \<open>The samples that a stereo stream gives.\<close>

fun convert_stereo :: "int \<Rightarrow> int \<Rightarrow> s16 list list \<Rightarrow> s16 list \<Rightarrow> resample \<Rightarrow> s16 list option" where
  "convert_stereo s t [] out rs = Some []"
| "convert_stereo s t (b # bs) out rs =
     (case resampling_process b out s t (length b) 2 rs of
        None \<Rightarrow> None
      | Some (_, k, out, rs) \<Rightarrow> map_option (\<lambda>ys. take k out @ ys) (convert_stereo s t bs out rs))"

lemma stereo_block:
  assumes p: "resampling_process b out s t (length b) 2 rs = Some (msgs, k, out', rs')"
    and ev: "even (length b)" "even (length out)" "even (length (rs_inpcm rs))"
  shows "even k \<and> k \<le> length out' \<and> length out' = length out \<and> even (length (rs_inpcm rs'))"
proof (cases "s = t")
  case True
  with p ev show ?thesis
    by (auto simp: resampling_process_def dest: copy_range_length)
next
  case False
  then have "resampling_process_dual b out s t (int (length b)) rs = Some (k, out', rs')"
    using p ev by (auto simp: resampling_process_def)
  then obtain j o1 d hm where l: "dual_loop b (rate_ratio s t) (cdiv (int (length b)) 2) rs 0 out = Some (j, o1, d)"
    and k: "k = j * 2" and r: "rs_inpcm rs' = d"
    and f: "dc_reject_dual o1 3 (hp_mem rs) (j * 2) t = Some (out', hm)"
    by (auto simp: resampling_process_dual_def resampling_dual_def count_block_def Let_def split: option.splits if_splits)
  have lo: "length out' = length o1"
    using f by (cases "hp_mem rs") (auto simp: dc_reject_dual_def dest!: dc_loop_length split: option.splits)
  have "length d = length (rs_inpcm rs)" by (rule dual_loop_delay [OF l])
  with dual_loop_length [OF l] lo k r ev show ?thesis by auto
qed

lemma convert_stereo_channel:
  assumes c: "c < 2"
  shows "list_all (\<lambda>b. even (length b)) bs \<Longrightarrow> even (length out) \<Longrightarrow> even (length (rs_inpcm rs)) \<Longrightarrow>
    convert_out s t (map (channel c) bs) (channel c out) (channel_state c rs) =
      map_option (channel c) (convert_stereo s t bs out rs)"
proof (induction bs arbitrary: out rs)
  case (Cons b bs)
  have ev: "even (length b)" using Cons.prems(1) by simp
  note S = stereo_is_two_mono [OF ev Cons.prems(2,3) c, of s t]
  show ?case
  proof (cases "resampling_process b out s t (length b) 2 rs")
    case None
    with S show ?thesis by simp
  next
    case (Some x)
    obtain msgs k o1 rs1 where x: "x = (msgs, k, o1, rs1)" by (cases x)
    have st: "even k" "k \<le> length o1" "length o1 = length out" "even (length (rs_inpcm rs1))"
      using stereo_block [OF Some [unfolded x] ev Cons.prems(2,3)] by simp_all
    have IH: "convert_out s t (map (channel c) bs) (channel c o1) (channel_state c rs1) =
        map_option (channel c) (convert_stereo s t bs o1 rs1)"
      by (rule Cons.IH) (use Cons.prems st in simp_all)
    have kk: "2 * (k div 2) = k" using st(1) by simp
    have "length (take k o1) = 2 * (k div 2)" using st(2) kk by simp
    from channel_append [OF this c] channel_take [OF c, of "k div 2" o1]
    have "channel c (take k o1 @ ys) = take (k div 2) (channel c o1) @ channel c ys" for ys by (simp add: kk)
    with S Some x IH show ?thesis by (simp add: option.map_comp comp_def)
  qed
qed (simp add: channel_def)

lemma convert_stereo_even:
  "list_all (\<lambda>b. even (length b)) bs \<Longrightarrow> even (length out) \<Longrightarrow> even (length (rs_inpcm rs)) \<Longrightarrow>
     convert_stereo s t bs out rs = Some ys \<Longrightarrow> even (length ys)"
proof (induction bs arbitrary: out rs ys)
  case (Cons b bs)
  obtain msgs k o1 rs1 zs where x: "resampling_process b out s t (length b) 2 rs = Some (msgs, k, o1, rs1)"
    and z: "convert_stereo s t bs o1 rs1 = Some zs" "ys = take k o1 @ zs"
    using Cons.prems(4) by (auto split: option.splits)
  have "even (length b)" using Cons.prems(1) by simp
  from stereo_block [OF x this Cons.prems(2,3)] have k: "even k" "k \<le> length o1" "length o1 = length out"
    "even (length (rs_inpcm rs1))" by simp_all
  have "even (length zs)" by (rule Cons.IH [OF _ _ k(4) z(1)]) (use Cons.prems k in simp_all)
  with z(2) k show ?case by simp
qed simp

lemma channels_eq:
  assumes "even (length xs)" "even (length ys)" and "channel 0 xs = channel 0 ys" and "channel 1 xs = channel 1 ys"
  shows "xs = ys"
proof (rule nth_equalityI)
  have "length xs div 2 = length ys div 2" using arg_cong [OF assms(3), of length] by simp
  then show l: "length xs = length ys" using assms(1,2) by (auto elim!: evenE)
  fix i assume i: "i < length xs"
  then have d: "i div 2 < length xs div 2" using assms(1) by (auto elim!: evenE)
  have n: "channel c xs ! (i div 2) = channel c ys ! (i div 2)" if "c = 0 \<or> c = 1" for c
    using assms(3,4) that by auto
  have "i mod 2 = 0 \<or> i mod 2 = 1" by auto
  from n [OF this] d l have "xs ! (2 * (i div 2) + i mod 2) = ys ! (2 * (i div 2) + i mod 2)"
    by (simp only: nth_channel)
  then show "xs ! i = ys ! i" by simp
qed

lemma channel_concat:
  "c < 2 \<Longrightarrow> list_all (\<lambda>b. even (length b)) bs \<Longrightarrow> channel c (concat bs) = concat (map (channel c) bs)"
proof (induction bs)
  case (Cons b bs)
  then have "length b = 2 * (length b div 2)" by simp
  from channel_append [OF this Cons.prems(1)] Cons show ?case by simp
qed (simp add: channel_def)


lemma stereo_same_samples:
  assumes r: "rate_ok s" "rate_ok t" and e: "concat bs = concat bs'" and l: "int (length (concat bs)) \<le> 2 * s"
    and b: "list_all (\<lambda>b. even (length b) \<and> block_ok s t 2 (length out) (length b div 2)) bs"
    and b': "list_all (\<lambda>b. even (length b) \<and> block_ok s t 2 (length out') (length b div 2)) bs'"
    and out: "even (length out)" "even (length out')"
  shows "\<exists>ys. convert_stereo s t bs out resample0 = Some ys \<and> convert_stereo s t bs' out' resample0 = Some ys"
proof -
  have evs: "list_all (\<lambda>b. even (length b)) bs" "list_all (\<lambda>b. even (length b)) bs'"
    using b b' by (auto simp: list_all_iff)
  have r0: "even (length (rs_inpcm resample0))" "INPCM_DELAY_SIZE \<le> length (rs_inpcm resample0)"
    by (simp_all add: resample0_def)
  have st: "channel_state c resample0 = short resample0" if "c < 2" for c
  proof -
    have "channel c (replicate (INPCM_DELAY_SIZE * 2) 0) = replicate INPCM_DELAY_SIZE (0 :: s16)"
      using that by (intro nth_equalityI) (auto simp: nth_channel INPCM_DELAY_SIZE_def)
    then show ?thesis by (simp add: channel_state_def short_def resample0_def)
  qed
  have one: "\<exists>y. map_option (channel c) (convert_stereo s t bs out resample0) = Some y \<and>
      map_option (channel c) (convert_stereo s t bs' out' resample0) = Some y" if c: "c < 2" for c
  proof -
    have ce: "concat (map (channel c) bs) = concat (map (channel c) bs')"
      using channel_concat [OF c evs(1)] channel_concat [OF c evs(2)] e by simp
    have cl: "int (length (concat (map (channel c) bs))) \<le> s"
      using l unfolding channel_concat [OF c evs(1), symmetric] length_channel by linarith
    have bo: "list_all (\<lambda>b. block_ok s t 1 (length (channel c q)) (length b)) (map (channel c) cs)"
      if "list_all (\<lambda>b. even (length b) \<and> block_ok s t 2 (length q) (length b div 2)) cs" for q cs
      using that by (auto simp: list_all_iff block_ok_def)
    from mono_same_samples [OF r ce cl bo [OF b] bo [OF b']]
    show ?thesis
      unfolding convert_stereo_channel [OF c evs(1) out(1) r0(1), symmetric]
        convert_stereo_channel [OF c evs(2) out(2) r0(1), symmetric] st [OF c] convert_out_short [OF r0(2)] .
  qed
  obtain ys ys' where ys: "convert_stereo s t bs out resample0 = Some ys" "convert_stereo s t bs' out' resample0 = Some ys'"
    using one [of 0] by auto
  have "ys = ys'"
    by (rule channels_eq)
      (use one [of 0] one [of 1] ys convert_stereo_even [OF evs(1) out(1) r0(1) ys(1)]
        convert_stereo_even [OF evs(2) out(2) r0(1) ys(2)] in auto)
  with ys show ?thesis by simp
qed

text \<open>Streams of one and of two channels.\<close>

fun convert_samples :: "int \<Rightarrow> int \<Rightarrow> nat \<Rightarrow> s16 list list \<Rightarrow> s16 list \<Rightarrow> resample \<Rightarrow> s16 list option" where
  "convert_samples s t ch [] out rs = Some []"
| "convert_samples s t ch (b # bs) out rs =
     (case resampling_process b out s t (length b) ch rs of
        None \<Rightarrow> None
      | Some (_, k, out, rs) \<Rightarrow> map_option (\<lambda>ys. take k out @ ys) (convert_samples s t ch bs out rs))"

lemma convert_samples_eq:
  "convert_samples s t 1 bs out rs = convert_out s t bs out rs"
  "convert_samples s t 2 bs out rs = convert_stereo s t bs out rs"
  by (induction bs arbitrary: out rs) (auto split: option.splits)

text \<open>
  C11. How a stream is cut into blocks cannot be heard: for any two rates up to 65536 Hz, two ways of cutting up to one
  second of the same stream, of one or of two channels, into blocks of at least six samples for each channel,
  with any output buffers that have room for them, give the same samples, bit by bit.  The interpolation reaches across the borders of the
  blocks through the delay line, and the filter goes on where it stopped.
\<close>

theorem blocks_inaudible:
  assumes r: "rate_ok s" "rate_ok t" and ch: "ch = 1 \<or> ch = 2" and e: "concat bs = concat bs'"
    and l: "int (length (concat bs)) \<le> int ch * s"
    and b: "list_all (\<lambda>b. ch dvd length b \<and> block_ok s t ch (length out) (length b div ch)) bs"
    and b': "list_all (\<lambda>b. ch dvd length b \<and> block_ok s t ch (length out') (length b div ch)) bs'"
    and out: "ch dvd length out" "ch dvd length out'"
  shows "\<exists>ys. convert_samples s t ch bs out resample0 = Some ys \<and> convert_samples s t ch bs' out' resample0 = Some ys"
  using ch
proof
  assume "ch = 1"
  with mono_same_samples [OF r e, of out out'] l b b' show ?thesis
    unfolding convert_samples_eq by (simp add: convert_samples_eq [simplified])
next
  assume "ch = 2"
  with stereo_same_samples [OF r e, of out out'] l b b' out show ?thesis by (simp add: convert_samples_eq)
qed

theorem blocks_inaudible_witness:
  "\<exists>ys. convert_samples 44100 48000 2 (replicate 43 (replicate 2048 5)) (replicate 4096 0) resample0 = Some ys \<and>
     convert_samples 44100 48000 2 (replicate 86 (replicate 1024 5)) (replicate 4096 0) resample0 = Some ys"
proof -
  have c: "concat (replicate n (replicate k (v :: s16))) = replicate (n * k) v" for n k v
    by (induction n) (simp_all add: replicate_add)
  have e: "concat (replicate 43 (replicate 2048 5)) = concat (replicate 86 (replicate 1024 (5 :: s16)))"
    unfolding c by simp
  have l: "int (length (concat (replicate 43 (replicate 2048 (5 :: s16))))) \<le> int 2 * 44100" unfolding c by simp
  have b: "list_all (\<lambda>b. 2 dvd length b \<and> block_ok 44100 48000 2 (length (replicate 4096 (0 :: s16))) (length b div 2))
      (replicate n (replicate k (5 :: s16)))" if "k = 1024 \<or> k = 2048" for n k
    using that by (auto simp: list_all_iff block_ok_def INPCM_DELAY_SIZE_def)
  have r: "rate_ok 44100" "rate_ok 48000" by (simp_all add: rate_ok_def)
  show ?thesis by (rule blocks_inaudible [OF r disjI2 [OF refl] e l b b]) simp_all
qed

end
