(* ===== verification/Player.thy ===== *)
theory Player
  imports Es7243e Resample Result_Out Board_Pins
begin

text \<open>
  The audio output (components/player/bds\_player.c): the I2S channel, the codec chips, the two sample
  buffers, and the conversion of what the callers write to 48 kHz stereo with 32 bits a sample.
  The I2S driver and the clock pin registers are parameters.
\<close>

section \<open>The I2S interface\<close>

record i2s_config_t =
  i2s_rate :: nat
  i2s_bits :: nat
  dma_buf_count :: nat
  dma_buf_len :: nat

record i2s_pin_config_t =
  bck_io_num :: int
  ws_io_num :: int
  data_out_num :: int
  data_in_num :: int

text \<open>\<open>i2s_clock_pins\<close> stands for the two register macros that route the master clock to a pin.\<close>

record 'w i2s_api =
  i2s_driver_install :: "nat \<Rightarrow> i2s_config_t \<Rightarrow> 'w \<Rightarrow> esp_err_t \<times> 'w"
  i2s_set_pin :: "nat \<Rightarrow> i2s_pin_config_t \<Rightarrow> 'w \<Rightarrow> esp_err_t \<times> 'w"
  i2s_clock_pins :: "'w \<Rightarrow> 'w"
  i2s_zero_dma_buffer :: "nat \<Rightarrow> 'w \<Rightarrow> esp_err_t \<times> 'w"
  i2s_driver_uninstall :: "nat \<Rightarrow> 'w \<Rightarrow> 'w"
  i2s_write_bytes :: "nat \<Rightarrow> u8 list \<Rightarrow> 'w \<Rightarrow> int \<times> 'w"

text \<open>The drivers of the board that the player needs.\<close>

record 'w board =
  b_i2c :: "'w i2c_api"
  b_gpio :: "'w gpio_api"
  b_i2s :: "'w i2s_api"

section \<open>State\<close>

definition SPIL_OUTPUT_SAMPLE_RATE :: int where "SPIL_OUTPUT_SAMPLE_RATE = 48000"
definition DMA_BUF_COUNT :: nat where "DMA_BUF_COUNT = 5"
definition DMA_BUF_LEN :: nat where "DMA_BUF_LEN = 500"
definition DMA_BUF_CHANNEL :: nat where "DMA_BUF_CHANNEL = 2"
definition DMA_BUF_BITS_PER_SAMPLE :: nat where "DMA_BUF_BITS_PER_SAMPLE = 32"
definition CODEC_OUTPUT_BUFSIZE :: nat where "CODEC_OUTPUT_BUFSIZE = 24 * 1024"

text \<open>
  The static variables of the module.  \<open>buf_16\<close> and \<open>buf_32\<close> are the contents of the blocks that
  \<open>output_buf_16\<close> and \<open>output_buf_32\<close> point to; \<open>p_i2c\<close> is the state of the I2C module.
\<close>

record player =
  s_codec_inited :: int
  s_channel :: int
  s_sample_rate :: int
  s_bits_per_sample :: int
  s_backup_channel :: int
  s_backup_sample_rate :: int
  s_backup_bits_per_sample :: int
  output_buf_16 :: "nat option"
  output_buf_32 :: "nat option"
  buf_16 :: "s16 list"
  buf_32 :: "s16 list"
  s_resample :: resample
  p_i2c :: i2c_mod

text \<open>The state before the first call; the bus module has nothing yet.\<close>

definition player0 :: player where
  "player0 = \<lparr>s_codec_inited = 0, s_channel = 1, s_sample_rate = 0, s_bits_per_sample = 0,
     s_backup_channel = 1, s_backup_sample_rate = 0, s_backup_bits_per_sample = 0,
     output_buf_16 = None, output_buf_32 = None, buf_16 = [], buf_32 = [],
     s_resample = resample0, p_i2c = i2c_up\<lparr>busLock := None\<rparr>\<rparr>"

text \<open>The processor is little-endian: two bytes of memory are one sample.\<close>

fun shorts_of_bytes :: "u8 list \<Rightarrow> s16 list" where
  "shorts_of_bytes (a # b # bs) = (of_nat (unat a + 256 * unat b)) # shorts_of_bytes bs"
| "shorts_of_bytes _ = []"

definition bytes_of_shorts :: "s16 list \<Rightarrow> u8 list" where
  "bytes_of_shorts xs = concat (map (\<lambda>x. [of_nat (unat x mod 256), of_nat (unat x div 256)]) xs)"

section \<open>The channel and the codecs\<close>

definition i2s_cfg :: i2s_config_t where
  "i2s_cfg = \<lparr>i2s_rate = nat SPIL_OUTPUT_SAMPLE_RATE, i2s_bits = DMA_BUF_BITS_PER_SAMPLE,
     dma_buf_count = DMA_BUF_COUNT, dma_buf_len = DMA_BUF_LEN\<rparr>"

definition i2s_pins :: i2s_pin_config_t where
  "i2s_pins = \<lparr>bck_io_num = IIS_SCLK BOARD_V2, ws_io_num = IIS_LCLK BOARD_V2,
     data_out_num = IIS_DSIN BOARD_V2, data_in_num = IIS_DSOUT BOARD_V2\<rparr>"

definition i2s0_init :: "'w i2s_api \<Rightarrow> 'a io_scheme \<times> 'w \<Rightarrow> int \<times> 'a io_scheme \<times> 'w" where
  "i2s0_init api = (\<lambda>(s, w).
     let (res, w) = i2s_driver_install api 0 i2s_cfg w
     in if res \<noteq> 0
        then (res, printf (newline @ newline @ newline @ '' i2s driver install error!!!'' @ newline @ newline) s, w)
        else
          let (x, w) = i2s_set_pin api 0 i2s_pins w;
              res = res OR x;
              w = i2s_clock_pins api w;
              (_, w) = i2s_zero_dma_buffer api 0 w
          in (res, s, w))"

type_synonym ('a, 'w) pst = "'a io_scheme \<times> player \<times> 'w"

text \<open>The status of the first codec is overwritten by the status of the second.\<close>

definition codec_init :: "'w board \<Rightarrow> ('a, 'w) pst \<Rightarrow> (int \<times> ('a, 'w) pst) run" where
  "codec_init b = (\<lambda>(s, p, w).
     let (ret, s, w) = i2s0_init (b_i2s b) (s, w)
     in if ret \<noteq> 0 then Done (ret, printf (''Failed to init I2s0 driver'' @ newline) s, p, w)
        else case ES8156_codec_init (b_i2c b) (b_gpio b) (s, p_i2c p, w) of
          Done (ret, s, m, w) \<Rightarrow>
            (case es7243e_adc_init (b_i2c b) es7243e_addr0 (s, m, w) of
               Done (ret, s, m, w) \<Rightarrow> Done (ret, s, p\<lparr>p_i2c := m, s_codec_inited := 1\<rparr>, w)
             | Crash c \<Rightarrow> Crash c | Hang \<Rightarrow> Hang
             | Restart (ret, s, m, w) \<Rightarrow> Restart (ret, s, p\<lparr>p_i2c := m\<rparr>, w))
        | Crash c \<Rightarrow> Crash c | Hang \<Rightarrow> Hang
        | Restart (ret, s, m, w) \<Rightarrow> Restart (ret, s, p\<lparr>p_i2c := m\<rparr>, w))"

text \<open>The task body that initialises the codecs on their own; nothing in the program starts it.\<close>

definition tas5805m_init_task :: "'w board \<Rightarrow> ('a, 'w) pst \<Rightarrow> ('a, 'w) pst run" where
  "tas5805m_init_task b = (\<lambda>(s, p, w).
     case ES8156_codec_init (b_i2c b) (b_gpio b) (s, p_i2c p, w) of
       Done (_, s, m, w) \<Rightarrow>
         (case es7243e_adc_init (b_i2c b) es7243e_addr0 (s, m, w) of
            Done (_, s, m, w) \<Rightarrow> Done (s, p\<lparr>p_i2c := m\<rparr>, w)
          | Crash c \<Rightarrow> Crash c | Hang \<Rightarrow> Hang | Restart (_, s, m, w) \<Rightarrow> Restart (s, p\<lparr>p_i2c := m\<rparr>, w))
     | Crash c \<Rightarrow> Crash c | Hang \<Rightarrow> Hang | Restart (_, s, m, w) \<Rightarrow> Restart (s, p\<lparr>p_i2c := m\<rparr>, w))"

definition codec_uninit :: "'w board \<Rightarrow> 'w \<Rightarrow> int \<times> 'w" where
  "codec_uninit b w = (0, i2s_driver_uninstall (b_i2s b) 0 w)"

definition SPIL_OUTPUT_zero_dma_buffer :: "'w board \<Rightarrow> 'w \<Rightarrow> int \<times> 'w" where
  "SPIL_OUTPUT_zero_dma_buffer b w =
     (let (ret, w) = i2s_zero_dma_buffer (b_i2s b) 0 w in if ret = ESP_OK then (0, w) else (-1, w))"

definition SPIL_OUTPUT_write_data :: "'w board \<Rightarrow> u8 list \<Rightarrow> 'w \<Rightarrow> int \<times> 'w" where
  "SPIL_OUTPUT_write_data b buf w = i2s_write_bytes (b_i2s b) 0 buf w"

text \<open>Writing the same block to the channel a number of times.\<close>

fun write_times :: "'w board \<Rightarrow> u8 list \<Rightarrow> nat \<Rightarrow> 'w \<Rightarrow> 'w" where
  "write_times b buf 0 w = w"
| "write_times b buf (Suc k) w = write_times b buf k (snd (SPIL_OUTPUT_write_data b buf w))"

text \<open>The block comes from \<open>malloc\<close> and is written as it is.\<close>

definition dac_write_zero_data :: "'w board \<Rightarrow> ('a, 'w) pst \<Rightarrow> int \<times> ('a, 'w) pst" where
  "dac_write_zero_data b = (\<lambda>(s, p, w).
     let sz = DMA_BUF_CHANNEL * DMA_BUF_LEN * DMA_BUF_BITS_PER_SAMPLE div 8;
         (buf, s) = io_malloc s
     in case buf of
          None \<Rightarrow> (-1, printf (''Failed to malloc memory'' @ newline) s, p, w)
        | Some q \<Rightarrow>
            let w = write_times b (fresh_block (heap s) q sz) DMA_BUF_COUNT w
            in (0, io_free (Some q) s, p, w))"

section \<open>The operations of the player\<close>

definition duer_audio_dac_backup_parameter :: "player \<Rightarrow> int \<times> player" where
  "duer_audio_dac_backup_parameter p =
     (0, p\<lparr>s_backup_channel := s_channel p, s_backup_sample_rate := s_sample_rate p,
           s_backup_bits_per_sample := s_bits_per_sample p\<rparr>)"

definition duer_audio_dac_restore_parameter :: "player \<Rightarrow> int \<times> player" where
  "duer_audio_dac_restore_parameter p =
     (0, p\<lparr>s_channel := s_backup_channel p, s_sample_rate := s_backup_sample_rate p,
           s_bits_per_sample := s_backup_bits_per_sample p\<rparr>)"

definition duer_audio_dac_start_play ::
  "int \<Rightarrow> int \<Rightarrow> int \<Rightarrow> int \<Rightarrow> ('a, 'w) pst \<Rightarrow> int \<times> ('a, 'w) pst" where
  "duer_audio_dac_start_play type channel sample_rate bits_per_sample = (\<lambda>(s, p, w).
     (0, printf (''TAS5805M sample_rate:'' @ show_d sample_rate @ '', bits_per_sample:'' @
           show_d bits_per_sample @ '', channel:'' @ show_d channel @ newline) s,
      p\<lparr>s_channel := channel, s_sample_rate := sample_rate, s_bits_per_sample := bits_per_sample,
        s_resample := resample0\<rparr>, w))"

text \<open>Spreading the samples to the upper halves of 32-bit words.\<close>

fun spread_loop :: "s16 list \<Rightarrow> nat \<Rightarrow> nat \<Rightarrow> s16 list \<Rightarrow> s16 list option" where
  "spread_loop b16 i 0 b32 = Some b32"
| "spread_loop b16 i (Suc k) b32 =
     (if i < length b16 \<and> 2 * i + 1 < length b32
      then spread_loop b16 (i + 1) k (b32[2 * i + 1 := b16 ! i]) else None)"

text \<open>
  The conversion step: which converter is called for the channel count of the stream.  The buffer
  the caller passes holds the bytes \<open>buf\<close>, \<open>sz\<close> is its size argument.
\<close>

definition dac_convert ::
  "u8 list \<Rightarrow> nat \<Rightarrow> player \<Rightarrow> (string list \<times> nat \<times> s16 list \<times> resample) option" where
  "dac_convert buf sz p =
     (if s_channel p = 1
      then map_option (\<lambda>r. ([], r))
             (resampling_process_up_channel (shorts_of_bytes buf) (buf_16 p) (s_sample_rate p)
                SPIL_OUTPUT_SAMPLE_RATE (sz div 2) (s_resample p))
      else resampling_process (shorts_of_bytes buf) (buf_16 p) (s_sample_rate p)
             SPIL_OUTPUT_SAMPLE_RATE (sz div 2) (nat (s_channel p)) (s_resample p))"

definition duer_audio_dac_write ::
  "'w board \<Rightarrow> int \<Rightarrow> u8 list \<Rightarrow> nat \<Rightarrow> ('a, 'w) pst \<Rightarrow> (int \<times> ('a, 'w) pst) run" where
  "duer_audio_dac_write b type buf sz = (\<lambda>(s, p, w).
     if output_buf_16 p = None \<or> output_buf_32 p = None
     then Done (0, printf (''faild to init buffer for codec write'' @ newline) s, p, w)
     else if s_channel p \<noteq> 1 \<and> s_channel p \<noteq> 2
     then Done (0, printf (''unsupport channel '' @ show_d (s_channel p)) s, p, w)
     else case dac_convert buf sz p of
       None \<Rightarrow> Crash Out_of_bounds
     | Some (msgs, output_size, b16, rs) \<Rightarrow>
         let s = fold printf msgs s
         in (case spread_loop b16 0 output_size (buf_32 p) of
               None \<Rightarrow> Crash Out_of_bounds
             | Some b32 \<Rightarrow>
                 let (ret, w) = SPIL_OUTPUT_write_data b (bytes_of_shorts (take (output_size * 2) b32)) w
                 in Done (ret, s, p\<lparr>buf_16 := b16, buf_32 := b32, s_resample := rs\<rparr>, w)))"

definition duer_audio_dac_pause_play :: "'w board \<Rightarrow> ('a, 'w) pst \<Rightarrow> int \<times> ('a, 'w) pst" where
  "duer_audio_dac_pause_play b st = (0, snd (dac_write_zero_data b st))"

definition duer_audio_dac_release_play :: int where "duer_audio_dac_release_play = 0"
definition duer_audio_dac_stop_play :: int where "duer_audio_dac_stop_play = 0"

definition duer_audio_dac_wait_play_end :: "'w board \<Rightarrow> ('a, 'w) pst \<Rightarrow> int \<times> ('a, 'w) pst" where
  "duer_audio_dac_wait_play_end b st =
     (let (_, s, p, w) = dac_write_zero_data b st; (_, w) = SPIL_OUTPUT_zero_dma_buffer b w
      in (0, s, p, w))"

definition malloc_buffer_text :: string where
  "malloc_buffer_text = ''failed to malloc buffer for codec write'' @ newline"

definition load_driver_text :: string where
  "load_driver_text =
     ''================================='' @ ''duer_audio_dac_load_driver======'' @ newline"

text \<open>Allocating one of the two buffers if it is not there yet; the first component tells of failure.\<close>

definition load_buf_16 :: "'a io_scheme \<times> player \<Rightarrow> bool \<times> 'a io_scheme \<times> player" where
  "load_buf_16 = (\<lambda>(s, p).
     if output_buf_16 p \<noteq> None then (False, s, p)
     else
       let (q, s) = io_malloc s
       in case q of
            None \<Rightarrow> (True, printf malloc_buffer_text s, p)
          | Some a \<Rightarrow> (False, s, p\<lparr>output_buf_16 := q,
              buf_16 := shorts_of_bytes (fresh_block (heap s) a CODEC_OUTPUT_BUFSIZE)\<rparr>))"

definition load_buf_32 :: "'a io_scheme \<times> player \<Rightarrow> bool \<times> 'a io_scheme \<times> player" where
  "load_buf_32 = (\<lambda>(s, p).
     if output_buf_32 p \<noteq> None then (False, s, p)
     else
       let (q, s) = io_malloc s
       in case q of
            None \<Rightarrow> (True, printf malloc_buffer_text s, p)
          | Some a \<Rightarrow> (False, s, p\<lparr>output_buf_32 := q,
              buf_32 := shorts_of_bytes (fresh_block (heap s) a (CODEC_OUTPUT_BUFSIZE * 2))\<rparr>))"

definition duer_audio_dac_load_driver :: "'w board \<Rightarrow> ('a, 'w) pst \<Rightarrow> (int \<times> ('a, 'w) pst) run" where
  "duer_audio_dac_load_driver b = (\<lambda>(s, p, w).
     case codec_init b (printf load_driver_text s, p, w) of
       Done (ret, s, p, w) \<Rightarrow>
         if ret \<noteq> 0
         then Done (ret, printf (''Failed to load codec driver('' @ show_d ret @ '')'' @ newline) s, p, w)
         else
           let (fail, s, p) = load_buf_16 (s, p)
           in if fail then Done (-1, s, p, w)
              else
                let (fail, s, p) = load_buf_32 (s, p)
                in Done (if fail then -1 else ret, s, p, w)
     | Crash c \<Rightarrow> Crash c | Hang \<Rightarrow> Hang | Restart r \<Rightarrow> Restart r)"

definition duer_audio_dac_unload_driver :: "'w board \<Rightarrow> ('a, 'w) pst \<Rightarrow> int \<times> ('a, 'w) pst" where
  "duer_audio_dac_unload_driver b = (\<lambda>(s, p, w).
     let s = io_free (output_buf_16 p) s;
         p = p\<lparr>output_buf_16 := None\<rparr>;
         s = io_free (output_buf_32 p) s;
         p = p\<lparr>output_buf_32 := None\<rparr>;
         (ret, w) = codec_uninit b w;
         s = (if ret \<noteq> 0 then printf (''Failed to unload codec driver'' @ newline) s else s)
     in (ret, s, p\<lparr>s_codec_inited := 0\<rparr>, w))"

section \<open>Volume\<close>

definition VOL_STEP_NUM_MAX :: nat where "VOL_STEP_NUM_MAX = 21"

definition g_vol_tbl :: "int list" where
  "g_vol_tbl = [
     0xff, 0x9f, 0x8f, 0x7f, 0x6f, 0x5f, 0x5c, 0x5a,
     0x58, 0x54, 0x50, 0x4c, 0x4a, 0x38, 0x37, 0x36,
     0x35, 0x34, 0x33, 0x32, 0x31]"

fun vol_index :: "int list \<Rightarrow> int \<Rightarrow> nat \<Rightarrow> nat" where
  "vol_index [] reg_vol i = i"
| "vol_index (t # ts) reg_vol i = (if reg_vol \<ge> t then i else vol_index ts reg_vol (i + 1))"

text \<open>The second component of the result is what \<open>*vol\<close> is set to, if it is.\<close>

definition duer_audio_dac_get_volume ::
  "'w board \<Rightarrow> ('a, 'w) pst \<Rightarrow> (int \<times> int option) \<times> ('a, 'w) pst" where
  "duer_audio_dac_get_volume b = (\<lambda>(s, p, w).
     let ((ret, reg_vol), w) = ES8156_codec_get_voice_volume (b_i2c b) w
     in if ret = 0
        then
          let i = vol_index g_vol_tbl reg_vol 0;
              s = printf (''duer_audio_dac_get_volume-vol_tbl_ind:'' @ show_d (int i) @ newline) s
          in if i < VOL_STEP_NUM_MAX then ((ret, Some reg_vol), s, p, w)
             else ((ret, Some (int VOL_STEP_NUM_MAX - 1)), s, p, w)
        else ((ret, None), s, p, w))"

definition duer_audio_dac_set_volume :: "'w board \<Rightarrow> int \<Rightarrow> ('a, 'w) pst \<Rightarrow> int \<times> ('a, 'w) pst" where
  "duer_audio_dac_set_volume b vol = (\<lambda>(s, p, w).
     let volume = cdiv vol 5;
         volume = (if volume \<ge> int VOL_STEP_NUM_MAX then int VOL_STEP_NUM_MAX - 1 else volume);
         volume = (if volume < 0 then 0 else volume);
         (_, w) = ES8156_codec_set_voice_volume (b_i2c b) (p_i2c p) (g_vol_tbl ! nat volume) w
     in (0, s, p, w))"

definition duer_audio_dac_adj_volume :: "int \<Rightarrow> 'a io_scheme \<Rightarrow> int \<times> 'a io_scheme" where
  "duer_audio_dac_adj_volume adj_vol s =
     (0, printf (''duer_audio_dac_adj_volume do nothing!!!'' @ newline) s)"

definition duer_audio_adc_set_pwr :: "int \<Rightarrow> int" where "duer_audio_adc_set_pwr enable = 0"

section \<open>Memory of the player\<close>

lemma length_shorts_of_bytes: "length (shorts_of_bytes bs) = length bs div 2"
  by (induction bs rule: shorts_of_bytes.induct) auto

lemma shorts_of_bytes_of_shorts: "shorts_of_bytes (bytes_of_shorts xs) = xs"
proof (induction xs)
  case (Cons x xs)
  have u: "unat x < 65536" using unsigned_less [of x] by simp
  have "unat (of_nat (unat x mod 256) :: u8) = unat x mod 256" "unat (of_nat (unat x div 256) :: u8) = unat x div 256"
    using u by (simp_all add: unat_of_nat div_less_iff_less_mult)
  then have "of_nat (unat (of_nat (unat x mod 256) :: u8) + 256 * unat (of_nat (unat x div 256) :: u8)) = x" by simp
  with Cons show ?case by (simp add: bytes_of_shorts_def)
qed (simp add: bytes_of_shorts_def)

lemma shorts_of_bytes_append: "even (length xs) \<Longrightarrow> shorts_of_bytes (xs @ ys) = shorts_of_bytes xs @ shorts_of_bytes ys"
  by (induction xs rule: shorts_of_bytes.induct) auto

text \<open>
  The invariant: buffers that are allocated are live, different, and have the sizes the code gives
  them.
\<close>

definition player_inv :: "'a io_scheme \<Rightarrow> player \<Rightarrow> bool" where
  "player_inv s p \<longleftrightarrow>
     heap_wf (heap s) \<and>
     (\<forall>a. output_buf_16 p = Some a \<longrightarrow>
        a \<in> h_live (heap s) \<and> length (buf_16 p) = CODEC_OUTPUT_BUFSIZE div 2) \<and>
     (\<forall>a. output_buf_32 p = Some a \<longrightarrow>
        a \<in> h_live (heap s) \<and> length (buf_32 p) = CODEC_OUTPUT_BUFSIZE) \<and>
     (output_buf_16 p \<noteq> None \<longrightarrow> output_buf_16 p \<noteq> output_buf_32 p)"

text \<open>
  A step on the heap that the owner of other blocks does not notice: blocks that were live stay
  live, and no wrong release happens.
\<close>

definition heap_grows :: "heap \<Rightarrow> heap \<Rightarrow> bool" where
  "heap_grows h h' \<longleftrightarrow>
     (heap_wf h \<longrightarrow> heap_wf h' \<and> h_live h \<subseteq> h_live h' \<and> h_fault h' = h_fault h)"

lemma heap_grows_refl [simp]: "heap_grows h h"
  by (simp add: heap_grows_def)

lemma heap_grows_trans: "heap_grows h1 h2 \<Longrightarrow> heap_grows h2 h3 \<Longrightarrow> heap_grows h1 h3"
  by (auto simp: heap_grows_def)

lemma heap_grows_malloc: "heap_grows h (snd (malloc h))"
proof -
  obtain q h' where m: "malloc h = (q, h')" by (cases "malloc h")
  show ?thesis
    using hp.alloc_wf [OF _ m] hp.alloc_fault [OF m] hp.alloc_live [of h _ h'] hp.alloc_none [of h h'] m
    by (cases q) (auto simp: heap_grows_def)
qed

lemma heap_grows_bracket: "heap_grows h (free_opt (fst (malloc h)) (snd (malloc h)))"
proof -
  obtain q h' where m: "malloc h = (q, h')" by (cases "malloc h")
  show ?thesis
  proof (cases q)
    case None
    then show ?thesis
      using heap_grows_malloc [of h] m by (simp add: free_opt_def)
  next
    case (Some a)
    with m hp.bracket [of h a h'] show ?thesis by (simp add: heap_grows_def free_opt_def)
  qed
qed

lemma bus_create_grows:
  "i2c_bus_create api port conf (s, m, w) = Done (r, s', m', w') \<Longrightarrow> heap_grows (heap s) (heap s')"
  using heap_grows_malloc [of "heap s"] heap_grows_bracket [of "heap s"]
  by (auto simp: i2c_bus_create_def io_malloc_def io_free_def Let_def
      split: if_splits option.splits prod.splits)

lemma es8156_init_grows:
  "ES8156_codec_init api gpio (s, m, w) = Done (r, s', m', w') \<Longrightarrow> heap_grows (heap s) (heap s')"
  by (auto simp: ES8156_codec_init_def es8156_i2c_init_def Let_def
      dest: bus_create_grows split: run.splits prod.splits)

lemma es7243e_init_grows:
  "es7243e_adc_init api a (s, m, w) = Done (r, s', m', w') \<Longrightarrow> heap_grows (heap s) (heap s')"
  by (auto simp: es7243e_adc_init_def es7243e_i2c_init_def Let_def io_simps
      simp del: write_regs.simps dest!: bus_create_grows split: run.splits prod.splits if_splits)

lemma codec_init_grows:
  "codec_init b (s, p, w) = Done (r, s', p', w') \<Longrightarrow> heap_grows (heap s) (heap s') \<and>
     output_buf_16 p' = output_buf_16 p \<and> output_buf_32 p' = output_buf_32 p \<and>
     buf_16 p' = buf_16 p \<and> buf_32 p' = buf_32 p"
  by (auto simp: codec_init_def i2s0_init_def Let_def io_simps
      dest!: es8156_init_grows es7243e_init_grows intro: heap_grows_trans
      split: run.splits prod.splits if_splits)

lemma player_inv_grows:
  "player_inv s p \<Longrightarrow> heap_grows (heap s) (heap s') \<Longrightarrow> output_buf_16 p' = output_buf_16 p \<Longrightarrow>
     output_buf_32 p' = output_buf_32 p \<Longrightarrow> buf_16 p' = buf_16 p \<Longrightarrow> buf_32 p' = buf_32 p \<Longrightarrow>
     player_inv s' p'"
  by (auto simp: player_inv_def heap_grows_def)

end
