(* ===== verification/Player_Props.thy ===== *)
theory Player_Props
  imports Player
begin

text \<open>
  The properties of the audio output: what a write puts on the channel, that it stays inside its
  buffers, how loading and unloading the driver treat the heap, and what the volume comes to.
\<close>

section \<open>Spreading\<close>

lemma spread_loop_nth:
  "i + k \<le> length b16 \<Longrightarrow> 2 * (i + k) \<le> length b32 \<Longrightarrow>
     \<exists>q. spread_loop b16 i k b32 = Some q \<and> length q = length b32 \<and>
       (\<forall>j < length b32. q ! j = (if odd j \<and> 2 * i \<le> j \<and> j < 2 * (i + k) then b16 ! (j div 2) else b32 ! j))"
proof (induction k arbitrary: i b32)
  case 0
  then show ?case by (auto elim!: oddE)
next
  case (Suc k)
  let ?b = "b32[2 * i + 1 := b16 ! i]"
  have le: "i + 1 + k \<le> length b16" "2 * (i + 1 + k) \<le> length ?b" using Suc.prems by simp_all
  obtain q where q: "spread_loop b16 (i + 1) k ?b = Some q" "length q = length b32"
    "\<forall>j < length b32. q ! j = (if odd j \<and> 2 * (i + 1) \<le> j \<and> j < 2 * (i + 1 + k) then b16 ! (j div 2) else ?b ! j)"
    using Suc.IH [OF le] by auto
  have s: "spread_loop b16 i (Suc k) b32 = Some q" using q(1) Suc.prems by simp
  have "q ! j = (if odd j \<and> 2 * i \<le> j \<and> j < 2 * (i + Suc k) then b16 ! (j div 2) else b32 ! j)"
    if j: "j < length b32" for j
  proof (cases "j = 2 * i + 1")
    case True
    then show ?thesis using q(3) j by simp
  next
    case False
    have "odd j \<and> 2 * (i + 1) \<le> j \<longleftrightarrow> odd j \<and> 2 * i \<le> j"
      using False by (auto elim!: oddE)
    then show ?thesis using q(3) j False by (auto simp: algebra_simps)
  qed
  with s q(2) show ?case by blast
qed

lemma dac_write_eq:
  assumes "dac_convert buf sz p = Some (msgs, k, b16, rs)" and "spread_loop b16 0 k (buf_32 p) = Some b32"
    and "s_channel p = 1 \<or> s_channel p = 2" and "output_buf_16 p \<noteq> None" and "output_buf_32 p \<noteq> None"
  shows "duer_audio_dac_write b t buf sz (s, p, w) =
    (let (r, w') = i2s_write_bytes (b_i2s b) 0 (bytes_of_shorts (take (2 * k) b32)) w
     in Done (r, fold printf msgs s, p\<lparr>buf_16 := b16, buf_32 := b32, s_resample := rs\<rparr>, w'))"
proof -
  have k: "k * 2 = 2 * k" by simp
  show ?thesis
    using assms(3-5) unfolding duer_audio_dac_write_def prod.case assms(1) option.case Let_def
      assms(2) SPIL_OUTPUT_write_data_def k by auto
qed

text \<open>
  A conversion that succeeds never runs over the 32-bit buffer: with the two buffers in the
  sizes the driver allocates, the spreading loop stays inside both of them for both channel counts,
  so \<open>duer_audio_dac_write\<close> hands everything the converter produced to the channel.
\<close>

lemma dac_write_spreads:
  assumes "dac_convert buf sz p = Some (msgs, k, b16, rs)" and "length (buf_32 p) = 2 * length (buf_16 p)"
    and "s_channel p = 1 \<or> s_channel p = 2" and "output_buf_16 p \<noteq> None" and "output_buf_32 p \<noteq> None"
  shows "\<exists>b32. spread_loop b16 0 k (buf_32 p) = Some b32 \<and> length b32 = length (buf_32 p) \<and>
    length b16 = length (buf_16 p) \<and> k \<le> length b16 \<and>
    (\<exists>s'. duer_audio_dac_write b t buf sz (s, p, w) =
      Done (fst (i2s_write_bytes (b_i2s b) 0 (bytes_of_shorts (take (2 * k) b32)) w), s',
            p\<lparr>buf_16 := b16, buf_32 := b32, s_resample := rs\<rparr>,
            snd (i2s_write_bytes (b_i2s b) 0 (bytes_of_shorts (take (2 * k) b32)) w)))"
proof -
  have k: "k \<le> length b16 \<and> length b16 = length (buf_16 p)"
  proof (cases "s_channel p = 1")
    case True
    then have "resampling_process_up_channel (shorts_of_bytes buf) (buf_16 p) (s_sample_rate p)
        SPIL_OUTPUT_SAMPLE_RATE (sz div 2) (s_resample p) = Some (k, b16, rs)"
      using assms(1) by (auto simp: dac_convert_def)
    then show ?thesis by (rule up.conv_length)
  next
    case False
    then have "map_option snd (resampling_process (shorts_of_bytes buf) (buf_16 p) (s_sample_rate p)
        SPIL_OUTPUT_SAMPLE_RATE (sz div 2) (nat (s_channel p)) (s_resample p)) = Some (k, b16, rs)"
      using assms(1) by (auto simp: dac_convert_def)
    then show ?thesis by (rule stereo.conv_length)
  qed
  then obtain b32 where b32: "spread_loop b16 0 k (buf_32 p) = Some b32" "length b32 = length (buf_32 p)"
    using spread_loop_nth [of 0 k b16 "buf_32 p"] assms(2) by auto
  have "duer_audio_dac_write b t buf sz (s, p, w) =
      Done (fst (i2s_write_bytes (b_i2s b) 0 (bytes_of_shorts (take (2 * k) b32)) w), fold printf msgs s,
            p\<lparr>buf_16 := b16, buf_32 := b32, s_resample := rs\<rparr>,
            snd (i2s_write_bytes (b_i2s b) 0 (bytes_of_shorts (take (2 * k) b32)) w))"
    unfolding dac_write_eq [OF assms(1) b32(1) assms(3-5)] by (simp add: split_def Let_def)
  with k b32 show ?thesis by blast
qed

text \<open>A state with small buffers, and an output that takes everything.\<close>

definition tiny_player :: player where
  "tiny_player = player0\<lparr>output_buf_16 := Some 0, output_buf_32 := Some 1, s_sample_rate := 48000,
     buf_16 := replicate 4 0, buf_32 := replicate 8 9\<rparr>"

definition sink_i2s :: "'w i2s_api" where
  "sink_i2s = \<lparr>i2s_driver_install = \<lambda>p c w. (0, w), i2s_set_pin = \<lambda>p c w. (0, w),
     i2s_clock_pins = \<lambda>w. w, i2s_zero_dma_buffer = \<lambda>p w. (0, w), i2s_driver_uninstall = \<lambda>p w. w,
     i2s_write_bytes = \<lambda>p bs w. (int (length bs), w)\<rparr>"

definition sink_board :: "mem_i2c board" where
  "sink_board = \<lparr>b_i2c = mem_api {0x10, 0x20}, b_gpio = mem_gpio, b_i2s = sink_i2s\<rparr>"

lemma mono_48k_block:
  assumes "player_inv s p" and "output_buf_16 p \<noteq> None" and "output_buf_32 p \<noteq> None"
    and "s_channel p = 1" and "s_sample_rate p = 48000"
    and "length buf = 2 * n" and "n \<le> 6144"
  shows "\<exists>b32 p'. length b32 = 4 * n \<and>
    (\<forall>j < 2 * n. b32 ! (2 * j + 1) = shorts_of_bytes buf ! (j div 2) \<and> b32 ! (2 * j) = buf_32 p ! (2 * j)) \<and>
    duer_audio_dac_write b t buf (2 * n) (s, p, w) =
      Done (fst (i2s_write_bytes (b_i2s b) 0 (bytes_of_shorts b32) w), s, p',
            snd (i2s_write_bytes (b_i2s b) 0 (bytes_of_shorts b32) w))"
proof -
  have sizes: "length (buf_16 p) = 12288" "length (buf_32 p) = 24576"
    using assms(1-3) by (auto simp: player_inv_def CODEC_OUTPUT_BUFSIZE_def)
  let ?x = "shorts_of_bytes buf"
  let ?b16 = "concat (map (\<lambda>x. [x, x]) ?x) @ drop (2 * n) (buf_16 p)"
  have len: "length ?x = n" using assms(6) by (simp add: length_shorts_of_bytes)
  have conv: "dac_convert buf (2 * n) p = Some ([], 2 * n, ?b16, s_resample p)"
    using up_channel_eq [OF len, of "buf_16 p" 48000 "s_resample p"] assms(4,5,7) sizes(1)
    by (simp add: dac_convert_def SPIL_OUTPUT_SAMPLE_RATE_def)
  have l16: "length ?b16 = 12288" using len assms(7) sizes(1) by (simp add: length_double)
  obtain b32 where b32: "spread_loop ?b16 0 (2 * n) (buf_32 p) = Some b32" "length b32 = 24576"
    "\<forall>j < 24576. b32 ! j = (if odd j \<and> j < 4 * n then ?b16 ! (j div 2) else buf_32 p ! j)"
    using spread_loop_nth [of 0 "2 * n" ?b16 "buf_32 p"] l16 sizes(2) assms(7) by auto
  let ?blk = "take (4 * n) b32"
  have "?blk ! (2 * j + 1) = ?x ! (j div 2) \<and> ?blk ! (2 * j) = buf_32 p ! (2 * j)" if "j < 2 * n" for j
    using b32(3) that assms(7) len by (auto simp: nth_append nth_double length_double)
  moreover have "length ?blk = 4 * n" using b32(2) assms(7) by simp
  moreover have "duer_audio_dac_write b t buf (2 * n) (s, p, w) =
      Done (fst (i2s_write_bytes (b_i2s b) 0 (bytes_of_shorts ?blk) w), s,
        p\<lparr>buf_16 := ?b16, buf_32 := b32, s_resample := s_resample p\<rparr>,
        snd (i2s_write_bytes (b_i2s b) 0 (bytes_of_shorts ?blk) w))"
    using dac_write_eq [OF conv b32(1) disjI1 [OF assms(4)] assms(2,3), of b t s w]
    by (simp add: split_def Let_def)
  ultimately show ?thesis by blast
qed

lemma mono_48k_write:
  assumes "player_inv s p" and "output_buf_16 p \<noteq> None" and "output_buf_32 p \<noteq> None"
    and "s_channel p = 1" and "s_sample_rate p = 48000"
    and "length buf = 2 * n" and "n \<le> 6144"
  shows "\<exists>b32. (\<forall>j < 2 * n. b32 ! (2 * j + 1) = shorts_of_bytes buf ! (j div 2) \<and> b32 ! (2 * j) = buf_32 p ! (2 * j)) \<and>
    (\<exists>p'. duer_audio_dac_write b t buf (2 * n) (s, p, w) =
      Done (fst (i2s_write_bytes (b_i2s b) 0 (bytes_of_shorts (take (4 * n) b32)) w), s, p',
            snd (i2s_write_bytes (b_i2s b) 0 (bytes_of_shorts (take (4 * n) b32)) w)))"
proof -
  from mono_48k_block [OF assms, of b t w] obtain b32 p' where b: "length b32 = 4 * n"
    "\<forall>j < 2 * n. b32 ! (2 * j + 1) = shorts_of_bytes buf ! (j div 2) \<and> b32 ! (2 * j) = buf_32 p ! (2 * j)"
    "duer_audio_dac_write b t buf (2 * n) (s, p, w) =
      Done (fst (i2s_write_bytes (b_i2s b) 0 (bytes_of_shorts b32) w), s, p',
            snd (i2s_write_bytes (b_i2s b) 0 (bytes_of_shorts b32) w))" by blast
  from b(1) have "take (4 * n) b32 = b32" by simp
  with b(2,3) show ?thesis by (intro exI [of _ b32]) auto
qed

text \<open>
  C31. What a mono stream at 48 kHz sounds like: every sample of the block appears in two successive
  32-bit words, left and right, in their upper halves and in order.  The lower halves are whatever
  the buffer held before: nothing ever writes them.
\<close>

theorem dac_write_mono_48k:
  assumes "player_inv s p" and "output_buf_16 p \<noteq> None" and "output_buf_32 p \<noteq> None"
    and "s_channel p = 1" and "s_sample_rate p = 48000"
    and "length buf = 2 * n" and "n \<le> 6144"
  shows "\<exists>b32. (\<forall>j < 2 * n. b32 ! (2 * j + 1) = shorts_of_bytes buf ! (j div 2) \<and> b32 ! (2 * j) = buf_32 p ! (2 * j)) \<and>
    (\<exists>p'. duer_audio_dac_write b t buf (2 * n) (s, p, w) =
      Done (fst (i2s_write_bytes (b_i2s b) 0 (bytes_of_shorts (take (4 * n) b32)) w), s, p',
            snd (i2s_write_bytes (b_i2s b) 0 (bytes_of_shorts (take (4 * n) b32)) w)))"
  by (rule mono_48k_write [OF assms])

theorem dac_write_mono_48k_witness:
  "\<exists>b32. b32 ! 3 = (1 :: s16) \<and> b32 ! 5 = (2 :: s16) \<and>
     (\<exists>s' p' w'. duer_audio_dac_write sink_board 0 [1, 0, 2, 0] 4
        (io0\<lparr>heap := (heap io0)\<lparr>h_live := {0, 1}, h_next := 2\<rparr>\<rparr>,
         tiny_player\<lparr>s_channel := 1, buf_16 := replicate 12288 0, buf_32 := replicate 24576 0\<rparr>, mem0) =
       Done (fst (i2s_write_bytes (b_i2s sink_board) 0 (bytes_of_shorts (take 8 b32)) mem0), s', p', w'))"
proof -
  let ?s = "io0\<lparr>heap := (heap io0)\<lparr>h_live := {0, 1}, h_next := 2\<rparr>\<rparr>"
  let ?p = "tiny_player\<lparr>s_channel := 1, buf_16 := replicate 12288 0, buf_32 := replicate 24576 0\<rparr>"
  have inv: "player_inv ?s ?p"
    by (simp add: player_inv_def heap_wf_def tiny_player_def player0_def CODEC_OUTPUT_BUFSIZE_def)
  have p: "output_buf_16 ?p \<noteq> None" "output_buf_32 ?p \<noteq> None" "s_channel ?p = 1" "s_sample_rate ?p = 48000"
    by (simp_all add: tiny_player_def)
  have "length [1, 0, 2, 0 :: u8] = 2 * 2" "(2 :: nat) \<le> 6144" by simp_all
  from dac_write_mono_48k [OF inv p this, of sink_board 0 mem0] obtain b32 p' where
    b: "\<forall>j < 4. b32 ! (2 * j + 1) = shorts_of_bytes [1, 0, 2, 0] ! (j div 2)"
    "duer_audio_dac_write sink_board 0 [1, 0, 2, 0] 4 (?s, ?p, mem0) =
      Done (fst (i2s_write_bytes (b_i2s sink_board) 0 (bytes_of_shorts (take 8 b32)) mem0), ?s, p',
            snd (i2s_write_bytes (b_i2s sink_board) 0 (bytes_of_shorts (take 8 b32)) mem0))"
    by auto
  have "b32 ! 3 = 1" "b32 ! 5 = 2"
    using b(1) [rule_format, of 1] b(1) [rule_format, of 2] by simp_all
  with b(2) show ?thesis by blast
qed

section \<open>Loading and unloading\<close>

lemma player_inv_alloc16:
  assumes "player_inv s p" and "output_buf_16 p = None" and "malloc (heap s) = (Some a, heap s')"
    and "length xs = CODEC_OUTPUT_BUFSIZE div 2"
  shows "player_inv s' (p\<lparr>output_buf_16 := Some a, buf_16 := xs\<rparr>)"
proof -
  have wf: "heap_wf (heap s)" using assms(1) by (simp add: player_inv_def)
  have "a \<notin> h_live (heap s)" "h_live (heap s') = insert a (h_live (heap s))" "heap_wf (heap s')"
    using hp.alloc_fresh [OF wf assms(3)] hp.alloc_live [OF assms(3)] hp.alloc_wf [OF wf assms(3)] by simp_all
  with assms show ?thesis by (auto simp: player_inv_def)
qed

lemma player_inv_alloc32:
  assumes "player_inv s p" and "output_buf_32 p = None" and "malloc (heap s) = (Some a, heap s')"
    and "length xs = CODEC_OUTPUT_BUFSIZE"
  shows "player_inv s' (p\<lparr>output_buf_32 := Some a, buf_32 := xs\<rparr>)"
proof -
  have wf: "heap_wf (heap s)" using assms(1) by (simp add: player_inv_def)
  have "a \<notin> h_live (heap s)" "h_live (heap s') = insert a (h_live (heap s))" "heap_wf (heap s')"
    using hp.alloc_fresh [OF wf assms(3)] hp.alloc_live [OF assms(3)] hp.alloc_wf [OF wf assms(3)] by simp_all
  with assms show ?thesis by (auto simp: player_inv_def)
qed

text \<open>The two allocation steps of the driver's loading keep the invariant.\<close>

lemma load_buf_16_inv:
  assumes inv: "player_inv s p" and l: "load_buf_16 (s, p) = (fail, s', p')"
  shows "player_inv s' p' \<and> h_fault (heap s') = h_fault (heap s) \<and> (\<not> fail \<longrightarrow> output_buf_16 p' \<noteq> None)"
proof (cases "output_buf_16 p")
  case None
  obtain q h where m: "malloc (heap s) = (q, h)" by (cases "malloc (heap s)")
  have g: "heap_grows (heap s) h" using heap_grows_malloc [of "heap s"] m by simp
  have f: "h_fault h = h_fault (heap s)" using hp.alloc_fault [OF m] .
  show ?thesis
  proof (cases q)
    case q: None
    have "player_inv (printf t (s\<lparr>heap := h\<rparr>)) p" for t
      by (rule player_inv_grows [OF inv]) (simp_all add: io_simps g)
    with q m f l None show ?thesis by (auto simp: load_buf_16_def io_malloc_def io_simps)
  next
    case (Some a)
    have "length (shorts_of_bytes (fresh_block h a CODEC_OUTPUT_BUFSIZE)) = CODEC_OUTPUT_BUFSIZE div 2"
      by (simp add: length_shorts_of_bytes fresh_block_def)
    from player_inv_alloc16 [OF inv None _ this, of a "s\<lparr>heap := h\<rparr>"] Some m f l None
    show ?thesis by (auto simp: load_buf_16_def io_malloc_def)
  qed
qed (use assms in \<open>auto simp: load_buf_16_def\<close>)

lemma load_buf_32_inv:
  assumes inv: "player_inv s p" and l: "load_buf_32 (s, p) = (fail, s', p')"
  shows "player_inv s' p' \<and> h_fault (heap s') = h_fault (heap s) \<and> (\<not> fail \<longrightarrow> output_buf_32 p' \<noteq> None) \<and>
    output_buf_16 p' = output_buf_16 p"
proof (cases "output_buf_32 p")
  case None
  obtain q h where m: "malloc (heap s) = (q, h)" by (cases "malloc (heap s)")
  have g: "heap_grows (heap s) h" using heap_grows_malloc [of "heap s"] m by simp
  have f: "h_fault h = h_fault (heap s)" using hp.alloc_fault [OF m] .
  show ?thesis
  proof (cases q)
    case q: None
    have "player_inv (printf t (s\<lparr>heap := h\<rparr>)) p" for t
      by (rule player_inv_grows [OF inv]) (simp_all add: io_simps g)
    with q m f l None show ?thesis by (auto simp: load_buf_32_def io_malloc_def io_simps)
  next
    case (Some a)
    have "length (shorts_of_bytes (fresh_block h a (CODEC_OUTPUT_BUFSIZE * 2))) = CODEC_OUTPUT_BUFSIZE"
      by (simp add: length_shorts_of_bytes fresh_block_def)
    from player_inv_alloc32 [OF inv None _ this, of a "s\<lparr>heap := h\<rparr>"] Some m f l None
    show ?thesis by (auto simp: load_buf_32_def io_malloc_def)
  qed
qed (use assms in \<open>auto simp: load_buf_32_def\<close>)

lemma load_driver_cases:
  assumes "duer_audio_dac_load_driver b (s, p, w) = Done (r, s', p', w')"
  obtains ret s1 p1 where "codec_init b (printf load_driver_text s, p, w) = Done (ret, s1, p1, w')"
    and "ret \<noteq> 0 \<and> r = ret \<and> p' = p1 \<and> (\<exists>t. s' = printf t s1) \<or>
      ret = 0 \<and> r = -1 \<and> load_buf_16 (s1, p1) = (True, s', p') \<or>
      (\<exists>s2 p2 fail. ret = 0 \<and> r = (if fail then -1 else 0) \<and> load_buf_16 (s1, p1) = (False, s2, p2) \<and>
         load_buf_32 (s2, p2) = (fail, s', p'))"
proof -
  obtain ret s1 p1 w1 where c: "codec_init b (printf load_driver_text s, p, w) = Done (ret, s1, p1, w1)"
    using assms by (auto simp: duer_audio_dac_load_driver_def split: run.splits)
  obtain f2 s2 p2 where l2: "load_buf_16 (s1, p1) = (f2, s2, p2)" by (cases "load_buf_16 (s1, p1)") auto
  obtain f3 s3 p3 where l3: "load_buf_32 (s2, p2) = (f3, s3, p3)" by (cases "load_buf_32 (s2, p2)") auto
  note a = assms [unfolded duer_audio_dac_load_driver_def prod.case c run.case l2 l3 Let_def]
  show thesis
  proof (cases "ret = 0")
    case False
    with a have "w1 = w'" "r = ret" "p' = p1" "\<exists>t. s' = printf t s1" by auto
    with False c show ?thesis by (intro that [of ret s1 p1]) auto
  next
    case True
    with a have "w1 = w'" "f2 \<and> r = -1 \<and> s' = s2 \<and> p' = p2 \<or>
        \<not> f2 \<and> r = (if f3 then -1 else 0) \<and> s' = s3 \<and> p' = p3"
      by (auto split: if_splits simp: l3)
    with True c l2 l3 show ?thesis by (intro that [of ret s1 p1]) auto
  qed
qed

lemma load_driver_inv:
  assumes inv: "player_inv s p"
    and load: "duer_audio_dac_load_driver b (s, p, w) = Done (r, s', p', w')"
  shows "player_inv s' p' \<and> h_fault (heap s') = h_fault (heap s) \<and>
    (r = 0 \<longrightarrow> output_buf_16 p' \<noteq> None \<and> output_buf_32 p' \<noteq> None)"
proof -
  obtain ret s1 p1 where c: "codec_init b (printf load_driver_text s, p, w) = Done (ret, s1, p1, w')"
    and cs: "ret \<noteq> 0 \<and> r = ret \<and> p' = p1 \<and> (\<exists>t. s' = printf t s1) \<or>
      ret = 0 \<and> r = -1 \<and> load_buf_16 (s1, p1) = (True, s', p') \<or>
      (\<exists>s2 p2 fail. ret = 0 \<and> r = (if fail then -1 else 0) \<and> load_buf_16 (s1, p1) = (False, s2, p2) \<and>
         load_buf_32 (s2, p2) = (fail, s', p'))"
    using load by (rule load_driver_cases)
  have inv1: "player_inv s1 p1" and f1: "h_fault (heap s1) = h_fault (heap s)"
    using codec_init_grows [OF c] player_inv_grows [OF inv, of s1 p1] inv
    by (auto simp: io_simps heap_grows_def player_inv_def)
  from cs show ?thesis
  proof (elim disjE conjE exE)
    fix t assume "ret \<noteq> 0" "r = ret" "p' = p1" "s' = printf t s1"
    moreover have "player_inv (printf t s1) p1"
      by (rule player_inv_grows [OF inv1]) (simp_all add: io_simps)
    ultimately show ?thesis using f1 by (simp add: io_simps)
  next
    assume "r = -1" "load_buf_16 (s1, p1) = (True, s', p')"
    with load_buf_16_inv [OF inv1 this(2)] f1 show ?thesis by simp
  next
    fix s2 p2 fail
    assume r: "r = (if fail then -1 else 0)" and l: "load_buf_16 (s1, p1) = (False, s2, p2)"
      "load_buf_32 (s2, p2) = (fail, s', p')"
    note 2 = load_buf_16_inv [OF inv1 l(1)]
    then have "player_inv s2 p2" by simp
    from load_buf_32_inv [OF this l(2)] 2 f1 r show ?thesis by (cases fail) simp_all
  qed
qed

lemma unload_driver_inv:
  assumes inv: "player_inv s p"
    and unload: "duer_audio_dac_unload_driver b (s, p, w) = (r, s', p', w')"
  shows "player_inv s' p' \<and> h_fault (heap s') = h_fault (heap s) \<and> r = 0 \<and>
    output_buf_16 p' = None \<and> output_buf_32 p' = None \<and>
    h_live (heap s') = h_live (heap s) - set_option (output_buf_16 p) - set_option (output_buf_32 p)"
proof -
  let ?h1 = "free_opt (output_buf_16 p) (heap s)"
  have s': "heap s' = free_opt (output_buf_32 p) ?h1" "r = 0"
    "output_buf_16 p' = None" "output_buf_32 p' = None"
    using unload by (auto simp: duer_audio_dac_unload_driver_def codec_uninit_def Let_def io_simps)
  have wf: "heap_wf (heap s)" using inv by (simp add: player_inv_def)
  have 1: "heap_wf ?h1 \<and> h_fault ?h1 = h_fault (heap s) \<and> h_live ?h1 = h_live (heap s) - set_option (output_buf_16 p)"
    using inv wf hp.free_live hp.free_fault hp.free_wf
    by (cases "output_buf_16 p") (auto simp: free_opt_def player_inv_def)
  have "heap_wf (heap s') \<and> h_fault (heap s') = h_fault ?h1 \<and> h_live (heap s') = h_live ?h1 - set_option (output_buf_32 p)"
  proof (cases "output_buf_32 p")
    case (Some a)
    then have "a \<in> h_live ?h1" using inv 1 by (cases "output_buf_16 p") (auto simp: player_inv_def)
    with Some 1 hp.free_live hp.free_fault hp.free_wf show ?thesis by (simp add: s' free_opt_def)
  qed (use 1 in \<open>simp add: s' free_opt_def\<close>)
  with 1 s' show ?thesis by (simp add: player_inv_def)
qed

text \<open>
  C30. Loading the driver and unloading it are safe on the heap in any order and number: a load keeps
  the invariant whatever fails in it, gives both buffers when it reports success, and never
  releases a block wrongly; an unload afterwards releases exactly the buffers that are there, once.
\<close>

theorem player_load_unload:
  assumes "player_inv s p" and "duer_audio_dac_load_driver b (s, p, w) = Done (r, s1, p1, w1)"
    and "duer_audio_dac_unload_driver b (s1, p1, w1) = (r2, s2, p2, w2)"
  shows "player_inv s1 p1 \<and> (r = 0 \<longrightarrow> output_buf_16 p1 \<noteq> None \<and> output_buf_32 p1 \<noteq> None) \<and>
    player_inv s2 p2 \<and> r2 = 0 \<and> output_buf_16 p2 = None \<and> output_buf_32 p2 = None \<and>
    h_fault (heap s2) = h_fault (heap s) \<and>
    h_live (heap s2) = h_live (heap s1) - set_option (output_buf_16 p1) - set_option (output_buf_32 p1)"
  using load_driver_inv [OF assms(1,2)] unload_driver_inv [OF _ assms(3)] by auto

text \<open>When the codecs come up and memory suffices, the driver loads.\<close>

lemma io_malloc_succeeds:
  assumes "\<forall>n. h_ok (heap s) n"
  obtains a s' where "io_malloc s = (Some a, s')" "\<forall>n. h_ok (heap s') n"
  using assms by (simp add: io_malloc_def malloc_def Let_def)

lemma load_driver_succeeds:
  assumes c: "codec_init b (printf load_driver_text s, p, w) = Done (0, s1, p1, w1)"
    and none: "output_buf_16 p1 = None" "output_buf_32 p1 = None" and ok: "\<forall>n. h_ok (heap s1) n"
  shows "\<exists>s' p'. duer_audio_dac_load_driver b (s, p, w) = Done (0, s', p', w1)"
proof -
  obtain a s2 where 1: "io_malloc s1 = (Some a, s2)" "\<forall>n. h_ok (heap s2) n"
    using io_malloc_succeeds [OF ok] .
  obtain a' s3 where 2: "io_malloc s2 = (Some a', s3)" using io_malloc_succeeds [OF 1(2)] .
  obtain p2 where 3: "load_buf_16 (s1, p1) = (False, s2, p2)" "output_buf_32 p2 = None"
    using 1(1) none by (simp add: load_buf_16_def)
  obtain p3 where "load_buf_32 (s2, p2) = (False, s3, p3)"
    using 2 3(2) by (simp add: load_buf_32_def)
  with 3(1) show ?thesis by (simp add: duer_audio_dac_load_driver_def c)
qed

text \<open>On the board of the examples both chips answer and the driver loads.\<close>

definition player_up :: player where
  "player_up = player0\<lparr>p_i2c := i2c_up0\<rparr>"

lemma sink_chip_ok: "a \<in> {0x10, 0x20} \<Longrightarrow> chip_ok (mem_api {0x10, 0x20}) {0x10, 0x20} mem_view i2c_up0 a mem0"
  using mem0_ok [of a "{0x10, 0x20}"] by (auto simp: chip_ok_def lock_free_def i2c_up0_def)

lemma sink_codec_init:
  "\<exists>w'. codec_init sink_board (s, player_up, mem0) =
     Done (0, vTaskDelay 60 s, player_up\<lparr>s_codec_inited := 1\<rparr>, w')"
proof -
  have bus: "i2c_bus i2c_up0 0 = Some 0" by (simp add: i2c_up0_def)
  have "chip_ok (mem_api {0x10, 0x20}) {0x10, 0x20} mem_view i2c_up0 ES8156_ADDR mem0"
    using sink_chip_ok by (simp add: ES8156_ADDR_def)
  from ES8156_init_ok [OF this mem_gpio_frame bus, of s] obtain w1 where
    1: "ES8156_codec_init (mem_api {0x10, 0x20}) mem_gpio (s, i2c_up0, mem0) = Done (0, s, i2c_up0, w1)"
    "chip_ok (mem_api {0x10, 0x20}) {0x10, 0x20} mem_view i2c_up0 ES8156_ADDR w1"
    by (auto simp: Let_def)
  then have "chip_ok (mem_api {0x10, 0x20}) {0x10, 0x20} mem_view i2c_up0 (of_int es7243e_addr0) w1"
    by (simp add: chip_ok_def es7243e_addr0_def)
  from es7243e_init_ok [OF this bus, of s] obtain w2 where
    2: "es7243e_adc_init (mem_api {0x10, 0x20}) es7243e_addr0 (s, i2c_up0, w1) =
      Done (0, vTaskDelay 60 s, i2c_up0, w2)" by auto
  have "player_up\<lparr>p_i2c := i2c_up0\<rparr> = player_up" by (simp add: player_up_def)
  then show ?thesis
    using 1(1) 2 by (simp add: codec_init_def i2s0_init_def sink_board_def sink_i2s_def player_up_def)
qed

theorem player_load_unload_witness:
  "\<exists>s1 p1 w1 s2 p2 w2. duer_audio_dac_load_driver sink_board (io0, player_up, mem0) = Done (0, s1, p1, w1) \<and>
     duer_audio_dac_unload_driver sink_board (s1, p1, w1) = (0, s2, p2, w2) \<and>
     output_buf_16 p1 \<noteq> None \<and> output_buf_32 p1 \<noteq> None \<and>
     h_live (heap s2) = h_live (heap s1) - set_option (output_buf_16 p1) - set_option (output_buf_32 p1)"
proof -
  have inv: "player_inv io0 player_up" by (simp add: player_inv_def player_up_def player0_def io0_def heap_wf_def)
  obtain w1 where c: "codec_init sink_board (printf load_driver_text io0, player_up, mem0) =
      Done (0, vTaskDelay 60 (printf load_driver_text io0), player_up\<lparr>s_codec_inited := 1\<rparr>, w1)"
    using sink_codec_init by blast
  have "\<exists>s1 p1. duer_audio_dac_load_driver sink_board (io0, player_up, mem0) = Done (0, s1, p1, w1)"
    by (rule load_driver_succeeds [OF c]) (simp_all add: player_up_def player0_def io0_def printf_def vTaskDelay_def)
  then obtain s1 p1 where l: "duer_audio_dac_load_driver sink_board (io0, player_up, mem0) = Done (0, s1, p1, w1)"
    by blast
  obtain r2 s2 p2 w2 where u: "duer_audio_dac_unload_driver sink_board (s1, p1, w1) = (r2, s2, p2, w2)"
    by (cases "duer_audio_dac_unload_driver sink_board (s1, p1, w1)") auto
  from player_load_unload [OF inv l u] l u show ?thesis by auto
qed

section \<open>The zero block\<close>

text \<open>A channel that keeps the first byte of what it is given last.\<close>

definition loud_board :: "mem_i2c board" where
  "loud_board = sink_board\<lparr>b_i2s := sink_i2s\<lparr>i2s_write_bytes := (\<lambda>p bs w. (0, w\<lparr>mi_sel := (\<lambda>_. hd bs)\<rparr>))\<rparr>\<rparr>"

lemma hd_const_map: "0 < n \<Longrightarrow> hd (map (\<lambda>_. c) [0..<n]) = c"
  by (simp add: upt_conv_Cons)

lemma loud_write: "snd (SPIL_OUTPUT_write_data loud_board bs w) = w\<lparr>mi_sel := \<lambda>_. hd bs\<rparr>"
  by (simp add: SPIL_OUTPUT_write_data_def loud_board_def)

lemma write_times_loud: "write_times loud_board bs (Suc n) w = w\<lparr>mi_sel := \<lambda>_. hd bs\<rparr>"
  by (induction n arbitrary: w) (simp_all only: write_times.simps loud_write, simp)

text \<open>
  \<open>dac_write_zero_data\<close> does not write zeros: what it puts on the channel, five times, is the
  4000 bytes of a fresh block as they are; they are zero only if the heap happens to hold zeros.
  The block is released again.
\<close>

lemma dac_write_zero_data_content:
  assumes "heap_wf (heap s)"
  shows "case dac_write_zero_data b (s, p, w) of (r, s', p', w') \<Rightarrow>
    p' = p \<and> h_live (heap s') = h_live (heap s) \<and> h_fault (heap s') = h_fault (heap s) \<and>
    (if h_ok (heap s) (h_next (heap s))
     then r = 0 \<and> w' = write_times b (map (h_init (heap s) (h_next (heap s))) [0..<4000]) 5 w
     else r = -1 \<and> w' = w)"
proof -
  define N where "N = DMA_BUF_CHANNEL * DMA_BUF_LEN * DMA_BUF_BITS_PER_SAMPLE div 8"
  have N: "N = 4000"
    by (simp add: N_def DMA_BUF_CHANNEL_def DMA_BUF_LEN_def DMA_BUF_BITS_PER_SAMPLE_def)
  obtain q h where m: "malloc (heap s) = (q, h)" by (cases "malloc (heap s)")
  then have io: "io_malloc s = (q, s\<lparr>heap := h\<rparr>)" by (simp add: io_malloc_def)
  have env: "h_init h = h_init (heap s)" using malloc_env(2) [of "heap s"] m by simp
  show ?thesis
  proof (cases q)
    case None
    with m have "\<not> h_ok (heap s) (h_next (heap s))" using malloc_fst [of "heap s"] by (simp split: if_splits)
    with None io m hp.alloc_none hp.alloc_fault show ?thesis
      by (simp add: dac_write_zero_data_def printf_def)
  next
    case (Some a)
    then have a: "h_ok (heap s) (h_next (heap s))" "a = h_next (heap s)"
      using m malloc_fst [of "heap s"] by (simp_all split: if_splits)
    note br = hp.bracket [OF assms m [unfolded Some]]
    have "dac_write_zero_data b (s, p, w) =
        (0, io_free (Some a) (s\<lparr>heap := h\<rparr>), p, write_times b (fresh_block h a N) DMA_BUF_COUNT w)"
      by (simp add: dac_write_zero_data_def io Some N_def)
    with a br show ?thesis
      by (simp add: N DMA_BUF_COUNT_def fresh_block_def env io_simps free_opt_def)
  qed
qed

lemma dac_write_zero_data_content_witness:
  "snd (snd (snd (dac_write_zero_data loud_board (io0\<lparr>heap := (heap io0)\<lparr>h_init := \<lambda>_ _. 7\<rparr>\<rparr>, player0, mem0)))) =
     mem0\<lparr>mi_sel := \<lambda>_. 7\<rparr>"
proof -
  let ?s = "io0\<lparr>heap := (heap io0)\<lparr>h_init := \<lambda>_ _. 7\<rparr>\<rparr>"
  have wf: "heap_wf (heap ?s)" by (simp add: io0_def heap_wf_def)
  have w: "write_times loud_board (map (\<lambda>_. 7) [0..<4000]) 5 mem0 = mem0\<lparr>mi_sel := \<lambda>_. 7\<rparr>"
    using write_times_loud [of "map (\<lambda>_. 7) [0..<4000]" 4 mem0] hd_const_map [of 4000 "7::u8"]
    by (simp only: Suc_numeral zero_less_numeral Num.BitM.simps semiring_norm)
  have ok: "h_ok (heap ?s) (h_next (heap ?s))" "h_init (heap ?s) (h_next (heap ?s)) = (\<lambda>_. 7)"
    by (simp_all add: io0_def)
  obtain r s' p' w' where d: "dac_write_zero_data loud_board (?s, player0, mem0) = (r, s', p', w')"
    by (cases "dac_write_zero_data loud_board (?s, player0, mem0)") auto
  have "w' = write_times loud_board (map (\<lambda>_. 7) [0..<4000]) 5 mem0"
    using dac_write_zero_data_content [OF wf, where b = loud_board and p = player0 and w = mem0]
    unfolding d prod.case ok(2) if_P [OF ok(1)] by (elim conjE)
  then show ?thesis by (simp only: d w snd_conv)
qed

section \<open>Volume\<close>

definition volume_step :: "int \<Rightarrow> nat" where
  "volume_step vol = nat (max 0 (min 20 (cdiv vol 5)))"

lemma volume_step_range: "volume_step vol < 21"
  by (auto simp: volume_step_def)

lemma max_cdiv_5: "max 0 (cdiv a 5) = max 0 a div 5"
proof (cases "0 \<le> a")
  case False
  then have "0 \<le> - a div 5" by simp
  with False show ?thesis by (simp add: cdiv_def signed_divide_int_def sgn_if)
qed (simp add: cdiv_nonneg)

lemma cdiv_5_mono: "a \<le> b \<Longrightarrow> max 0 (cdiv a 5) \<le> max 0 (cdiv b 5)"
  unfolding max_cdiv_5 by (intro zdiv_mono1) auto

lemma volume_step_mono: "a \<le> b \<Longrightarrow> volume_step a \<le> volume_step b"
  using cdiv_5_mono [of a b] by (auto simp: volume_step_def)

lemma volume_step_low: "vol < 25 \<Longrightarrow> volume_step vol \<le> 4"
  using volume_step_mono [of vol 24] by (simp add: volume_step_def cdiv_def)

text \<open>The table is strictly falling, so the register falls as the volume rises.\<close>

lemma g_vol_tbl_falls: "i \<le> j \<Longrightarrow> j < 21 \<Longrightarrow> g_vol_tbl ! j \<le> g_vol_tbl ! i"
proof -
  have "sorted (rev g_vol_tbl)" by (simp add: g_vol_tbl_def)
  moreover have "length g_vol_tbl = 21" by (simp add: g_vol_tbl_def)
  ultimately show "i \<le> j \<Longrightarrow> j < 21 \<Longrightarrow> g_vol_tbl ! j \<le> g_vol_tbl ! i"
    by (auto intro: sorted_rev_nth_mono)
qed

lemma g_vol_tbl_low: "i \<le> 4 \<Longrightarrow> 100 \<le> g_vol_tbl ! i"
  using g_vol_tbl_falls [of i 4] by (simp add: g_vol_tbl_def)

lemma volume_reg_mono: "a \<le> b \<Longrightarrow> volume_reg a \<le> volume_reg b"
  by (auto simp: volume_reg_def clamp_volume_def intro!: zdiv_mono1)

lemma set_volume_step:
  "duer_audio_dac_set_volume b vol (s, p, w) =
     (0, s, p, snd (ES8156_codec_set_voice_volume (b_i2c b) (p_i2c p) (g_vol_tbl ! volume_step vol) w))"
  by (cases "cdiv vol 5 = 20") (auto simp: duer_audio_dac_set_volume_def volume_step_def
      VOL_STEP_NUM_MAX_def Let_def split_def max_def min_def)

text \<open>
  Setting the volume of the player writes exactly one register of the codec.  The table of steps
  was made for an amplifier whose register is an attenuation: with the ES8156 a louder request gives
  a smaller or equal register, every request below 25 gives the full volume 191, and the request
  100 gives 93.
\<close>

lemma player_volume_inverted:
  assumes "chip_ok (b_i2c b) dev view (p_i2c p) ES8156_ADDR w" and "lo \<le> hi"
  shows "\<exists>w1 w2 lo_reg hi_reg.
    duer_audio_dac_set_volume b lo (s, p, w) = (0, s, p, w1) \<and>
    duer_audio_dac_set_volume b hi (s, p, w) = (0, s, p, w2) \<and>
    chip_regs view ES8156_ADDR w1 = (chip_regs view ES8156_ADDR w)(0x14 := of_int lo_reg) \<and>
    chip_regs view ES8156_ADDR w2 = (chip_regs view ES8156_ADDR w)(0x14 := of_int hi_reg) \<and>
    hi_reg \<le> lo_reg \<and> 0 \<le> hi_reg \<and> lo_reg \<le> 191 \<and>
    (lo < 25 \<longrightarrow> lo_reg = 191) \<and> (100 \<le> hi \<longrightarrow> hi_reg = 93)"
proof -
  let ?reg = "\<lambda>v. volume_reg (g_vol_tbl ! volume_step v)"
  have set: "\<exists>w'. duer_audio_dac_set_volume b v (s, p, w) = (0, s, p, w') \<and>
      chip_regs view ES8156_ADDR w' = (chip_regs view ES8156_ADDR w)(0x14 := of_int (?reg v))" for v
    using es8156.wr_ok [OF assms(1), of "0x14" "of_int (?reg v)"]
    by (auto simp: set_volume_step set_volume_eq)
  have "?reg hi \<le> ?reg lo"
    using assms(2) by (intro volume_reg_mono g_vol_tbl_falls volume_step_mono volume_step_range)
  moreover have "?reg lo = 191" if "lo < 25"
    using g_vol_tbl_low [OF volume_step_low [OF that]] by (simp add: volume_reg_def clamp_volume_def)
  moreover have "?reg hi = 93" if "100 \<le> hi"
  proof -
    have "volume_step hi = 20"
      using volume_step_mono [OF that] volume_step_range [of hi] by (simp add: volume_step_def cdiv_def)
    then show ?thesis by (simp add: g_vol_tbl_def volume_reg_def clamp_volume_def)
  qed
  ultimately show ?thesis
    using set [of lo] set [of hi] volume_reg_range by (metis (no_types, lifting))
qed

lemma player_volume_inverted_witness:
  "\<exists>w1 w2. duer_audio_dac_set_volume sink_board 0 (io0, player_up, mem0) = (0, io0, player_up, w1) \<and>
     duer_audio_dac_set_volume sink_board 100 (io0, player_up, mem0) = (0, io0, player_up, w2) \<and>
     chip_regs mem_view ES8156_ADDR w1 0x14 = 191 \<and> chip_regs mem_view ES8156_ADDR w2 0x14 = 93"
proof -
  have "chip_ok (b_i2c sink_board) {0x10, 0x20} mem_view (p_i2c player_up) ES8156_ADDR mem0"
    using sink_chip_ok [of "0x10"] by (simp add: ES8156_ADDR_def sink_board_def player_up_def)
  from player_volume_inverted [OF this, of 0 100 io0] show ?thesis by auto
qed

end
