(* ===== verification/Player_Stream.thy ===== *)
theory Player_Stream
  imports Player_Props Resample_Stream
begin

text \<open>
  The audio driver with streams of any format: the converter's counters are part of the state of an
  opened stream, and every write keeps them in step.  The firmware itself only plays at 48 kHz.
\<close>

section \<open>Streams of any format\<close>

text \<open>
  The stream that \<open>duer_audio_dac_start_play\<close> has opened: its format, and counters of the converter
  that are in step with it.
\<close>

definition stream_ready :: "int \<Rightarrow> int \<Rightarrow> player \<Rightarrow> bool" where
  "stream_ready channel sr p \<longleftrightarrow>
     s_channel p = channel \<and> s_sample_rate p = sr \<and> in_step sr SPIL_OUTPUT_SAMPLE_RATE (s_resample p)"

text \<open>
  A buffer of \<open>n\<close> samples per channel, at least six and at most one second, for which the driver's buffers have
  room at 48 kHz.
\<close>

definition buffer_ok :: "int \<Rightarrow> int \<Rightarrow> u8 list \<Rightarrow> bool" where
  "buffer_ok channel sr buf \<longleftrightarrow>
     (\<exists>n. length buf = 2 * (nat channel * n) \<and>
        block_ok sr SPIL_OUTPUT_SAMPLE_RATE 2 (CODEC_OUTPUT_BUFSIZE div 2) n)"

lemma start_play_ready:
  assumes "rate_ok sr" and "duer_audio_dac_start_play type channel sr bps (s, p, w) = (r, s', p', w')"
  shows "stream_ready channel sr p' \<and> r = 0 \<and> w' = w \<and> (player_inv s p \<longrightarrow> player_inv s' p')"
proof -
  have "rate_ok SPIL_OUTPUT_SAMPLE_RATE" by (simp add: rate_ok_def SPIL_OUTPUT_SAMPLE_RATE_def)
  from in_step_start [OF assms(1) this] assms(2) show ?thesis
    by (auto simp: duer_audio_dac_start_play_def stream_ready_def player_inv_def io_simps)
qed

lemma dac_convert_runs:
  assumes inv: "player_inv s p" and bufs: "output_buf_16 p \<noteq> None" and ch: "channel = 1 \<or> channel = 2"
    and sr: "rate_ok sr" and ready: "stream_ready channel sr p" and buf: "buffer_ok channel sr buf"
  shows "\<exists>msgs k b16 rs. dac_convert buf (length buf) p = Some (msgs, k, b16, rs) \<and>
    in_step sr SPIL_OUTPUT_SAMPLE_RATE rs"
proof -
  let ?x = "shorts_of_bytes buf" and ?t = SPIL_OUTPUT_SAMPLE_RATE
  have t: "rate_ok ?t" by (simp add: rate_ok_def SPIL_OUTPUT_SAMPLE_RATE_def)
  have len: "length (buf_16 p) = CODEC_OUTPUT_BUFSIZE div 2" using inv bufs by (auto simp: player_inv_def)
  note st = ready [unfolded stream_ready_def]
  then have step: "in_step sr ?t (s_resample p)" by blast
  obtain n where n: "length buf = 2 * (nat channel * n)" "block_ok sr ?t 2 (length (buf_16 p)) n"
    using buf unfolding buffer_ok_def len by blast
  have lx: "length ?x = nat channel * n" using n(1) by (simp add: length_shorts_of_bytes)
  from ch show ?thesis
  proof
    assume c: "channel = 1"
    with lx have "length ?x = n" by simp
    from up_channel_runs [OF sr t step this n(2)] st c n(1) show ?thesis
      by (auto simp: dac_convert_def)
  next
    assume c: "channel = 2"
    with lx have l2: "length ?x = 2 * n" by simp
    from resampling_process_runs [OF sr t step _ l2 n(2)] st c n(1) l2 show ?thesis
      by (auto simp: dac_convert_def)
  qed
qed

lemma dac_write_stream:
  assumes inv: "player_inv s p" and ch: "channel = 1 \<or> channel = 2"
    and sr: "rate_ok sr" and ready: "stream_ready channel sr p" and buf: "buffer_ok channel sr buf"
  shows "\<exists>r s' p' w'. duer_audio_dac_write b type buf (length buf) (s, p, w) = Done (r, s', p', w') \<and>
    player_inv s' p' \<and> stream_ready channel sr p' \<and> heap s' = heap s"
proof (cases "output_buf_16 p = None \<or> output_buf_32 p = None")
  case True
  then show ?thesis
    using inv ready by (auto simp: duer_audio_dac_write_def player_inv_def io_simps)
next
  case False
  then have bufs: "output_buf_16 p \<noteq> None" "output_buf_32 p \<noteq> None" by simp_all
  have c: "s_channel p = 1 \<or> s_channel p = 2" using ready ch by (auto simp: stream_ready_def)
  obtain msgs k b16 rs where conv: "dac_convert buf (length buf) p = Some (msgs, k, b16, rs)"
    and rs: "in_step sr SPIL_OUTPUT_SAMPLE_RATE rs"
    using dac_convert_runs [OF inv bufs(1) ch sr ready buf] by blast
  have l: "length (buf_32 p) = 2 * length (buf_16 p)"
    using inv bufs by (auto simp: player_inv_def CODEC_OUTPUT_BUFSIZE_def)
  from dac_write_spreads [OF conv l c bufs, of b type s w] obtain b32 where
    b32: "spread_loop b16 0 k (buf_32 p) = Some b32" "length b32 = length (buf_32 p)" "length b16 = length (buf_16 p)"
    by blast
  obtain r w' where i2s: "i2s_write_bytes (b_i2s b) 0 (bytes_of_shorts (take (2 * k) b32)) w = (r, w')"
    by (cases "i2s_write_bytes (b_i2s b) 0 (bytes_of_shorts (take (2 * k) b32)) w")
  have d: "duer_audio_dac_write b type buf (length buf) (s, p, w) =
      Done (r, fold printf msgs s, p\<lparr>buf_16 := b16, buf_32 := b32, s_resample := rs\<rparr>, w')"
    unfolding dac_write_eq [OF conv b32(1) c bufs] i2s Let_def prod.case ..
  have h: "heap (fold printf ms s) = heap s" for ms
    by (induction ms arbitrary: s) (simp_all add: io_simps)
  have "player_inv (fold printf msgs s) (p\<lparr>buf_16 := b16, buf_32 := b32, s_resample := rs\<rparr>)"
    using inv b32(2,3) by (simp add: player_inv_def h)
  with d rs ready h show ?thesis by (auto simp: stream_ready_def)
qed

text \<open>A client of the driver: opening a stream and writing buffer after buffer.\<close>

fun dac_write_all :: "'w board \<Rightarrow> u8 list list \<Rightarrow> ('a, 'w) pst \<Rightarrow> ('a, 'w) pst run" where
  "dac_write_all b [] st = Done st"
| "dac_write_all b (buf # bufs) st =
     (case duer_audio_dac_write b 0 buf (length buf) st of
        Done (_, st) \<Rightarrow> dac_write_all b bufs st
      | Crash c \<Rightarrow> Crash c | Hang \<Rightarrow> Hang | Restart (_, st) \<Rightarrow> Restart st)"

lemma dac_write_all_runs:
  assumes "channel = 1 \<or> channel = 2" "rate_ok sr"
  shows "player_inv s p \<Longrightarrow> stream_ready channel sr p \<Longrightarrow> list_all (buffer_ok channel sr) bufs \<Longrightarrow>
    \<exists>s' p' w'. dac_write_all b bufs (s, p, w) = Done (s', p', w') \<and> player_inv s' p' \<and> heap s' = heap s"
proof (induction bufs arbitrary: s p w)
  case (Cons buf bufs)
  then have ok: "buffer_ok channel sr buf" "list_all (buffer_ok channel sr) bufs" by simp_all
  obtain r s1 p1 w1 where "duer_audio_dac_write b 0 buf (length buf) (s, p, w) = Done (r, s1, p1, w1)"
    "player_inv s1 p1" "stream_ready channel sr p1" "heap s1 = heap s"
    using dac_write_stream [OF Cons.prems(1) assms Cons.prems(2) ok(1), of b 0 w] by blast
  with Cons.IH [of s1 p1 w1] ok(2) show ?case by simp
qed simp

text \<open>
  C13. The driver plays a stream of any rate up to 65536 Hz, mono or stereo: once the stream is opened,
  buffer after buffer, of at least six samples and at most one second for each channel, and
  not more than the driver's own buffers have room for, is converted and
  written without a read or a write outside a buffer, whatever the channel answers.
\<close>

theorem dac_plays_any_stream:
  assumes "player_inv s p" and "channel = 1 \<or> channel = 2" and "rate_ok sr"
    and "list_all (buffer_ok channel sr) bufs"
    and "duer_audio_dac_start_play type channel sr bps (s, p, w) = (r, st)"
  shows "\<exists>s' p' w'. dac_write_all b bufs st = Done (s', p', w') \<and> player_inv s' p' \<and> heap s' = heap s"
proof -
  obtain s1 p1 w1 where st: "st = (s1, p1, w1)" by (cases st)
  note play = assms(5) [unfolded st]
  have "heap s1 = heap s" using play by (auto simp: duer_audio_dac_start_play_def io_simps)
  with dac_write_all_runs [OF assms(2,3) _ _ assms(4), of s1 p1 b w1] start_play_ready [OF assms(3) play] assms(1)
  show ?thesis by (auto simp: st)
qed

theorem dac_plays_any_stream_witness:
  "\<exists>st s' p' w'. duer_audio_dac_start_play 0 2 44100 16
       (io0\<lparr>heap := (heap io0)\<lparr>h_live := {0, 1}, h_next := 2\<rparr>\<rparr>,
        tiny_player\<lparr>buf_16 := replicate 12288 0, buf_32 := replicate 24576 0\<rparr>, mem0) = (0, st) \<and>
     dac_write_all sink_board (replicate 50 (replicate 4096 7)) st = Done (s', p', w') \<and>
     h_live (heap s') = {0, 1}"
proof -
  let ?s = "io0\<lparr>heap := (heap io0)\<lparr>h_live := {0, 1}, h_next := 2\<rparr>\<rparr>"
    and ?p = "tiny_player\<lparr>buf_16 := replicate 12288 0, buf_32 := replicate 24576 0\<rparr>"
  have inv: "player_inv ?s ?p"
    by (simp add: player_inv_def tiny_player_def io0_def heap_wf_def CODEC_OUTPUT_BUFSIZE_def)
  have "buffer_ok 2 44100 (replicate 4096 7)"
    unfolding buffer_ok_def
    by (intro exI [of _ 1024]) (simp add: block_ok_def INPCM_DELAY_SIZE_def SPIL_OUTPUT_SAMPLE_RATE_def CODEC_OUTPUT_BUFSIZE_def)
  then have l: "list_all (buffer_ok 2 44100) (replicate 50 (replicate 4096 7))" by (simp add: list_all_iff)
  obtain st where st: "duer_audio_dac_start_play 0 2 44100 16 (?s, ?p, mem0) = (0, st)"
    by (simp add: duer_audio_dac_start_play_def)
  have "rate_ok 44100" by (simp add: rate_ok_def)
  from dac_plays_any_stream [OF inv _ this l st, of sink_board] st show ?thesis by auto
qed

end
