(* ===== verification/Audio_Cases.thy ===== *)
theory Audio_Cases
  imports Player_Props Result_Out Commands
begin

text \<open>
  The audio cases (main/case/player\_recorder\_case.c, main/case/nolinear\_case.c): a command loads the
  audio driver, sets the volume and starts two tasks, one that plays a sound from flash and one that
  records the microphones and sends the recording to the host.

  A task is a program counter: a constructor for each stretch of its code, with the task's local
  variables as arguments.  The functions \<open>player_exec\<close> and \<open>recorder_exec\<close> run a task from one program
  counter to the next, and the step relation \<open>audio_step\<close> interleaves the tasks and the commands in
  any order.  The two source files have the same two task functions up to constants and texts: the
  argument \<open>k\<close> says whose they are.
\<close>

section \<open>The interfaces\<close>

datatype audio_kind = Nolinear_case | Player_recorder_case

record bds_pcm_params =
  pcm_channel :: int
  pcm_sample :: int
  pcm_bitrate :: int

text \<open>
  The recorder of the voice SDK, the task creation of FreeRTOS and the embedded sound files, over
  the same outside world as the audio board.  \<open>bds_pcm_read\<close> gives its return value, the bytes it
  stores into the buffer and the length it reports.
\<close>

record 'w audio_api =
  aa_board :: "'w board"
  bds_pcm_open :: "bds_pcm_params \<Rightarrow> 'w \<Rightarrow> (nat option \<times> int) \<times> 'w"
  bds_pcm_read :: "nat \<Rightarrow> 'w \<Rightarrow> (int \<times> u8 list \<times> int) \<times> 'w"
  bds_pcm_close :: "nat \<Rightarrow> 'w \<Rightarrow> 'w"
  xTaskCreate :: "string \<Rightarrow> nat \<Rightarrow> nat \<Rightarrow> 'w \<Rightarrow> bool \<times> 'w"
  audio_wav :: "audio_kind \<Rightarrow> u8 list"

section \<open>Constants of the two files\<close>

fun PLAYER_PCM_SIZE :: "audio_kind \<Rightarrow> int" where
  "PLAYER_PCM_SIZE Nolinear_case = 1 * 96 * 10000"
| "PLAYER_PCM_SIZE Player_recorder_case = 1 * 96 * 2000"

fun RECORDER_PCM_SIZE :: "audio_kind \<Rightarrow> nat" where
  "RECORDER_PCM_SIZE Nolinear_case = 3 * 32 * 10000 + 4096"
| "RECORDER_PCM_SIZE Player_recorder_case = 3 * 32 * 2000 + 1024"

definition PLAYER_FRAME_SIZE :: nat where "PLAYER_FRAME_SIZE = 1024"

fun write_fail_text :: "audio_kind \<Rightarrow> string" where
  "write_fail_text Nolinear_case = ''write dac fail!''"
| "write_fail_text Player_recorder_case = ''player write pa failed''"

section \<open>State\<close>

text \<open>The stretches of the two task functions.\<close>

datatype player_pc =
    P_Start
  | P_Write (p_pcm_length: int) (p_offset: nat)
  | P_Stop
  | P_End

datatype recorder_pc =
    R_Start
  | R_Read (r_handle: nat) (r_mini: int) (r_block: nat) (r_data: "u8 list") (r_pcm_length: int)
  | R_Close nat nat "u8 list"
  | R_Send string nat "u8 list" nat
  | R_Free nat
  | R_End

datatype task_pc = Playing player_pc | Recording recorder_pc

text \<open>
  The static variables of the two files (\<open>testing\<close> of each start function, the pointers to the
  header and the command of the microphone cases) and the tasks that were created.
\<close>

record audio =
  testing_nolinear :: int
  testing_mic :: int
  testcase_header :: "string option"
  mic_cmd :: "string option"
  tasks :: "(audio_kind \<times> task_pc) list"

definition audio0 :: audio where
  "audio0 = \<lparr>testing_nolinear = 0, testing_mic = 0, testcase_header = None, mic_cmd = None, tasks = []\<rparr>"

type_synonym 'w ast = "audio \<times> sys \<times> player \<times> 'w"

text \<open>The header a task prints: a constant in one file, the shared pointer in the other.\<close>

definition task_header :: "audio_kind \<Rightarrow> audio \<Rightarrow> string" where
  "task_header k m =
     (case k of Nolinear_case \<Rightarrow> RESULT_NOLINEAR
      | Player_recorder_case \<Rightarrow> (case testcase_header m of Some t \<Rightarrow> t | None \<Rightarrow> ''(null)''))"

section \<open>The player task\<close>

text \<open>
  One pass of the loop reads the next frame of the sound.  Reading beyond the embedded file is
  reading beyond the bounds of an object.
\<close>

fun player_exec ::
  "'w audio_api \<Rightarrow> audio_kind \<Rightarrow> string \<Rightarrow> player_pc \<Rightarrow> sys \<times> player \<times> 'w \<Rightarrow>
     (player_pc \<times> sys \<times> player \<times> 'w) run" where
  "player_exec api k hdr P_Start st =
     (let (ret, s, p, w) = duer_audio_dac_start_play 0 1 48000 16 st
      in if ret \<noteq> 0
         then Done (P_End, out_print_result hdr FAILED ''init dac fail!'' s, p, w)
         else Done (P_Write 0 0, s, p, w))"
| "player_exec api k hdr (P_Write pcm_length offset) st =
     (if offset + PLAYER_FRAME_SIZE > length (audio_wav api k) then Crash Out_of_bounds
      else
        case duer_audio_dac_write (aa_board api) 0
               (take PLAYER_FRAME_SIZE (drop offset (audio_wav api k))) PLAYER_FRAME_SIZE st of
          Done (ret, s, p, w) \<Rightarrow>
            if ret < 0 then Done (P_Stop, out_print_result hdr FAILED (write_fail_text k) s, p, w)
            else
              let pcm_length = pcm_length + int PLAYER_FRAME_SIZE;
                  offset = offset + PLAYER_FRAME_SIZE
              in if pcm_length > PLAYER_PCM_SIZE k \<or> offset > length (audio_wav api k)
                 then Done (P_Stop, s, p, w)
                 else Done (P_Write pcm_length offset, vTaskDelay (2 div portTICK_PERIOD_MS) s, p, w)
        | Crash c \<Rightarrow> Crash c | Hang \<Rightarrow> Hang
        | Restart (ret, s, p, w) \<Rightarrow> Restart (P_Stop, s, p, w))"
| "player_exec api k hdr P_Stop st =
     (let (_, s, p, w) = duer_audio_dac_wait_play_end (aa_board api) st;
          (_, s, p, w) = duer_audio_dac_unload_driver (aa_board api) (s, p, w)
      in Done (P_End, s, p, w))"
| "player_exec api k hdr P_End st = Done (P_End, st)"

section \<open>The recorder task\<close>

text \<open>Storing the bytes of a read into the recording; \<open>None\<close> if they do not fit.\<close>

definition store_bytes :: "u8 list \<Rightarrow> int \<Rightarrow> u8 list \<Rightarrow> u8 list option" where
  "store_bytes data pos bs =
     (if pos < 0 \<or> nat pos + length bs > length data then None
      else Some (take (nat pos) data @ bs @ drop (nat pos + length bs) data))"

text \<open>
  One pass of the loop of \<open>data_out_exec\<close> (see Result\_Out): the next position, or nothing when the
  loop ends.
\<close>

definition data_out_pass :: "string \<Rightarrow> u8 list \<Rightarrow> nat \<Rightarrow> sys \<Rightarrow> nat option \<times> sys" where
  "data_out_pass test_case data pcm_length s =
     (if length data < UART_OUT_SIZE then (None, out_print_data test_case data s)
      else if pcm_length + UART_OUT_SIZE > length data then (None, s)
      else
        let s = out_print_data test_case (take UART_OUT_SIZE (drop pcm_length data)) s;
            pcm_length = pcm_length + UART_OUT_SIZE
        in if pcm_length \<ge> length data then (None, s)
           else (Some pcm_length, vTaskDelay (6 div portTICK_PERIOD_MS) s))"

definition recorder_pam :: bds_pcm_params where
  "recorder_pam = \<lparr>pcm_channel = 3, pcm_sample = 16000, pcm_bitrate = 16\<rparr>"

text \<open>
  \<open>vTaskDelete (NULL)\<close> ends the task where it stands.  The block of the recording holds what
  memory held until it is overwritten.
\<close>

fun recorder_exec ::
  "'w audio_api \<Rightarrow> audio_kind \<Rightarrow> string \<Rightarrow> recorder_pc \<Rightarrow> sys \<times> 'w \<Rightarrow>
     (recorder_pc \<times> sys \<times> 'w) run" where
  "recorder_exec api k hdr R_Start (s, w) =
     (let ((handle, mini_buffer_size), w) = bds_pcm_open api recorder_pam w
      in case handle of
           None \<Rightarrow> Done (R_End, out_print_result hdr FAILED ''bds pcm reader open fail'' s, w)
         | Some h \<Rightarrow>
             let (out_buffer, s) = io_malloc s
             in (case out_buffer of
                   None \<Rightarrow> Done (R_End, out_print_result hdr FAILED ''malloc fail'' s, w)
                 | Some a \<Rightarrow> Done (R_Read h mini_buffer_size a
                                   (fresh_block (heap s) a (RECORDER_PCM_SIZE k)) 0, s, w)))"
| "recorder_exec api k hdr (R_Read h mini a data pcm_length) (s, w) =
     (if pcm_length + mini > int (RECORDER_PCM_SIZE k) then Done (R_Close h a data, s, w)
      else
        let ((ret, bs, out_length), w) = bds_pcm_read api h w
        in case store_bytes data pcm_length bs of
             None \<Rightarrow> Crash Out_of_bounds
           | Some data \<Rightarrow>
               if ret < 0
               then Done (R_Close h a data, out_print_result hdr FAILED ''mic read error'' s, w)
               else
                 let pcm_length = pcm_length + out_length
                 in if pcm_length \<ge> int (RECORDER_PCM_SIZE k) then Done (R_Close h a data, s, w)
                    else Done (R_Read h mini a data pcm_length, vTaskDelay (2 div portTICK_PERIOD_MS) s, w))"
| "recorder_exec api k hdr (R_Close h a data) (s, w) =
     Done (R_Send hdr a data 0, printf (''data out start'' @ newline) s, bds_pcm_close api h w)"
| "recorder_exec api k hdr (R_Send t a data pos) (s, w) =
     (case data_out_pass t data pos s of
        (None, s) \<Rightarrow> Done (R_Free a, s, w)
      | (Some pos, s) \<Rightarrow> Done (R_Send t a data pos, s, w))"
| "recorder_exec api k hdr (R_Free a) (s, w) =
     Done (R_End, out_print_data_ctl hdr (io_free (Some a) s), w)"
| "recorder_exec api k hdr R_End (s, w) = Done (R_End, s, w)"

section \<open>The commands\<close>

text \<open>
  The volume argument: the digits after the command, at most three, or a default.  The length is a
  difference of two \<open>size_t\<close> values.
\<close>

definition volume_arg :: "string \<Rightarrow> nat \<Rightarrow> int \<Rightarrow> int" where
  "volume_arg cmdline preLen dflt =
     (let inputVolLen = size_diff (length cmdline) preLen
      in if inputVolLen > 0 \<and> inputVolLen \<le> 3
         then foldl (\<lambda>vol i. vol * 10 + (of_char (cmdline ! (i + preLen)) :: int) - 0x30) 0
                [0..<unat inputVolLen]
         else dflt)"

text \<open>Creating the two tasks, in the order of the code; the result tells which step failed.\<close>

definition create_task ::
  "'w audio_api \<Rightarrow> string \<Rightarrow> nat \<Rightarrow> audio_kind \<times> task_pc \<Rightarrow> audio \<times> 'w \<Rightarrow> bool \<times> audio \<times> 'w" where
  "create_task api name stack t = (\<lambda>(m, w).
     let (ok, w) = xTaskCreate api name stack 5 w
     in (ok, if ok then m\<lparr>tasks := tasks m @ [t]\<rparr> else m, w))"

definition start_nolinear_case :: "'w audio_api \<Rightarrow> string \<Rightarrow> 'w ast \<Rightarrow> (int \<times> 'w ast) run" where
  "start_nolinear_case api cmdline = (\<lambda>(m, s, p, w).
     let preLen = length CMD_NOLINEAR + 1
     in if testing_nolinear m = 1
        then Done (-1, m, out_print_result RESULT_NOLINEAR FAILED ''testing'' s, p, w)
        else
          let m = m\<lparr>testing_nolinear := 1\<rparr>;
              vol = volume_arg cmdline preLen 100
          in case duer_audio_dac_load_driver (aa_board api) (s, p, w) of
               Done (ret, s, p, w) \<Rightarrow>
                 let (_, s, p, w) = duer_audio_dac_set_volume (aa_board api) vol (s, p, w)
                 in if ret \<noteq> 0
                    then Done (-1, m, out_print_result RESULT_NOLINEAR FAILED ''pa driver load error'' s, p, w)
                    else
                      let (ok, m, w) = create_task api ''recorder_task'' (1024 * 8)
                                         (Nolinear_case, Recording R_Start) (m, w)
                      in if \<not> ok
                         then Done (-1, m, out_print_result RESULT_NOLINEAR FAILED ''start recorder_task fail'' s, p, w)
                         else
                           let (ok, m, w) = create_task api ''player_task'' (1024 * 8)
                                              (Nolinear_case, Playing P_Start) (m, w)
                           in if \<not> ok
                              then Done (-1, m, out_print_result RESULT_NOLINEAR FAILED ''start player_task fail'' s, p, w)
                              else Done (0, m\<lparr>testing_nolinear := 0\<rparr>, s, p, w)
             | Crash c \<Rightarrow> Crash c | Hang \<Rightarrow> Hang | Restart (r, s, p, w) \<Rightarrow> Restart (r, m, s, p, w))"

definition start_player_recorder_case ::
  "'w audio_api \<Rightarrow> int \<Rightarrow> string \<Rightarrow> 'w ast \<Rightarrow> (int \<times> 'w ast) run" where
  "start_player_recorder_case api type cmdline = (\<lambda>(m, s, p, w).
     let cmd = (if type = 0 then CMD_PA_MIC else CMD_SEAL);
         header = (if type = 0 then RESULT_PA_MIC_DATA else RESULT_SEAL);
         m = m\<lparr>mic_cmd := Some cmd, testcase_header := Some header\<rparr>;
         preLen = length cmd + 1
     in if testing_mic m = 1 then Done (-1, m, s, p, w)
        else
          let m = m\<lparr>testing_mic := 1\<rparr>;
              vol = volume_arg cmdline preLen 70
          in case duer_audio_dac_load_driver (aa_board api) (s, p, w) of
               Done (ret, s, p, w) \<Rightarrow>
                 let (_, s, p, w) = duer_audio_dac_set_volume (aa_board api) vol (s, p, w)
                 in if ret \<noteq> 0 then Done (-1, m, s, p, w)
                    else
                      let (ok, m, w) = create_task api ''recorder_task'' (1024 * 4)
                                         (Player_recorder_case, Recording R_Start) (m, w)
                      in if \<not> ok
                         then Done (-1, m, out_print_result header FAILED ''start recorder_task fail'' s, p, w)
                         else
                           let (ok, m, w) = create_task api ''player_task'' (1024 * 4)
                                              (Player_recorder_case, Playing P_Start) (m, w)
                           in if \<not> ok
                              then Done (-1, m, out_print_result header FAILED ''start player_task fail'' s, p, w)
                              else Done (0, m\<lparr>testing_mic := 0\<rparr>, s, p, w)
             | Crash c \<Rightarrow> Crash c | Hang \<Rightarrow> Hang | Restart (r, s, p, w) \<Rightarrow> Restart (r, m, s, p, w))"

section \<open>Interleaving\<close>

fun task_step ::
  "'w audio_api \<Rightarrow> audio \<Rightarrow> audio_kind \<times> task_pc \<Rightarrow> sys \<times> player \<times> 'w \<Rightarrow>
     ((audio_kind \<times> task_pc) \<times> sys \<times> player \<times> 'w) run" where
  "task_step api m (k, Playing pc) st =
     (case player_exec api k (task_header k m) pc st of
        Done (pc, st) \<Rightarrow> Done ((k, Playing pc), st)
      | Crash c \<Rightarrow> Crash c | Hang \<Rightarrow> Hang | Restart (pc, st) \<Rightarrow> Restart ((k, Playing pc), st))"
| "task_step api m (k, Recording pc) (s, p, w) =
     (case recorder_exec api k (task_header k m) pc (s, w) of
        Done (pc, s, w) \<Rightarrow> Done ((k, Recording pc), s, p, w)
      | Crash c \<Rightarrow> Crash c | Hang \<Rightarrow> Hang | Restart (pc, s, w) \<Rightarrow> Restart ((k, Recording pc), s, p, w))"

text \<open>Any task that was created may run next, and any audio command may arrive.\<close>

inductive audio_step :: "'w audio_api \<Rightarrow> 'w ast \<Rightarrow> 'w ast \<Rightarrow> bool" for api where
  run_task: "i < length (tasks m) \<Longrightarrow> task_step api m (tasks m ! i) (s, p, w) = Done (t, s', p', w') \<Longrightarrow>
     audio_step api (m, s, p, w) (m\<lparr>tasks := (tasks m)[i := t]\<rparr>, s', p', w')"
| nolinear: "start_nolinear_case api cmdline st = Done (r, st') \<Longrightarrow> audio_step api st st'"
| recorder: "start_player_recorder_case api type cmdline st = Done (r, st') \<Longrightarrow> audio_step api st st'"

inductive audio_reach :: "'w audio_api \<Rightarrow> 'w ast \<Rightarrow> 'w ast \<Rightarrow> bool" for api st0 where
  start: "audio_reach api st0 st0"
| step: "audio_reach api st0 st \<Longrightarrow> audio_step api st st' \<Longrightarrow> audio_reach api st0 st'"

inductive_cases audio_stepE: "audio_step api st st'"

end
