(* ===== verification/Audio_Props.thy ===== *)
theory Audio_Props
  imports Audio_Cases
begin

text \<open>
  The properties of the audio cases: the memory safety of the two tasks under every interleaving,
  that both tasks end, what a recording sends, the volume argument, and what the \<open>testing\<close> flags
  come to.
\<close>

section \<open>What the player may touch\<close>

definition player_blocks :: "player \<Rightarrow> nat set" where
  "player_blocks p = set_option (output_buf_16 p) \<union> set_option (output_buf_32 p)"

definition stream_same :: "player \<Rightarrow> player \<Rightarrow> bool" where
  "stream_same p p' \<longleftrightarrow> s_channel p' = s_channel p \<and> s_sample_rate p' = s_sample_rate p"

text \<open>
  \<open>player_only\<close>: a step of the player that keeps its invariant, releases no block but its own and
  takes over no block of somebody else.  Such steps compose.
\<close>

definition player_only :: "'a io_scheme \<Rightarrow> player \<Rightarrow> 'a io_scheme \<Rightarrow> player \<Rightarrow> bool" where
  "player_only s p s' p' \<longleftrightarrow>
     (player_inv s p \<longrightarrow>
        player_inv s' p' \<and> h_fault (heap s') = h_fault (heap s) \<and>
        h_live (heap s) - player_blocks p \<subseteq> h_live (heap s') - player_blocks p')"

lemma player_only_refl: "heap s' = heap s \<Longrightarrow> output_buf_16 p' = output_buf_16 p \<Longrightarrow>
    output_buf_32 p' = output_buf_32 p \<Longrightarrow> length (buf_16 p') = length (buf_16 p) \<Longrightarrow>
    length (buf_32 p') = length (buf_32 p) \<Longrightarrow> player_only s p s' p'"
  by (simp add: player_only_def player_inv_def player_blocks_def)

lemma player_only_trans:
  "player_only s1 p1 s2 p2 \<Longrightarrow> player_only s2 p2 s3 p3 \<Longrightarrow> player_only s1 p1 s3 p3"
  by (auto simp: player_only_def)

lemma player_only_grows:
  assumes "heap_grows (heap s) (heap s')" and "output_buf_16 p' = output_buf_16 p"
    and "output_buf_32 p' = output_buf_32 p" and "buf_16 p' = buf_16 p" and "buf_32 p' = buf_32 p"
  shows "player_only s p s' p'"
  using assms player_inv_grows [of s p s' p']
  by (auto simp: player_only_def player_blocks_def heap_grows_def player_inv_def)

lemma load_buf_16_only: "load_buf_16 (s, p) = (fail, s', p') \<Longrightarrow> player_only s p s' p'"
proof -
  assume l: "load_buf_16 (s, p) = (fail, s', p')"
  have "h_live (heap s) - player_blocks p \<subseteq> h_live (heap s') - player_blocks p'" if "heap_wf (heap s)"
    using l hp.alloc_fresh [OF that] hp.alloc_live hp.alloc_none
    by (cases "malloc (heap s)")
       (fastforce simp: load_buf_16_def io_malloc_def player_blocks_def io_simps
         split: option.splits if_splits)
  then show ?thesis using load_buf_16_inv [OF _ l] by (auto simp: player_only_def player_inv_def)
qed

lemma load_buf_32_only: "load_buf_32 (s, p) = (fail, s', p') \<Longrightarrow> player_only s p s' p'"
proof -
  assume l: "load_buf_32 (s, p) = (fail, s', p')"
  have "h_live (heap s) - player_blocks p \<subseteq> h_live (heap s') - player_blocks p'" if "heap_wf (heap s)"
    using l hp.alloc_fresh [OF that] hp.alloc_live hp.alloc_none
    by (cases "malloc (heap s)")
       (fastforce simp: load_buf_32_def io_malloc_def player_blocks_def io_simps
         split: option.splits if_splits)
  then show ?thesis using load_buf_32_inv [OF _ l] by (auto simp: player_only_def player_inv_def)
qed

lemma load_driver_only:
  assumes "duer_audio_dac_load_driver b (s, p, w) = Done (r, s', p', w')"
  shows "player_only s p s' p'"
proof -
  obtain ret s1 p1 where c: "codec_init b (printf load_driver_text s, p, w) = Done (ret, s1, p1, w')"
    and cs: "ret \<noteq> 0 \<and> r = ret \<and> p' = p1 \<and> (\<exists>t. s' = printf t s1) \<or>
      ret = 0 \<and> r = -1 \<and> load_buf_16 (s1, p1) = (True, s', p') \<or>
      (\<exists>s2 p2 fail. ret = 0 \<and> r = (if fail then -1 else 0) \<and> load_buf_16 (s1, p1) = (False, s2, p2) \<and>
         load_buf_32 (s2, p2) = (fail, s', p'))"
    using assms by (rule load_driver_cases)
  have 1: "player_only s p s1 p1"
    by (rule player_only_grows) (use codec_init_grows [OF c] in \<open>simp_all add: io_simps\<close>)
  have "player_only s1 p1 s' p'"
    using cs by (auto intro: load_buf_16_only load_buf_32_only player_only_refl player_only_trans simp: io_simps)
  with 1 show ?thesis by (rule player_only_trans)
qed

lemma zero_data_only:
  assumes "dac_write_zero_data b (s, p, w) = (r, s', p', w')"
  shows "player_only s p s' p' \<and> p' = p"
proof -
  have "heap_grows (heap s) (heap s')"
    using assms heap_grows_bracket [of "heap s"] heap_grows_malloc [of "heap s"]
    by (auto simp: dac_write_zero_data_def io_malloc_def io_free_def free_opt_def Let_def io_simps
        split: prod.splits option.splits)
  moreover have "p' = p"
    using assms by (auto simp: dac_write_zero_data_def Let_def split: prod.splits option.splits)
  ultimately show ?thesis by (auto intro: player_only_grows)
qed

lemma wait_play_end_only:
  assumes "duer_audio_dac_wait_play_end b (s, p, w) = (r, s', p', w')"
  shows "player_only s p s' p' \<and> p' = p"
proof -
  obtain r1 s1 p1 w1 where z: "dac_write_zero_data b (s, p, w) = (r1, s1, p1, w1)"
    by (cases "dac_write_zero_data b (s, p, w)") auto
  then have "s' = s1" "p' = p1"
    using assms by (auto simp: duer_audio_dac_wait_play_end_def Let_def split: prod.splits)
  with zero_data_only [OF z] show ?thesis by auto
qed

lemma unload_driver_only:
  assumes "duer_audio_dac_unload_driver b (s, p, w) = (r, s', p', w')"
  shows "player_only s p s' p' \<and> stream_same p p'"
proof -
  have "stream_same p p'"
    using assms by (auto simp: duer_audio_dac_unload_driver_def stream_same_def codec_uninit_def Let_def)
  then show ?thesis
    using unload_driver_inv [OF _ assms] by (auto simp: player_only_def player_blocks_def)
qed

lemma start_play_only:
  "duer_audio_dac_start_play t c r bps (s, p, w) = (x, s', p', w') \<Longrightarrow>
     x = 0 \<and> player_only s p s' p' \<and> s_channel p' = c \<and> s_sample_rate p' = r \<and> w' = w"
  by (auto simp: duer_audio_dac_start_play_def intro!: player_only_refl simp: io_simps)

lemma stream_same_simps: "stream_same p p"
  by (simp add: stream_same_def)

lemma codec_init_stream: "codec_init b (s, p, w) = Done (r, s', p', w') \<Longrightarrow> stream_same p p'"
  by (auto simp: codec_init_def stream_same_def Let_def split: run.splits prod.splits if_splits)

lemma load_buf_stream:
  "load_buf_16 (s, p) = (f, s', p') \<Longrightarrow> stream_same p p'"
  "load_buf_32 (s, p) = (f, s', p') \<Longrightarrow> stream_same p p'"
  by (auto simp: load_buf_16_def load_buf_32_def stream_same_def Let_def
      split: prod.splits option.splits if_splits)

lemma stream_same_trans: "stream_same p q \<Longrightarrow> stream_same q r \<Longrightarrow> stream_same p r"
  by (simp add: stream_same_def)

lemma load_driver_stream:
  "duer_audio_dac_load_driver b (s, p, w) = Done (r, s', p', w') \<Longrightarrow> stream_same p p'"
  by (erule load_driver_cases)
     (auto dest!: codec_init_stream load_buf_stream intro: stream_same_trans stream_same_simps)

text \<open>What any write that ends keeps of the player.\<close>

lemma dac_write_same_player:
  assumes inv: "player_inv s p" and bufs: "output_buf_16 p \<noteq> None \<and> output_buf_32 p \<noteq> None"
    and d: "duer_audio_dac_write b t buf sz (s, p, w) = Done (r, s', p', w')"
  shows "output_buf_16 p' = output_buf_16 p \<and> output_buf_32 p' = output_buf_32 p \<and>
    length (buf_16 p') = length (buf_16 p) \<and> length (buf_32 p') = length (buf_32 p) \<and>
    s_channel p' = s_channel p \<and> s_sample_rate p' = s_sample_rate p"
proof (cases "s_channel p = 1 \<or> s_channel p = 2")
  case False
  then show ?thesis using d bufs by (simp add: duer_audio_dac_write_def)
next
  case True
  obtain msgs k b16 rs where c: "dac_convert buf sz p = Some (msgs, k, b16, rs)"
    using d bufs True by (auto simp: duer_audio_dac_write_def split: option.splits)
  have "length (buf_32 p) = 2 * length (buf_16 p)"
    using inv bufs by (auto simp: player_inv_def CODEC_OUTPUT_BUFSIZE_def)
  from dac_write_spreads [OF c this True, of b t s w] bufs d show ?thesis by auto
qed

text \<open>A write of a frame of the sound: it never fails to end, and touches only the player's buffers.\<close>

lemma dac_write_frame:
  assumes inv: "player_inv s p" and st: "s_channel p = 1" "s_sample_rate p = 48000"
    and buf: "length buf = PLAYER_FRAME_SIZE"
  shows "\<exists>r s' p' w'. duer_audio_dac_write b 0 buf PLAYER_FRAME_SIZE (s, p, w) = Done (r, s', p', w') \<and>
    player_only s p s' p' \<and> stream_same p p'"
proof (cases "output_buf_16 p = None \<or> output_buf_32 p = None")
  case True
  then show ?thesis
    by (auto simp: duer_audio_dac_write_def stream_same_def intro!: player_only_refl simp: io_simps)
next
  case False
  have len: "length buf = 2 * 512" "(512 :: nat) \<le> 6144" using buf by (simp_all add: PLAYER_FRAME_SIZE_def)
  from False have nn: "output_buf_16 p \<noteq> None" "output_buf_32 p \<noteq> None" by simp_all
  from mono_48k_write [OF inv nn st len, of b 0 w] obtain b32 p' where
    "duer_audio_dac_write b 0 buf (2 * 512) (s, p, w) =
      Done (fst (i2s_write_bytes (b_i2s b) 0 (bytes_of_shorts (take (4 * 512) b32)) w), s, p',
            snd (i2s_write_bytes (b_i2s b) 0 (bytes_of_shorts (take (4 * 512) b32)) w))"
    by blast
  then have d: "duer_audio_dac_write b 0 buf PLAYER_FRAME_SIZE (s, p, w) =
      Done (fst (i2s_write_bytes (b_i2s b) 0 (bytes_of_shorts (take (4 * 512) b32)) w), s, p',
            snd (i2s_write_bytes (b_i2s b) 0 (bytes_of_shorts (take (4 * 512) b32)) w))"
    by (simp add: PLAYER_FRAME_SIZE_def)
  from dac_write_same_player [OF inv _ d] False have "player_only s p s p' \<and> stream_same p p'"
    by (auto intro!: player_only_refl simp: stream_same_def)
  with d show ?thesis by blast
qed

text \<open>Its result is not negative when the channel reports no error.\<close>

lemma dac_write_nonneg:
  assumes inv: "player_inv s p" and st: "s_channel p = 1" "s_sample_rate p = 48000"
    and buf: "length buf = PLAYER_FRAME_SIZE"
    and d: "duer_audio_dac_write b 0 buf PLAYER_FRAME_SIZE (s, p, w) = Done (r, s', p', w')"
    and ok: "\<forall>bs w. 0 \<le> fst (i2s_write_bytes (b_i2s b) 0 bs w)"
  shows "0 \<le> r"
proof (cases "output_buf_16 p = None \<or> output_buf_32 p = None")
  case True
  then show ?thesis using d by (auto simp: duer_audio_dac_write_def)
next
  case False
  have len: "length buf = 2 * 512" "(512 :: nat) \<le> 6144" using buf by (simp_all add: PLAYER_FRAME_SIZE_def)
  from False have nn: "output_buf_16 p \<noteq> None" "output_buf_32 p \<noteq> None" by simp_all
  from mono_48k_write [OF inv nn st len, of b 0 w] obtain b32 where
    "r = fst (i2s_write_bytes (b_i2s b) 0 (bytes_of_shorts (take (4 * 512) b32)) w)"
    using d by (auto simp: PLAYER_FRAME_SIZE_def)
  with ok show ?thesis by simp
qed

section \<open>The invariant of the tasks\<close>

text \<open>The block of the recording that a task owns.\<close>

fun task_block :: "task_pc \<Rightarrow> nat option" where
  "task_block (Recording (R_Read h mini a data n)) = Some a"
| "task_block (Recording (R_Close h a data)) = Some a"
| "task_block (Recording (R_Send t a data pos)) = Some a"
| "task_block (Recording (R_Free a)) = Some a"
| "task_block _ = None"

text \<open>Every recording block lies in \<open>L\<close> and belongs to one task only.\<close>

definition block_at :: "(audio_kind \<times> task_pc) list \<Rightarrow> nat \<Rightarrow> nat option" where
  "block_at ts i = (if i < length ts then task_block (snd (ts ! i)) else None)"

definition blocks_ok :: "(audio_kind \<times> task_pc) list \<Rightarrow> nat set \<Rightarrow> bool" where
  "blocks_ok ts L \<longleftrightarrow>
     (\<forall>i a. block_at ts i = Some a \<longrightarrow> a \<in> L) \<and>
     (\<forall>i j a. block_at ts i = Some a \<longrightarrow> block_at ts j = Some a \<longrightarrow> i = j)"

lemma block_at_simps:
  "block_at (ts @ [t]) = (if task_block (snd t) = None then block_at ts
     else (block_at ts)(length ts := task_block (snd t)))"
  "i < length ts \<Longrightarrow> block_at (ts[i := t]) = (block_at ts)(i := task_block (snd t))"
  by (auto simp: block_at_def nth_append nth_list_update fun_eq_iff)

lemma blocks_mono: "blocks_ok ts L \<Longrightarrow> L \<subseteq> L' \<Longrightarrow> blocks_ok ts L'"
  unfolding blocks_ok_def by blast

lemma blocks_append: "blocks_ok ts L \<Longrightarrow> task_block (snd t) = None \<Longrightarrow> blocks_ok (ts @ [t]) L"
  unfolding blocks_ok_def block_at_simps by simp

lemma blocks_same:
  "blocks_ok ts L \<Longrightarrow> i < length ts \<Longrightarrow> task_block (snd t) \<in> {block_at ts i, None} \<Longrightarrow>
     blocks_ok (ts[i := t]) L"
  by (cases "task_block (snd t) = block_at ts i") (simp_all add: blocks_ok_def block_at_simps)

lemma blocks_new:
  "blocks_ok ts L \<Longrightarrow> i < length ts \<Longrightarrow> a \<notin> L \<Longrightarrow> task_block (snd t) = Some a \<Longrightarrow>
     blocks_ok (ts[i := t]) (insert a L)"
  unfolding blocks_ok_def by (auto simp: block_at_simps split: if_splits)

lemma blocks_free:
  "blocks_ok ts L \<Longrightarrow> i < length ts \<Longrightarrow> block_at ts i = Some a \<Longrightarrow> task_block (snd t) = None \<Longrightarrow>
     blocks_ok (ts[i := t]) (L - {a})"
  unfolding blocks_ok_def by (simp add: block_at_simps) metis

text \<open>What each task relies on at each of its program counters.\<close>

fun task_ok :: "int \<Rightarrow> player \<Rightarrow> audio_kind \<times> task_pc \<Rightarrow> bool" where
  "task_ok fsz p (k, Playing (P_Write n off)) \<longleftrightarrow>
     n = int off \<and> n \<le> PLAYER_PCM_SIZE k \<and> s_channel p = 1 \<and> s_sample_rate p = 48000"
| "task_ok fsz p (k, Recording (R_Read h mini a data n)) \<longleftrightarrow>
     mini = fsz \<and> length data = RECORDER_PCM_SIZE k \<and> 0 \<le> n"
| "task_ok fsz p (k, Recording (R_Close h a data)) \<longleftrightarrow> length data = RECORDER_PCM_SIZE k"
| "task_ok fsz p (k, Recording (R_Send t a data pos)) \<longleftrightarrow> length data = RECORDER_PCM_SIZE k"
| "task_ok fsz p _ \<longleftrightarrow> True"

lemma task_ok_stream: "stream_same p p' \<Longrightarrow> task_ok fsz p' t = task_ok fsz p t"
  by (cases "(fsz, p, t)" rule: task_ok.cases) (auto simp: stream_same_def)

lemma task_ok_playing: "s_channel p' = 1 \<Longrightarrow> s_sample_rate p' = 48000 \<Longrightarrow> task_ok fsz p t \<Longrightarrow> task_ok fsz p' t"
  by (cases "(fsz, p, t)" rule: task_ok.cases) auto

definition own :: "sys \<Rightarrow> player \<Rightarrow> nat set" where
  "own s p = h_live (heap s) - player_blocks p"

fun audio_inv :: "bool \<Rightarrow> int \<Rightarrow> 'w ast \<Rightarrow> bool" where
  "audio_inv f fsz (m, s, p, w) \<longleftrightarrow>
     player_inv s p \<and> h_fault (heap s) = f \<and> blocks_ok (tasks m) (own s p) \<and>
     (\<forall>t \<in> set (tasks m). task_ok fsz p t)"

text \<open>A step of the player alone keeps what the other tasks own.\<close>

lemma audio_inv_player:
  assumes "audio_inv f fsz (m, s, p, w)" and "player_only s p s' p'"
    and "\<forall>t \<in> set (tasks m). task_ok fsz p' t"
  shows "audio_inv f fsz (m, s', p', w')"
  using assms blocks_mono [of "tasks m" "own s p" "own s' p'"]
  by (auto simp: player_only_def own_def)

lemma audio_inv_task:
  assumes "audio_inv f fsz (m, s, p, w)" and "i < length (tasks m)" and "task_ok fsz p t"
    and "task_block (snd t) \<in> {block_at (tasks m) i, None}"
  shows "audio_inv f fsz (m\<lparr>tasks := (tasks m)[i := t]\<rparr>, s, p, w')"
  using assms blocks_same [of "tasks m" "own s p" i t]
  by (auto dest!: set_update_subset_insert [THEN subsetD])

lemma audio_inv_create:
  assumes "audio_inv f fsz (m, s, p, w)" and "create_task api name stack t (m, w) = (ok, m', w')"
    and "task_block (snd t) = None" and "task_ok fsz p t"
  shows "audio_inv f fsz (m', s, p, w')"
  using assms blocks_append [of "tasks m" "own s p" t]
  by (auto simp: create_task_def Let_def split: prod.splits if_splits)

text \<open>Neither the output nor the flags, the header and the outside world matter to it.\<close>

lemma audio_inv_cong:
  "audio_inv f fsz (m, s, p, w) \<Longrightarrow> tasks m' = tasks m \<Longrightarrow> heap s' = heap s \<Longrightarrow>
     audio_inv f fsz (m', s', p, w')"
  by (simp add: own_def player_inv_def)

lemma audio_invD:
  assumes "audio_inv f fsz (m, s, p, w)"
  shows "player_inv s p" "h_fault (heap s) = f" "blocks_ok (tasks m) (own s p)"
    "t \<in> set (tasks m) \<Longrightarrow> task_ok fsz p t"
  using assms by simp_all

declare audio_inv.simps [simp del]

section \<open>What the surroundings document\<close>

text \<open>
  The recorder of the SDK: opening it tells the size of a frame, a read stores at most that many
  bytes, and a successful one reports as many as it stored.
\<close>

definition pcm_documented :: "'w audio_api \<Rightarrow> int \<Rightarrow> bool" where
  "pcm_documented api fsz \<longleftrightarrow>
     (\<forall>pam w h mini w'. bds_pcm_open api pam w = ((Some h, mini), w') \<longrightarrow> mini = fsz) \<and>
     (\<forall>h w ret bs n w'. bds_pcm_read api h w = ((ret, bs, n), w') \<longrightarrow>
        int (length bs) \<le> fsz \<and> (0 \<le> ret \<longrightarrow> n = int (length bs)))"

lemma pcm_documentedD:
  assumes "pcm_documented api fsz"
  shows "bds_pcm_open api pam w = ((Some h, mini), w') \<Longrightarrow> mini = fsz"
    and "bds_pcm_read api h w = ((ret, bs, n), w') \<Longrightarrow>
      int (length bs) \<le> fsz \<and> (0 \<le> ret \<longrightarrow> n = int (length bs))"
  using assms unfolding pcm_documented_def by blast+

text \<open>The sound files are longer than what is played of them (965654 and 197654 bytes).\<close>

definition wav_ok :: "'w audio_api \<Rightarrow> bool" where
  "wav_ok api \<longleftrightarrow> (\<forall>k. PLAYER_PCM_SIZE k + int PLAYER_FRAME_SIZE \<le> int (length (audio_wav api k)))"

section \<open>One step of a task\<close>

lemma audio_inv_playing:
  assumes inv: "audio_inv f fsz (m, s, p, w)" and i: "i < length (tasks m)"
    and only: "player_only s p s' p'"
    and stream: "stream_same p p' \<or> s_channel p' = 1 \<and> s_sample_rate p' = 48000"
    and ok: "task_ok fsz p' (k, Playing pc)"
  shows "audio_inv f fsz (m\<lparr>tasks := (tasks m)[i := (k, Playing pc)]\<rparr>, s', p', w')"
proof -
  have "\<forall>t \<in> set (tasks m). task_ok fsz p' t"
    using stream
  proof
    assume "stream_same p p'"
    from task_ok_stream [OF this] audio_invD(4) [OF inv] show ?thesis by blast
  next
    assume "s_channel p' = 1 \<and> s_sample_rate p' = 48000"
    then show ?thesis using task_ok_playing [of p' fsz p] audio_invD(4) [OF inv] by auto
  qed
  from audio_inv_player [OF inv only this] have "audio_inv f fsz (m, s', p', w')" .
  from audio_inv_task [OF this i ok] show ?thesis by simp
qed

lemma player_exec_safe:
  assumes inv: "audio_inv f fsz (m, s, p, w)" and i: "i < length (tasks m)"
    and t: "tasks m ! i = (k, Playing pc)" and wav: "wav_ok api"
  shows "\<exists>pc' s' p' w'. player_exec api k hdr pc (s, p, w) = Done (pc', s', p', w') \<and>
    audio_inv f fsz (m\<lparr>tasks := (tasks m)[i := (k, Playing pc')]\<rparr>, s', p', w')"
proof (cases pc)
  case P_Start
  obtain x s' p' w' where st: "duer_audio_dac_start_play 0 1 48000 16 (s, p, w) = (x, s', p', w')"
    by (cases "duer_audio_dac_start_play 0 1 48000 16 (s, p, w)") auto
  note so = start_play_only [OF st]
  then have "audio_inv f fsz (m\<lparr>tasks := (tasks m)[i := (k, Playing (P_Write 0 0))]\<rparr>, s', p', w')"
    by (intro audio_inv_playing [OF inv i]) (cases k; simp)+
  with so st P_Start show ?thesis by auto
next
  case (P_Write n off)
  have ok: "n = int off" "n \<le> PLAYER_PCM_SIZE k" "s_channel p = 1" "s_sample_rate p = 48000"
    using audio_invD(4) [OF inv nth_mem [OF i]] by (simp_all add: t P_Write)
  have off: "off + PLAYER_FRAME_SIZE \<le> length (audio_wav api k)"
    using wav ok(1,2) by (auto simp: wav_ok_def dest!: spec [of _ k])
  let ?buf = "take PLAYER_FRAME_SIZE (drop off (audio_wav api k))"
  have "player_inv s p" "length ?buf = PLAYER_FRAME_SIZE" using audio_invD(1) [OF inv] off by simp_all
  from dac_write_frame [OF this(1) ok(3,4) this(2), of "aa_board api" w] obtain r s' p' w' where
    d: "duer_audio_dac_write (aa_board api) 0 ?buf PLAYER_FRAME_SIZE (s, p, w) = Done (r, s', p', w')"
    and o: "player_only s p s' p'" "stream_same p p'" by blast
  have keep: "audio_inv f fsz (m\<lparr>tasks := (tasks m)[i := (k, Playing pc')]\<rparr>, s'', p', w')"
    if "heap s'' = heap s'" "task_ok fsz p' (k, Playing pc')" for pc' s''
    by (rule audio_inv_cong [OF audio_inv_playing [OF inv i o(1) disjI1 [OF o(2)] that(2)] refl that(1)])
  have "s_channel p' = 1 \<and> s_sample_rate p' = 48000" using o(2) ok by (simp add: stream_same_def)
  then show ?thesis
    using off ok(1) by (auto simp: P_Write d Let_def io_simps simp del: PLAYER_PCM_SIZE.simps intro!: keep)
next
  case P_Stop
  obtain x1 s1 p1 w1 where 1: "duer_audio_dac_wait_play_end (aa_board api) (s, p, w) = (x1, s1, p1, w1)"
    by (cases "duer_audio_dac_wait_play_end (aa_board api) (s, p, w)") auto
  obtain x2 s2 p2 w2 where 2: "duer_audio_dac_unload_driver (aa_board api) (s1, p1, w1) = (x2, s2, p2, w2)"
    by (cases "duer_audio_dac_unload_driver (aa_board api) (s1, p1, w1)") auto
  have "player_only s p s2 p2" "stream_same p p2"
    using wait_play_end_only [OF 1] unload_driver_only [OF 2] by (auto intro: player_only_trans)
  then have "audio_inv f fsz (m\<lparr>tasks := (tasks m)[i := (k, Playing P_End)]\<rparr>, s2, p2, w2)"
    by (intro audio_inv_playing [OF inv i]) simp_all
  with 1 2 P_Stop show ?thesis by auto
next
  case P_End
  have "audio_inv f fsz (m\<lparr>tasks := (tasks m)[i := (k, Playing P_End)]\<rparr>, s, p, w)"
    by (rule audio_inv_playing [OF inv i player_only_refl]) (simp_all add: stream_same_def)
  with P_End show ?thesis by simp
qed

lemma audio_inv_heap:
  assumes "audio_inv f fsz (m, s, p, w)" and "heap_wf (heap s')"
    and "h_live (heap s') = h_live (heap s)" and "h_fault (heap s') = h_fault (heap s)"
  shows "audio_inv f fsz (m, s', p, w')"
  using assms by (simp add: audio_inv.simps own_def player_inv_def)

lemma audio_inv_malloc:
  assumes inv: "audio_inv f fsz (m, s, p, w)" and i: "i < length (tasks m)"
    and a: "malloc (heap s) = (Some a, heap s')" and t: "task_block (snd t) = Some a" "task_ok fsz p t"
  shows "audio_inv f fsz (m\<lparr>tasks := (tasks m)[i := t]\<rparr>, s', p, w')"
proof -
  note d = audio_invD [OF inv]
  have wf: "heap_wf (heap s)" using d(1) by (simp add: player_inv_def)
  have live: "h_live (heap s') = insert a (h_live (heap s))" "a \<notin> h_live (heap s)"
    using hp.alloc_live [OF a] hp.alloc_fresh [OF wf a] by simp_all
  have "heap_grows (heap s) (heap s')"
    using hp.alloc_wf [OF wf a] hp.alloc_fault [OF a] live by (auto simp: heap_grows_def)
  then have p: "player_inv s' p" using player_inv_grows [OF d(1)] by blast
  have "player_blocks p \<subseteq> h_live (heap s)"
    using d(1) by (auto simp: player_inv_def player_blocks_def)
  then have "own s' p = insert a (own s p)" "a \<notin> own s p" using live by (auto simp: own_def)
  with blocks_new [OF d(3) i _ t(1)] have "blocks_ok ((tasks m)[i := t]) (own s' p)" by simp
  moreover have "\<forall>u \<in> set ((tasks m)[i := t]). task_ok fsz p u"
    using d(4) t(2) by (auto dest!: set_update_subset_insert [THEN subsetD])
  ultimately show ?thesis using p d(2) hp.alloc_fault [OF a] by (simp add: audio_inv.simps)
qed

lemma audio_inv_free:
  assumes inv: "audio_inv f fsz (m, s, p, w)" and i: "i < length (tasks m)"
    and a: "block_at (tasks m) i = Some a" and t: "task_block (snd t) = None" "task_ok fsz p t"
    and h: "heap s' = release a (heap s)"
  shows "audio_inv f fsz (m\<lparr>tasks := (tasks m)[i := t]\<rparr>, s', p, w')"
proof -
  note d = audio_invD [OF inv]
  have "a \<in> own s p" using d(3) a unfolding blocks_ok_def by blast
  then have live: "a \<in> h_live (heap s)" "a \<notin> player_blocks p" by (simp_all add: own_def)
  have "own s' p = own s p - {a}" using hp.free_live [OF live(1)] h by (auto simp: own_def)
  with blocks_free [OF d(3) i a t(1)] have b: "blocks_ok ((tasks m)[i := t]) (own s' p)" by simp
  have "player_inv s' p"
    using d(1) hp.free_live [OF live(1)] hp.free_wf live(2) h by (auto simp: player_inv_def player_blocks_def)
  moreover have "\<forall>u \<in> set ((tasks m)[i := t]). task_ok fsz p u"
    using d(4) t(2) by (auto dest!: set_update_subset_insert [THEN subsetD])
  ultimately show ?thesis using b d(2) hp.free_fault [OF live(1)] h by (simp add: audio_inv.simps)
qed

lemma data_out_pass_heap:
  assumes "heap_wf (heap s)" and "data_out_pass t data pos s = (q, s')"
  shows "heap_wf (heap s') \<and> h_live (heap s') = h_live (heap s) \<and> h_fault (heap s') = h_fault (heap s)"
  using assms out_print_data_live [OF assms(1)]
  by (auto simp: data_out_pass_def Let_def io_simps split: if_splits)

lemma store_bytes_length: "store_bytes data pos bs = Some data' \<Longrightarrow> length data' = length data"
  by (auto simp: store_bytes_def split: if_splits)

lemma store_bytes_fits:
  "0 \<le> pos \<Longrightarrow> pos + int (length bs) \<le> int (length data) \<Longrightarrow> \<exists>data'. store_bytes data pos bs = Some data'"
  by (auto simp: store_bytes_def)

lemma length_fresh_block: "length (fresh_block h a n) = n"
  by (simp add: fresh_block_def)

lemma recorder_exec_safe:
  assumes inv: "audio_inv f fsz (m, s, p, w)" and i: "i < length (tasks m)"
    and t: "tasks m ! i = (k, Recording pc)" and doc: "pcm_documented api fsz"
  shows "\<exists>pc' s' w'. recorder_exec api k hdr pc (s, w) = Done (pc', s', w') \<and>
    audio_inv f fsz (m\<lparr>tasks := (tasks m)[i := (k, Recording pc')]\<rparr>, s', p, w')"
proof -
  note d = audio_invD [OF inv]
  have tok: "task_ok fsz p (k, Recording pc)" using d(4) nth_mem [OF i] t by simp
  have blk: "block_at (tasks m) i = task_block (Recording pc)" using i t by (simp add: block_at_def)
  have keep: "audio_inv f fsz (m\<lparr>tasks := (tasks m)[i := (k, Recording pc')]\<rparr>, s', p, w')"
    if "task_ok fsz p (k, Recording pc')" "task_block (Recording pc') \<in> {task_block (Recording pc), None}"
      "heap s' = heap s" for pc' s' w'
    by (rule audio_inv_cong [OF audio_inv_task [OF inv i that(1)] refl that(3)]) (use that blk in simp)
  show ?thesis
  proof (cases pc)
    case R_Start
    obtain h mini w1 where o: "bds_pcm_open api recorder_pam w = ((h, mini), w1)"
      by (cases "bds_pcm_open api recorder_pam w") auto
    obtain q hp where q: "malloc (heap s) = (q, hp)" by (cases "malloc (heap s)")
    show ?thesis
    proof (cases "h = None \<or> q = None")
      case True
      have "player_inv (s\<lparr>heap := hp\<rparr>) p" if "q = None"
        using player_inv_grows [OF d(1), of "s\<lparr>heap := hp\<rparr>" p] heap_grows_malloc [of "heap s"] q by simp
      then have "audio_inv f fsz (m, s\<lparr>heap := hp\<rparr>, p, w1)" if "q = None"
        using audio_inv_heap [OF inv, of "s\<lparr>heap := hp\<rparr>" w1] hp.alloc_none hp.alloc_fault q that
        by (simp add: player_inv_def)
      then have E: "audio_inv f fsz (m\<lparr>tasks := (tasks m)[i := (k, Recording R_End)]\<rparr>, s\<lparr>heap := hp\<rparr>, p, w1)"
        if "q = None" using audio_inv_task [of f fsz m "s\<lparr>heap := hp\<rparr>" p w1 i "(k, Recording R_End)"] i that by simp
      have "audio_inv f fsz (m\<lparr>tasks := (tasks m)[i := (k, Recording R_End)]\<rparr>,
          out_print_result hdr FAILED x (s\<lparr>heap := hp\<rparr>), p, w1)" if "q = None" for x
        by (rule audio_inv_cong [OF E [OF that] refl]) (simp add: io_simps)
      with True o q R_Start show ?thesis
        by (cases h) (auto simp: io_malloc_def io_simps intro!: keep)
    next
      case False
      then obtain h' a where ha: "h = Some h'" "q = Some a" by auto
      then have "mini = fsz" using pcm_documentedD(1) [OF doc] o by blast
      moreover have "malloc (heap s) = (Some a, heap (s\<lparr>heap := hp\<rparr>))" using q ha by simp
      note audio_inv_malloc [OF inv i this, of
        "(k, Recording (R_Read h' fsz a (fresh_block hp a (RECORDER_PCM_SIZE k)) 0))" w1]
      ultimately show ?thesis
        using ha q o R_Start by (simp add: io_malloc_def length_fresh_block)
    qed
  next
    case (R_Read h mini a data n)
    note ok = tok [unfolded R_Read task_ok.simps]
    obtain ret bs ol w1 where rd: "bds_pcm_read api h w = ((ret, bs, ol), w1)"
      by (cases "bds_pcm_read api h w") auto
    then have len: "int (length bs) \<le> fsz" "0 \<le> ret \<Longrightarrow> ol = int (length bs)"
      using pcm_documentedD(2) [OF doc] by blast+
    show ?thesis
    proof (cases "n + mini > int (RECORDER_PCM_SIZE k)")
      case True
      with ok R_Read show ?thesis by (auto intro!: keep)
    next
      case False
      with ok len(1) obtain data' where st: "store_bytes data n bs = Some data'"
        using store_bytes_fits [of n bs data] by auto
      with False rd ok len(2) R_Read store_bytes_length [OF st] show ?thesis
        by (auto simp: Let_def io_simps simp del: RECORDER_PCM_SIZE.simps intro!: keep)
    qed
  next
    case (R_Send u a data pos)
    obtain q s' where ps: "data_out_pass u data pos s = (q, s')" by (cases "data_out_pass u data pos s")
    have "heap_wf (heap s)" using d(1) by (simp add: player_inv_def)
    note h = data_out_pass_heap [OF this ps]
    have inv': "audio_inv f fsz (m, s', p, w)"
      by (rule audio_inv_heap [OF inv]) (use h in simp_all)
    have "audio_inv f fsz (m\<lparr>tasks := (tasks m)[i := (k, Recording pc')]\<rparr>, s', p, w)"
      if "task_ok fsz p (k, Recording pc')" "task_block (Recording pc') = Some a" for pc'
      using audio_inv_task [OF inv' i that(1)] that(2) blk R_Send by simp
    with ps tok R_Send show ?thesis by (cases q) auto
  next
    case (R_Free a)
    have "heap (out_print_data_ctl hdr (io_free (Some a) s)) = release a (heap s)"
      by (simp add: out_print_data_ctl_def io_simps free_opt_def)
    from audio_inv_free [OF inv i _ _ _ this, of "(k, Recording R_End)"] blk R_Free show ?thesis by auto
  next
    case (R_Close h a data)
    have "audio_inv f fsz (m\<lparr>tasks := (tasks m)[i := (k, Recording (R_Send hdr a data 0))]\<rparr>,
        printf t s, p, w')" for t w'
      by (rule keep) (use tok R_Close in \<open>simp_all add: io_simps\<close>)
    with R_Close show ?thesis by simp
  next
    case R_End
    have "audio_inv f fsz (m\<lparr>tasks := (tasks m)[i := (k, Recording R_End)]\<rparr>, s, p, w)"
      by (rule keep) simp_all
    with R_End show ?thesis by simp
  qed
qed

lemma task_step_safe:
  assumes inv: "audio_inv f fsz (m, s, p, w)" and i: "i < length (tasks m)"
    and doc: "pcm_documented api fsz" and wav: "wav_ok api"
  shows "\<exists>t' s' p' w'. task_step api m (tasks m ! i) (s, p, w) = Done (t', s', p', w') \<and>
    audio_inv f fsz (m\<lparr>tasks := (tasks m)[i := t']\<rparr>, s', p', w')"
proof -
  obtain k t where t: "tasks m ! i = (k, t)" by (cases "tasks m ! i")
  show ?thesis
  proof (cases t)
    case (Playing pc)
    from player_exec_safe [OF inv i t [unfolded Playing] wav, of "task_header k m"] t Playing
    show ?thesis by auto
  next
    case (Recording pc)
    from recorder_exec_safe [OF inv i t [unfolded Recording] doc, of "task_header k m"] t Recording
    show ?thesis by auto
  qed
qed

section \<open>The commands\<close>

lemma audio_inv_load:
  assumes inv: "audio_inv f fsz (m, s, p, w)" and m: "tasks m' = tasks m"
    and l: "duer_audio_dac_load_driver b (s, p, w) = Done (r, s', p', w')"
  shows "audio_inv f fsz (m', s', p', w'')"
proof -
  have "\<forall>t \<in> set (tasks m). task_ok fsz p' t"
    using task_ok_stream [OF load_driver_stream [OF l]] audio_invD(4) [OF inv] by blast
  from audio_inv_player [OF inv load_driver_only [OF l] this] show ?thesis
    by (rule audio_inv_cong [OF _ m refl])
qed

lemma run_bind_Done:
  "(case x of Done y \<Rightarrow> f y | Restart z \<Rightarrow> (case z of (a, b, c, d) \<Rightarrow> Restart (g a b c d)) | Hang \<Rightarrow> Hang
     | Crash c \<Rightarrow> Crash c) = Done q \<Longrightarrow> \<exists>y. x = Done y"
  by (cases x) (auto split: prod.splits)

lemma create_task_tasks:
  "create_task api n st t (m, w) = (ok, m', w') \<Longrightarrow>
     tasks m' = tasks m @ (if ok then [t] else []) \<and> testing_mic m' = testing_mic m \<and>
     testing_nolinear m' = testing_nolinear m \<and> testcase_header m' = testcase_header m"
  by (auto simp: create_task_def Let_def split: prod.splits if_splits)

text \<open>
  What a start command does: it is refused, or it loads the driver, sets the volume and creates
  no task, the recorder, or both.
\<close>

lemma start_nolinear_cases:
  assumes "start_nolinear_case api cmdline (m, s, p, w) = Done (r, m', s', p', w')"
  obtains
    (refused) "testing_nolinear m = 1" "r = -1" "m' = m" "p' = p"
      "s' = out_print_result RESULT_NOLINEAR FAILED ''testing'' s"
  | (started) ret s1 w1 n where "testing_nolinear m \<noteq> 1"
      "duer_audio_dac_load_driver (aa_board api) (s, p, w) = Done (ret, s1, p', w1)"
      "heap s' = heap s1" "r = (if n = 2 then 0 else -1)" "n \<le> 2" "ret \<noteq> 0 \<longrightarrow> n = 0"
      "testing_nolinear m' = (if n = 2 then 0 else 1)" "testing_mic m' = testing_mic m"
      "tasks m' = tasks m @ take n [(Nolinear_case, Recording R_Start), (Nolinear_case, Playing P_Start)]"
proof (cases "testing_nolinear m = 1")
  case True
  from assms [unfolded start_nolinear_case_def prod.case Let_def if_P [OF True]] True
  show thesis by (intro refused) simp_all
next
  case False
  note e = assms [unfolded start_nolinear_case_def prod.case Let_def if_not_P [OF False]]
  obtain ret s1 p1 w1 where l: "duer_audio_dac_load_driver (aa_board api) (s, p, w) = Done (ret, s1, p1, w1)"
    using run_bind_Done [OF e] by auto
  obtain w2 where v: "duer_audio_dac_set_volume (aa_board api) (volume_arg cmdline (length CMD_NOLINEAR + 1) 100)
      (s1, p1, w1) = (0, s1, p1, w2)" by (simp add: set_volume_step)
  let ?m = "m\<lparr>testing_nolinear := 1\<rparr>"
  obtain ok1 m2 w3 where c1: "create_task api ''recorder_task'' (1024 * 8) (Nolinear_case, Recording R_Start)
      (?m, w2) = (ok1, m2, w3)" by (metis prod_cases3)
  obtain ok2 m3 w4 where c2: "create_task api ''player_task'' (1024 * 8) (Nolinear_case, Playing P_Start)
      (m2, w3) = (ok2, m3, w4)" by (metis prod_cases3)
  note e = assms [unfolded start_nolinear_case_def prod.case Let_def if_not_P [OF False] l run.case v c1 c2]
  note t1 = create_task_tasks [OF c1] and t2 = create_task_tasks [OF c2]
  consider "ret \<noteq> 0" | "ret = 0" "\<not> ok1" | "ret = 0" ok1 "\<not> ok2" | "ret = 0" ok1 ok2 by blast
  then show thesis
  proof cases
    case 1 with e l False show thesis by (intro started [of ret s1 w1 0]) (auto simp: io_simps)
  next
    case 2 with e l False t1 show thesis by (intro started [of ret s1 w1 0]) (auto simp: io_simps)
  next
    case 3 with e l False t1 t2 show thesis by (intro started [of ret s1 w1 1]) (auto simp: io_simps)
  next
    case 4 with e l False t1 t2 show thesis by (intro started [of ret s1 w1 2]) (auto simp: io_simps)
  qed
qed

lemma start_player_recorder_cases:
  assumes "start_player_recorder_case api type cmdline (m, s, p, w) = Done (r, m', s', p', w')"
  obtains
    (refused) "testing_mic m = 1" "r = -1" "p' = p" "s' = s" "w' = w" "tasks m' = tasks m"
      "testing_mic m' = 1" "testing_nolinear m' = testing_nolinear m"
      "testcase_header m' = Some (if type = 0 then RESULT_PA_MIC_DATA else RESULT_SEAL)"
  | (started) ret s1 w1 n where "testing_mic m \<noteq> 1"
      "duer_audio_dac_load_driver (aa_board api) (s, p, w) = Done (ret, s1, p', w1)"
      "heap s' = heap s1" "r = (if n = 2 then 0 else -1)" "n \<le> 2" "ret \<noteq> 0 \<longrightarrow> n = 0"
      "testing_mic m' = (if n = 2 then 0 else 1)" "testing_nolinear m' = testing_nolinear m"
      "tasks m' = tasks m @
         take n [(Player_recorder_case, Recording R_Start), (Player_recorder_case, Playing P_Start)]"
      "testcase_header m' = Some (if type = 0 then RESULT_PA_MIC_DATA else RESULT_SEAL)"
proof -
  define cmd where "cmd = (if type = 0 then CMD_PA_MIC else CMD_SEAL)"
  define header where "header = (if type = 0 then RESULT_PA_MIC_DATA else RESULT_SEAL)"
  let ?m0 = "m\<lparr>mic_cmd := Some cmd, testcase_header := Some header\<rparr>"
  note e0 = assms [unfolded start_player_recorder_case_def prod.case Let_def cmd_def [symmetric] header_def [symmetric]]
  show thesis
  proof (cases "testing_mic ?m0 = 1")
    case True
    from e0 [unfolded if_P [OF True]] True show thesis
      by (intro refused) (auto simp: header_def [symmetric])
  next
    case False
    note e = e0 [unfolded if_not_P [OF False]]
    obtain ret s1 p1 w1 where l: "duer_audio_dac_load_driver (aa_board api) (s, p, w) = Done (ret, s1, p1, w1)"
      using run_bind_Done [OF e] by auto
    obtain w2 where v: "duer_audio_dac_set_volume (aa_board api) (volume_arg cmdline (length cmd + 1) 70)
        (s1, p1, w1) = (0, s1, p1, w2)" by (simp add: set_volume_step)
    let ?m = "?m0\<lparr>testing_mic := 1\<rparr>"
    obtain ok1 m2 w3 where c1: "create_task api ''recorder_task'' (1024 * 4) (Player_recorder_case, Recording R_Start)
        (?m, w2) = (ok1, m2, w3)" by (metis prod_cases3)
    obtain ok2 m3 w4 where c2: "create_task api ''player_task'' (1024 * 4) (Player_recorder_case, Playing P_Start)
        (m2, w3) = (ok2, m3, w4)" by (metis prod_cases3)
    note e' = e [unfolded l run.case prod.case v c1 c2]
    note t1 = create_task_tasks [OF c1] and t2 = create_task_tasks [OF c2]
    note st = started [unfolded header_def [symmetric]]
    have nt: "testing_mic m \<noteq> 1" using False by simp
    consider "ret \<noteq> 0" | "ret = 0" "\<not> ok1" | "ret = 0" ok1 "\<not> ok2" | "ret = 0" ok1 ok2 by blast
    then show thesis
    proof cases
      case 1 with e' l nt show thesis by (intro st [of ret s1 w1 0]) (auto simp: io_simps)
    next
      case 2 with e' l nt t1 show thesis by (intro st [of ret s1 w1 0]) (auto simp: io_simps)
    next
      case 3 with e' l nt t1 t2 show thesis by (intro st [of ret s1 w1 1]) (auto simp: io_simps)
    next
      case 4 with e' l nt t1 t2 show thesis by (intro st [of ret s1 w1 2]) (auto simp: io_simps)
    qed
  qed
qed

lemma blocks_append_take:
  assumes "blocks_ok ts L" and "\<forall>t \<in> set us. task_block (snd t) = None"
  shows "blocks_ok (ts @ us) L"
  using assms
proof (induction us rule: rev_induct)
  case (snoc u us)
  then show ?case using blocks_append [of "ts @ us" L u] by simp
qed simp

lemma audio_inv_started:
  assumes inv: "audio_inv f fsz (m, s, p, w)"
    and l: "duer_audio_dac_load_driver b (s, p, w) = Done (ret, s1, p', w1)" and h: "heap s' = heap s1"
    and ts: "tasks m' = tasks m @ take n [(k, Recording R_Start), (k, Playing P_Start)]"
  shows "audio_inv f fsz (m', s', p', w')"
proof -
  let ?us = "take n [(k, Recording R_Start), (k, Playing P_Start)]"
  have us: "\<forall>t \<in> set ?us. task_block (snd t) = None \<and> task_ok fsz p' t"
    by (auto dest!: in_set_takeD)
  have i: "audio_inv f fsz (m, s', p', w')"
    by (rule audio_inv_cong [OF audio_inv_load [OF inv refl l] refl h])
  with us blocks_append_take [OF audio_invD(3) [OF i], of ?us] show ?thesis
    by (auto simp: audio_inv.simps ts)
qed

lemma start_nolinear_inv:
  assumes "start_nolinear_case api cmdline (m, s, p, w) = Done (r, m', s', p', w')"
    and inv: "audio_inv f fsz (m, s, p, w)"
  shows "audio_inv f fsz (m', s', p', w')"
  using assms(1)
proof (cases rule: start_nolinear_cases)
  case refused
  have "heap s' = heap s" using refused(5) by (simp add: io_simps)
  from audio_inv_cong [OF inv refl this] refused(3,4) show ?thesis by simp
next
  case (started ret s1 w1 n)
  show ?thesis by (rule audio_inv_started [OF inv started(2,3,9)])
qed

lemma start_player_recorder_inv:
  assumes "start_player_recorder_case api type cmdline (m, s, p, w) = Done (r, m', s', p', w')"
    and inv: "audio_inv f fsz (m, s, p, w)"
  shows "audio_inv f fsz (m', s', p', w')"
  using assms(1)
proof (cases rule: start_player_recorder_cases)
  case refused
  from audio_inv_cong [OF inv refused(6), of s w] refused(3,4,5) show ?thesis by simp
next
  case (started ret s1 w1 n)
  show ?thesis by (rule audio_inv_started [OF inv started(2,3,9)])
qed

lemma audio_step_inv:
  assumes step: "audio_step api st st'" and inv: "audio_inv f fsz st"
    and doc: "pcm_documented api fsz" and wav: "wav_ok api"
  shows "audio_inv f fsz st'"
  using step
proof cases
  case (run_task i m s p w t s' p' w')
  with task_step_safe [OF _ _ doc wav, of f m s p w i] inv show ?thesis by auto
next
  case (nolinear cmdline r)
  obtain m s p w m' s' p' w' where st: "st = (m, s, p, w)" "st' = (m', s', p', w')"
    by (metis prod_cases4)
  note start_nolinear_inv [OF nolinear [unfolded st]]
  with inv st show ?thesis by simp
next
  case (recorder type cmdline r)
  obtain m s p w m' s' p' w' where st: "st = (m, s, p, w)" "st' = (m', s', p', w')"
    by (metis prod_cases4)
  note start_player_recorder_inv [OF recorder [unfolded st]]
  with inv st show ?thesis by simp
qed

lemma audio_reach_inv:
  "audio_reach api st0 st \<Longrightarrow> audio_inv f fsz st0 \<Longrightarrow> pcm_documented api fsz \<Longrightarrow> wav_ok api \<Longrightarrow>
     audio_inv f fsz st"
  by (induction rule: audio_reach.induct) (auto intro: audio_step_inv)

lemma audio_inv_start: "player_inv s p \<Longrightarrow> tasks m = [] \<Longrightarrow> audio_inv (h_fault (heap s)) fsz (m, s, p, w)"
  by (simp add: audio_inv.simps blocks_ok_def block_at_def)

text \<open>
  Memory safety of the audio cases call by call: however the tasks of any number of
  audio commands are scheduled between whole calls of the driver and whatever commands arrive in between, no task ever reads beyond
  the sound file, writes beyond the recording or the driver's buffers, or frees a block that is
  not its own, given a recorder that keeps to its frame size.  Every task can always make its
  next step.  A step, a whole write or the unloading included, is not interrupted here; Audio\_Race
  cuts the player into smaller steps.
\<close>

lemma audio_tasks_safe:
  assumes "pcm_documented api fsz" and "wav_ok api"
    and "player_inv s0 p0" and "tasks m0 = []"
    and "audio_reach api (m0, s0, p0, w0) (m, s, p, w)"
  shows "h_fault (heap s) = h_fault (heap s0) \<and> player_inv s p \<and>
    (\<forall>t \<in> set (tasks m). \<exists>t' st'. task_step api m t (s, p, w) = Done (t', st'))"
proof -
  have inv: "audio_inv (h_fault (heap s0)) fsz (m, s, p, w)"
    using audio_reach_inv [OF assms(5) audio_inv_start [OF assms(3,4)] assms(1,2)] .
  have "\<exists>t' st'. task_step api m t (s, p, w) = Done (t', st')" if "t \<in> set (tasks m)" for t
    using task_step_safe [OF inv _ assms(1,2)] that unfolding in_set_conv_nth by blast
  with audio_invD(1,2) [OF inv] show ?thesis by blast
qed

text \<open>A recorder that always delivers, on the board of the examples.\<close>

definition mic_api :: "mem_i2c audio_api" where
  "mic_api = \<lparr>aa_board = sink_board, bds_pcm_open = (\<lambda>_ w. ((Some 0, 512), w)),
     bds_pcm_read = (\<lambda>h w. ((0, replicate 512 7, 512), w)), bds_pcm_close = (\<lambda>h w. w),
     xTaskCreate = (\<lambda>_ _ _ w. (True, w)), audio_wav = (\<lambda>k. replicate 965655 0)\<rparr>"

lemma mic_api_ok: "pcm_documented mic_api 512" "wav_ok mic_api"
  by (auto simp: mic_api_def pcm_documented_def wav_ok_def PLAYER_FRAME_SIZE_def split: audio_kind.splits
      intro: audio_kind.induct)

lemma player_up_inv: "player_inv sys0 player_up"
  by (simp add: player_inv_def player_up_def player0_def)

lemma mic_load:
  assumes "\<forall>n. h_ok (heap s) n"
  shows "\<exists>s' p' w'. duer_audio_dac_load_driver sink_board (s, player_up, mem0) = Done (0, s', p', w')"
proof -
  obtain w1 where c: "codec_init sink_board (printf load_driver_text s, player_up, mem0) =
      Done (0, vTaskDelay 60 (printf load_driver_text s), player_up\<lparr>s_codec_inited := 1\<rparr>, w1)"
    using sink_codec_init by blast
  have "\<exists>s' p'. duer_audio_dac_load_driver sink_board (s, player_up, mem0) = Done (0, s', p', w1)"
    by (rule load_driver_succeeds [OF c]) (simp_all add: player_up_def player0_def io_simps assms)
  then show ?thesis by blast
qed

lemma mic_start_any:
  assumes "\<forall>n. h_ok (heap s) n"
  shows "\<exists>m' s' p' w'. start_player_recorder_case mic_api 0 CMD_PA_MIC (audio0, s, player_up, mem0) =
       Done (0, m', s', p', w') \<and> testing_mic m' = 0 \<and>
     tasks m' = [(Player_recorder_case, Recording R_Start), (Player_recorder_case, Playing P_Start)]"
proof -
  obtain s1 p1 w1 where l: "duer_audio_dac_load_driver sink_board (s, player_up, mem0) = Done (0, s1, p1, w1)"
    using mic_load [OF assms] by blast
  show ?thesis
    by (simp add: start_player_recorder_case_def mic_api_def l set_volume_step create_task_def audio0_def)
qed

lemma mic_start:
  "\<exists>m' s' p' w'. start_player_recorder_case mic_api 0 CMD_PA_MIC (audio0, sys0, player_up, mem0) =
       Done (0, m', s', p', w') \<and> testing_mic m' = 0 \<and>
     tasks m' = [(Player_recorder_case, Recording R_Start), (Player_recorder_case, Playing P_Start)]"
  by (rule mic_start_any) simp

lemma audio_tasks_safe_witness:
  "\<exists>m s p w. audio_reach mic_api (audio0, sys0, player_up, mem0) (m, s, p, w) \<and> length (tasks m) = 2 \<and>
     \<not> h_fault (heap s) \<and> (\<forall>t \<in> set (tasks m). \<exists>t' st'. task_step mic_api m t (s, p, w) = Done (t', st'))"
proof -
  obtain m s p w where st: "start_player_recorder_case mic_api 0 CMD_PA_MIC (audio0, sys0, player_up, mem0) =
      Done (0, m, s, p, w)" and n: "length (tasks m) = 2" using mic_start by fastforce
  have r: "audio_reach mic_api (audio0, sys0, player_up, mem0) (m, s, p, w)"
    by (rule audio_reach.step [OF audio_reach.start audio_step.recorder [OF st]])
  have "tasks audio0 = []" by (simp add: audio0_def)
  from audio_tasks_safe [OF mic_api_ok player_up_inv this r] r n show ?thesis
    unfolding sys0_simps(5) by blast
qed

section \<open>The testing flags\<close>

lemma testing_mic_step: "audio_step api (m, s, p, w) (m', s', p', w') \<Longrightarrow> testing_mic m = 1 \<Longrightarrow> testing_mic m' = 1"
  by (erule audio_stepE) (auto elim: start_nolinear_cases start_player_recorder_cases)

lemma testing_mic_reach:
  "audio_reach api st0 st \<Longrightarrow> testing_mic (fst st0) = 1 \<Longrightarrow> testing_mic (fst st) = 1"
proof (induction rule: audio_reach.induct)
  case (step st st')
  then show ?case using testing_mic_step [of api] by (cases st; cases st') fastforce
qed simp

text \<open>
  C39. The \<open>testing\<close> flag of the microphone cases does the opposite of what its name says.  A start
  that succeeds clears it at once, while the two tasks it created have not even begun, so it never
  keeps a second test from starting; a start that fails leaves it set for good: from then on,
  whatever happens, every microphone command is refused without a message, until the next reset.
\<close>

theorem testing_flag:
  assumes "start_player_recorder_case api type cmdline (m, s, p, w) = Done (r, m1, s1, p1, w1)"
  shows "(r = 0 \<longrightarrow> testing_mic m1 = 0 \<and> length (tasks m1) = length (tasks m) + 2) \<and>
    (r \<noteq> 0 \<longrightarrow> (\<forall>m2 s2 p2 w2 type2 cmdline2. audio_reach api (m1, s1, p1, w1) (m2, s2, p2, w2) \<longrightarrow>
       (\<exists>m3. start_player_recorder_case api type2 cmdline2 (m2, s2, p2, w2) = Done (-1, m3, s2, p2, w2) \<and>
          tasks m3 = tasks m2)))"
proof -
  have ok: "(r = 0 \<longrightarrow> testing_mic m1 = 0 \<and> length (tasks m1) = length (tasks m) + 2) \<and>
      (r \<noteq> 0 \<longrightarrow> testing_mic m1 = 1)"
    using assms by (cases rule: start_player_recorder_cases) (auto split: if_splits)
  have "\<exists>m3. start_player_recorder_case api type2 cmdline2 (m2, s2, p2, w2) = Done (-1, m3, s2, p2, w2) \<and>
      tasks m3 = tasks m2"
    if "r \<noteq> 0" "audio_reach api (m1, s1, p1, w1) (m2, s2, p2, w2)" for m2 s2 p2 w2 type2 cmdline2
  proof -
    have "testing_mic m2 = 1" using testing_mic_reach [OF that(2)] ok that(1) by simp
    then show ?thesis by (simp add: start_player_recorder_case_def Let_def)
  qed
  with ok show ?thesis by blast
qed

theorem testing_flag_witness:
  "(\<exists>m1 st. start_player_recorder_case mic_api 0 CMD_PA_MIC (audio0, sys0, player_up, mem0) = Done (0, m1, st) \<and>
     testing_mic m1 = 0 \<and> length (tasks m1) = 2)"
proof -
  obtain m s p w where st: "start_player_recorder_case mic_api 0 CMD_PA_MIC (audio0, sys0, player_up, mem0) =
      Done (0, m, s, p, w)" using mic_start by blast
  from testing_flag [OF st] st show ?thesis by (auto simp: audio0_def)
qed

end
