(* ===== verification/Audio_Runs.thy ===== *)
theory Audio_Runs
  imports Audio_Props
begin

text \<open>
  The two audio tasks run on their own, from start to end: which samples of the sound the player
  puts on the channel, that the recorder ends, what it sends, and what the volume argument of a command means.
\<close>

section \<open>The player\<close>

definition sound_frames :: "audio_kind \<Rightarrow> nat" where
  "sound_frames k = nat (PLAYER_PCM_SIZE k) div PLAYER_FRAME_SIZE + 1"

definition write_pc :: "nat \<Rightarrow> player_pc" where
  "write_pc j = P_Write (int (PLAYER_FRAME_SIZE * j)) (PLAYER_FRAME_SIZE * j)"

text \<open>A channel that never reports an error.\<close>

definition channel_ok :: "'w audio_api \<Rightarrow> bool" where
  "channel_ok api \<longleftrightarrow> (\<forall>bs w. 0 \<le> fst (i2s_write_bytes (b_i2s (aa_board api)) 0 bs w))"

lemma PCM_SIZE_nonneg: "0 \<le> PLAYER_PCM_SIZE k"
  by (cases k) simp_all

lemma frame_fits: "j < sound_frames k \<longleftrightarrow> int (PLAYER_FRAME_SIZE * j) \<le> PLAYER_PCM_SIZE k"
proof -
  have "j < sound_frames k \<longleftrightarrow> j \<le> nat (PLAYER_PCM_SIZE k) div PLAYER_FRAME_SIZE"
    by (auto simp: sound_frames_def)
  also have "\<dots> \<longleftrightarrow> j * PLAYER_FRAME_SIZE \<le> nat (PLAYER_PCM_SIZE k)"
    by (intro less_eq_div_iff_mult_less_eq) (simp add: PLAYER_FRAME_SIZE_def)
  also have "\<dots> \<longleftrightarrow> int (PLAYER_FRAME_SIZE * j) \<le> PLAYER_PCM_SIZE k"
    using PCM_SIZE_nonneg [of k] by (simp add: mult.commute nat_le_iff le_nat_iff)
  finally show ?thesis .
qed

text \<open>One write: the next frame, or the end.\<close>

lemma write_step:
  assumes inv: "player_inv s p" and st: "s_channel p = 1" "s_sample_rate p = 48000"
    and wav: "wav_ok api" and j: "j < sound_frames k"
  obtains s' p' w' pc where "player_exec api k hdr (write_pc j) (s, p, w) = Done (pc, s', p', w')"
    and "pc = write_pc (Suc j) \<and> Suc j < sound_frames k \<and> player_inv s' p' \<and> s_channel p' = 1 \<and>
           s_sample_rate p' = 48000 \<or>
         pc = P_Stop \<and> (Suc j = sound_frames k \<or> \<not> channel_ok api)"
proof -
  let ?off = "PLAYER_FRAME_SIZE * j"
  have le: "int ?off \<le> PLAYER_PCM_SIZE k" using j by (simp add: frame_fits)
  have len: "PLAYER_PCM_SIZE k + int PLAYER_FRAME_SIZE \<le> int (length (audio_wav api k))"
    using wav by (simp add: wav_ok_def)
  with le have off: "?off + PLAYER_FRAME_SIZE \<le> length (audio_wav api k)" by linarith
  let ?buf = "take PLAYER_FRAME_SIZE (drop ?off (audio_wav api k))"
  have lb: "length ?buf = PLAYER_FRAME_SIZE" using off by simp
  from dac_write_frame [OF inv st lb, of "aa_board api" w] obtain r s1 p1 w1 where
    d: "duer_audio_dac_write (aa_board api) 0 ?buf PLAYER_FRAME_SIZE (s, p, w) = Done (r, s1, p1, w1)"
    and o: "player_only s p s1 p1" "stream_same p p1" by blast
  have r: "0 \<le> r" if "channel_ok api"
    using dac_write_nonneg [OF inv st lb d] that by (simp add: channel_ok_def)
  have keep: "player_inv s1 p1" "s_channel p1 = 1" "s_sample_rate p1 = 48000"
    using o inv st by (simp_all add: player_only_def stream_same_def)
  have nx: "int ?off + int PLAYER_FRAME_SIZE = int (PLAYER_FRAME_SIZE * Suc j)"
    "?off + PLAYER_FRAME_SIZE = PLAYER_FRAME_SIZE * Suc j" by (simp_all add: algebra_simps)
  consider "r < 0" | "0 \<le> r" "Suc j < sound_frames k" | "0 \<le> r" "\<not> Suc j < sound_frames k" by linarith
  then show thesis
  proof cases
    case 1
    with off d r show thesis
      by (intro that [of P_Stop]) (auto simp: write_pc_def simp del: mult_Suc_right)
  next
    case 2
    have "\<not> int (PLAYER_FRAME_SIZE * Suc j) > PLAYER_PCM_SIZE k" using 2(2) by (simp add: frame_fits)
    moreover have "\<not> PLAYER_FRAME_SIZE * Suc j > length (audio_wav api k)"
      using off nx(2) by simp
    moreover have "player_inv (vTaskDelay 2 s1) p1"
      using keep(1) by (simp add: player_inv_def io_simps)
    ultimately show thesis using off d keep 2
      by (intro that [of "write_pc (Suc j)" "vTaskDelay 2 s1" p1 w1])
         (simp_all only: write_pc_def player_exec.simps Let_def nx run.case prod.case if_False simp_thms
            not_less div_by_1, simp_all)
  next
    case 3
    have "int ?off + int PLAYER_FRAME_SIZE > PLAYER_PCM_SIZE k"
      using 3(2) unfolding nx(1) by (simp add: frame_fits)
    then have "player_exec api k hdr (write_pc j) (s, p, w) = Done (P_Stop, s1, p1, w1)"
      using off d 3(1) by (simp add: write_pc_def)
    moreover have "Suc j = sound_frames k" using 3(2) j by simp
    ultimately show thesis by (intro that [of P_Stop]) simp_all
  qed
qed

text \<open>What is heard of a block: the upper halves of its 32-bit words, left and right in turn.\<close>

definition heard :: "u8 list \<Rightarrow> s16 list" where
  "heard blk = map (\<lambda>i. shorts_of_bytes blk ! (2 * i + 1)) [0..<length (shorts_of_bytes blk) div 2]"

definition both_sides :: "s16 list \<Rightarrow> s16 list" where
  "both_sides xs = concat (map (\<lambda>x. [x, x]) xs)"

lemma both_sides_append [simp]: "both_sides (xs @ ys) = both_sides xs @ both_sides ys"
  by (simp add: both_sides_def)

lemma heard_block:
  assumes "length b32 = 4 * n" and "length xs = n" and "\<forall>j < 2 * n. b32 ! (2 * j + 1) = xs ! (j div 2)"
  shows "heard (bytes_of_shorts b32) = both_sides xs"
proof (rule nth_equalityI)
  show "length (heard (bytes_of_shorts b32)) = length (both_sides xs)"
    using assms by (simp add: heard_def both_sides_def shorts_of_bytes_of_shorts length_double)
  show "heard (bytes_of_shorts b32) ! i = both_sides xs ! i" if "i < length (heard (bytes_of_shorts b32))" for i
    using that assms by (simp add: heard_def both_sides_def shorts_of_bytes_of_shorts nth_double)
qed

definition to_channel :: "'w audio_api \<Rightarrow> u8 list \<Rightarrow> 'w \<Rightarrow> int \<times> 'w" where
  "to_channel api blk w = i2s_write_bytes (b_i2s (aa_board api)) 0 blk w"

abbreviation send_all :: "'w audio_api \<Rightarrow> u8 list list \<Rightarrow> 'w \<Rightarrow> 'w" where
  "send_all api blks w \<equiv> fold (\<lambda>blk w. snd (to_channel api blk w)) blks w"

definition loaded :: "'a io_scheme \<Rightarrow> player \<Rightarrow> bool" where
  "loaded s p \<longleftrightarrow> player_inv s p \<and> output_buf_16 p \<noteq> None \<and> output_buf_32 p \<noteq> None"

definition frame_at :: "'w audio_api \<Rightarrow> audio_kind \<Rightarrow> nat \<Rightarrow> u8 list" where
  "frame_at api k j = take PLAYER_FRAME_SIZE (drop (PLAYER_FRAME_SIZE * j) (audio_wav api k))"

lemma write_sends:
  assumes ld: "loaded s p" and st: "s_channel p = 1" "s_sample_rate p = 48000"
    and wav: "wav_ok api" and j: "j < sound_frames k"
  obtains blk s' p' pc where
    "player_exec api k hdr (write_pc j) (s, p, w) = Done (pc, s', p', snd (to_channel api blk w))"
    and "heard blk = both_sides (shorts_of_bytes (frame_at api k j))"
    and "loaded s' p'" and "s_channel p' = 1" and "s_sample_rate p' = 48000" and "h_fault (heap s') = h_fault (heap s)"
    and "pc = write_pc (Suc j) \<and> Suc j < sound_frames k \<or>
         pc = P_Stop \<and> (Suc j = sound_frames k \<or> fst (to_channel api blk w) < 0)"
proof -
  note L = ld [unfolded loaded_def]
  let ?off = "PLAYER_FRAME_SIZE * j" and ?b = "aa_board api"
  have le: "int ?off \<le> PLAYER_PCM_SIZE k" using j by (simp add: frame_fits)
  have len: "PLAYER_PCM_SIZE k + int PLAYER_FRAME_SIZE \<le> int (length (audio_wav api k))"
    using wav by (simp add: wav_ok_def)
  with le have off: "?off + PLAYER_FRAME_SIZE \<le> length (audio_wav api k)" by linarith
  let ?buf = "frame_at api k j"
  have lb: "length ?buf = 2 * 512" using off by (simp add: frame_at_def PLAYER_FRAME_SIZE_def)
  from mono_48k_block [OF _ _ _ st lb, of s ?b 0 w] L obtain b32 p1 where b: "length b32 = 4 * 512"
    "\<forall>j < 2 * 512. b32 ! (2 * j + 1) = shorts_of_bytes ?buf ! (j div 2)"
    "duer_audio_dac_write ?b 0 ?buf (2 * 512) (s, p, w) =
      Done (fst (to_channel api (bytes_of_shorts b32) w), s, p1, snd (to_channel api (bytes_of_shorts b32) w))"
    unfolding to_channel_def by auto
  let ?blk = "bytes_of_shorts b32"
  let ?r = "fst (to_channel api ?blk w)" and ?w1 = "snd (to_channel api ?blk w)"
  have hd: "heard ?blk = both_sides (shorts_of_bytes ?buf)"
    using b(2) lb by (intro heard_block [OF b(1)]) (simp_all add: length_shorts_of_bytes)
  have d: "duer_audio_dac_write ?b 0 (take PLAYER_FRAME_SIZE (drop ?off (audio_wav api k))) PLAYER_FRAME_SIZE (s, p, w) =
      Done (?r, s, p1, ?w1)" using b(3) by (simp add: frame_at_def PLAYER_FRAME_SIZE_def)
  from dac_write_same_player [OF _ _ d] L st
  have keep: "loaded s p1" "s_channel p1 = 1" "s_sample_rate p1 = 48000"
    by (auto simp: loaded_def player_inv_def)
  have nx: "int ?off + int PLAYER_FRAME_SIZE = int (PLAYER_FRAME_SIZE * Suc j)"
    "?off + PLAYER_FRAME_SIZE = PLAYER_FRAME_SIZE * Suc j" by (simp_all add: algebra_simps)
  have x: "player_exec api k hdr (write_pc j) (s, p, w) =
      (if ?r < 0 then Done (P_Stop, out_print_result hdr FAILED (write_fail_text k) s, p1, ?w1)
       else if int (PLAYER_FRAME_SIZE * Suc j) > PLAYER_PCM_SIZE k \<or> PLAYER_FRAME_SIZE * Suc j > length (audio_wav api k)
       then Done (P_Stop, s, p1, ?w1) else Done (write_pc (Suc j), vTaskDelay 2 s, p1, ?w1))"
    using off unfolding write_pc_def player_exec.simps d run.case prod.case Let_def nx by simp
  have l1: "loaded (out_print_result hdr FAILED (write_fail_text k) s) p1" "loaded (vTaskDelay 2 s) p1"
    using keep(1) by (simp_all add: loaded_def player_inv_def io_simps)
  have fits: "\<not> PLAYER_FRAME_SIZE * Suc j > length (audio_wav api k)" using off nx(2) by simp
  consider "?r < 0" | "0 \<le> ?r" "Suc j < sound_frames k" | "0 \<le> ?r" "\<not> Suc j < sound_frames k" by linarith
  then show thesis
  proof cases
    case 1
    then have "player_exec api k hdr (write_pc j) (s, p, w) =
        Done (P_Stop, out_print_result hdr FAILED (write_fail_text k) s, p1, ?w1)" by (simp add: x)
    from that [OF this hd l1(1) keep(2,3)] 1 show thesis by (simp add: io_simps)
  next
    case 2
    then have "\<not> int (PLAYER_FRAME_SIZE * Suc j) > PLAYER_PCM_SIZE k" by (simp add: frame_fits)
    with 2 fits have "player_exec api k hdr (write_pc j) (s, p, w) = Done (write_pc (Suc j), vTaskDelay 2 s, p1, ?w1)"
      by (simp add: x)
    from that [OF this hd l1(2) keep(2,3)] 2 show thesis by (simp add: io_simps)
  next
    case 3
    then have "int (PLAYER_FRAME_SIZE * Suc j) > PLAYER_PCM_SIZE k" by (simp add: frame_fits)
    with 3(1) have "player_exec api k hdr (write_pc j) (s, p, w) = Done (P_Stop, s, p1, ?w1)" by (simp add: x)
    from that [OF this hd keep] 3(2) j show thesis by simp
  qed
qed

text \<open>\<open>n\<close> steps of a player task.\<close>

fun player_run ::
  "'w audio_api \<Rightarrow> audio_kind \<Rightarrow> string \<Rightarrow> nat \<Rightarrow> player_pc \<Rightarrow> sys \<times> player \<times> 'w \<Rightarrow>
     (player_pc \<times> sys \<times> player \<times> 'w) run" where
  "player_run api k hdr 0 pc st = Done (pc, st)"
| "player_run api k hdr (Suc n) pc st =
     (case player_exec api k hdr pc st of
        Done (pc, st) \<Rightarrow> player_run api k hdr n pc st
      | Crash c \<Rightarrow> Crash c | Hang \<Rightarrow> Hang | Restart x \<Rightarrow> Restart x)"

lemma plays_next:
  "player_exec api k hdr pc st = Done (pc1, st1) \<Longrightarrow> player_run api k hdr (Suc n) pc st = player_run api k hdr n pc1 st1"
  by simp

text \<open>The bytes of the frames from \<open>j\<close> to \<open>e\<close>.\<close>

lemma frame_at_concat:
  assumes "j < e" and "PLAYER_FRAME_SIZE * e \<le> length (audio_wav api k)"
  shows "frame_at api k j @ take (PLAYER_FRAME_SIZE * (e - Suc j)) (drop (PLAYER_FRAME_SIZE * Suc j) (audio_wav api k)) =
    take (PLAYER_FRAME_SIZE * (e - j)) (drop (PLAYER_FRAME_SIZE * j) (audio_wav api k))"
proof -
  have e: "PLAYER_FRAME_SIZE * (e - j) = PLAYER_FRAME_SIZE + PLAYER_FRAME_SIZE * (e - Suc j)"
    using assms(1) by (metis Suc_diff_Suc mult_Suc_right)
  have d: "drop (PLAYER_FRAME_SIZE * Suc j) (audio_wav api k) =
      drop PLAYER_FRAME_SIZE (drop (PLAYER_FRAME_SIZE * j) (audio_wav api k))" by (simp add: algebra_simps)
  show ?thesis unfolding e d frame_at_def take_add ..
qed

definition sound_upto :: "'w audio_api \<Rightarrow> audio_kind \<Rightarrow> nat \<Rightarrow> nat \<Rightarrow> s16 list" where
  "sound_upto api k j e = shorts_of_bytes (take (PLAYER_FRAME_SIZE * (e - j)) (drop (PLAYER_FRAME_SIZE * j) (audio_wav api k)))"

lemma sound_upto_next:
  assumes "j < e" and "e \<le> sound_frames k" and "wav_ok api"
  shows "sound_upto api k j e = shorts_of_bytes (frame_at api k j) @ sound_upto api k (Suc j) e"
proof -
  have "e - 1 < sound_frames k" using assms(1,2) by simp
  then have "int (PLAYER_FRAME_SIZE * (e - 1)) \<le> PLAYER_PCM_SIZE k" by (simp add: frame_fits)
  moreover have "PLAYER_PCM_SIZE k + int PLAYER_FRAME_SIZE \<le> int (length (audio_wav api k))"
    using assms(3) by (simp add: wav_ok_def)
  moreover have "PLAYER_FRAME_SIZE * e = PLAYER_FRAME_SIZE * (e - 1) + PLAYER_FRAME_SIZE"
    using assms(1) by (cases e) simp_all
  ultimately have le: "PLAYER_FRAME_SIZE * e \<le> length (audio_wav api k)" by linarith
  have "PLAYER_FRAME_SIZE * Suc j \<le> PLAYER_FRAME_SIZE * e" using assms(1) by (intro mult_left_mono) simp_all
  then have "length (frame_at api k j) = PLAYER_FRAME_SIZE" using le by (simp add: frame_at_def)
  then have "even (length (frame_at api k j))" by (simp add: PLAYER_FRAME_SIZE_def)
  then show ?thesis
    unfolding sound_upto_def frame_at_concat [OF assms(1) le, symmetric] by (rule shorts_of_bytes_append)
qed

lemma player_run_sends:
  assumes wav: "wav_ok api"
  shows "loaded s p \<Longrightarrow> s_channel p = 1 \<Longrightarrow> s_sample_rate p = 48000 \<Longrightarrow> j < sound_frames k \<Longrightarrow>
    d = sound_frames k - Suc j \<Longrightarrow>
    \<exists>e blks s' p'. j < e \<and> e \<le> sound_frames k \<and> length blks = e - j \<and>
      player_run api k hdr (e - j) (write_pc j) (s, p, w) =
        Done (P_Stop, s', p', send_all api blks w) \<and>
      loaded s' p' \<and> h_fault (heap s') = h_fault (heap s) \<and> concat (map heard blks) = both_sides (sound_upto api k j e) \<and>
      (e < sound_frames k \<longrightarrow>
         fst (to_channel api (last blks) (send_all api (butlast blks) w)) < 0)"
proof (induction d arbitrary: j s p w)
  case (0 j s p w)
  then have e: "sound_frames k = Suc j" by simp
  obtain blk s' p' pc where x: "player_exec api k hdr (write_pc j) (s, p, w) = Done (pc, s', p', snd (to_channel api blk w))"
    and h: "heard blk = both_sides (shorts_of_bytes (frame_at api k j))" "loaded s' p'"
      "h_fault (heap s') = h_fault (heap s)"
    and pc: "pc = write_pc (Suc j) \<and> Suc j < sound_frames k \<or>
         pc = P_Stop \<and> (Suc j = sound_frames k \<or> fst (to_channel api blk w) < 0)"
    by (rule write_sends [OF 0(1-3) wav 0(4), of hdr w]) blast
  have "sound_upto api k j (Suc j) = shorts_of_bytes (frame_at api k j)" by (simp add: sound_upto_def frame_at_def)
  moreover have "pc = P_Stop" using pc e by simp
  ultimately show ?case using x h e by (intro exI [of _ "Suc j"] exI [of _ "[blk]"]) simp
next
  case (Suc d j s p w)
  obtain blk s1 p1 pc where x: "player_exec api k hdr (write_pc j) (s, p, w) = Done (pc, s1, p1, snd (to_channel api blk w))"
    and h: "heard blk = both_sides (shorts_of_bytes (frame_at api k j))" "loaded s1 p1" "s_channel p1 = 1"
      "s_sample_rate p1 = 48000" "h_fault (heap s1) = h_fault (heap s)"
    and pc: "pc = write_pc (Suc j) \<and> Suc j < sound_frames k \<or>
         pc = P_Stop \<and> (Suc j = sound_frames k \<or> fst (to_channel api blk w) < 0)"
    by (rule write_sends [OF Suc.prems(1-3) wav Suc.prems(4), of hdr w]) blast
  have j: "Suc j < sound_frames k" using Suc.prems(5) by simp
  from pc show ?case
  proof
    assume pc: "pc = write_pc (Suc j) \<and> Suc j < sound_frames k"
    have d: "d = sound_frames k - Suc (Suc j)" using Suc.prems(5) by simp
    obtain e blks s' p' where e: "Suc j < e" "e \<le> sound_frames k" "length blks = e - Suc j"
      and r: "player_run api k hdr (e - Suc j) (write_pc (Suc j)) (s1, p1, snd (to_channel api blk w)) =
        Done (P_Stop, s', p', send_all api blks (snd (to_channel api blk w)))"
      and g: "loaded s' p'" "h_fault (heap s') = h_fault (heap s1)"
        "concat (map heard blks) = both_sides (sound_upto api k (Suc j) e)"
        "e < sound_frames k \<longrightarrow> fst (to_channel api (last blks)
          (send_all api (butlast blks) (snd (to_channel api blk w)))) < 0"
      using Suc.IH [OF h(2-4) j d, of "snd (to_channel api blk w)"] by blast
    have n: "e - j = Suc (e - Suc j)" and ne: "blks \<noteq> []" using e by auto
    have u: "sound_upto api k j e = shorts_of_bytes (frame_at api k j) @ sound_upto api k (Suc j) e"
      using e by (intro sound_upto_next [OF _ _ wav]) simp_all
    have "player_run api k hdr (e - j) (write_pc j) (s, p, w) =
        Done (P_Stop, s', p', send_all api (blk # blks) w)"
      unfolding n plays_next [OF x] using pc r by simp
    moreover have "concat (map heard (blk # blks)) = both_sides (sound_upto api k j e)"
      using h(1) g(3) u by simp
    ultimately show ?thesis using e g h(5) n ne
      by (intro exI [of _ e] exI [of _ "blk # blks"] exI [of _ s'] exI [of _ p']) simp
  next
    assume a: "pc = P_Stop \<and> (Suc j = sound_frames k \<or> fst (to_channel api blk w) < 0)"
    have "sound_upto api k j (Suc j) = shorts_of_bytes (frame_at api k j)" by (simp add: sound_upto_def frame_at_def)
    with a x h j show ?thesis by (intro exI [of _ "Suc j"] exI [of _ "[blk]"]) simp
  qed
qed

lemma sound_frames_eq: "sound_frames k = (case k of Nolinear_case \<Rightarrow> 938 | Player_recorder_case \<Rightarrow> 188)"
  by (cases k) (simp_all add: sound_frames_def PLAYER_FRAME_SIZE_def)

text \<open>
  C19. The player task plays the sound and ends.  With the driver loaded, it hands \<open>e\<close> blocks to the
  channel, one for each frame; what is heard of all of them together is the first \<open>e\<close> frames of the
  sound, every sample left and right, in order.  \<open>e\<close> is 938 (188 for the short sound), which is the ten
  (two) seconds of sound and a part of a frame more, unless the channel reports an error: then the block it reports
  the error for is the last one.  Behind the last block the task waits for the end, unloads the driver, and is done.
\<close>

theorem player_task_plays:
  assumes "player_inv s p" and "output_buf_16 p \<noteq> None" and "output_buf_32 p \<noteq> None" and "wav_ok api"
  shows "\<exists>e blks s1 p1 w1 s2 p2 w2. 0 < e \<and> e \<le> (case k of Nolinear_case \<Rightarrow> 938 | Player_recorder_case \<Rightarrow> 188) \<and>
    length blks = e \<and> w1 = send_all api blks w \<and>
    player_run api k hdr (e + 1) P_Start (s, p, w) = Done (P_Stop, s1, p1, w1) \<and>
    concat (map heard blks) = both_sides (shorts_of_bytes (take (PLAYER_FRAME_SIZE * e) (audio_wav api k))) \<and>
    (e = (case k of Nolinear_case \<Rightarrow> 938 | Player_recorder_case \<Rightarrow> 188) \<or>
       fst (to_channel api (last blks) (send_all api (butlast blks) w)) < 0) \<and>
    player_exec api k hdr P_Stop (s1, p1, w1) = Done (P_End, s2, p2, w2) \<and>
    output_buf_16 p2 = None \<and> output_buf_32 p2 = None \<and> h_fault (heap s2) = h_fault (heap s)"
proof -
  have pos: "0 < sound_frames k" by (simp add: sound_frames_def)
  obtain x s' p' w' where st: "duer_audio_dac_start_play 0 1 48000 16 (s, p, w) = (x, s', p', w')"
    by (cases "duer_audio_dac_start_play 0 1 48000 16 (s, p, w)") auto
  have S: "x = 0" "w' = w" "loaded s' p'" "s_channel p' = 1" "s_sample_rate p' = 48000" "heap s' = heap s"
    using st assms(1-3) by (auto simp: duer_audio_dac_start_play_def loaded_def player_inv_def io_simps)
  have x: "player_exec api k hdr P_Start (s, p, w) = Done (write_pc 0, s', p', w)"
    using st S by (simp add: write_pc_def)
  from player_run_sends [OF assms(4) S(3-5) pos refl, of hdr w, unfolded diff_zero] obtain e blks s1 p1 where
    e: "0 < e" "e \<le> sound_frames k" "length blks = e"
    and r: "player_run api k hdr e (write_pc 0) (s', p', w) =
        Done (P_Stop, s1, p1, send_all api blks w)"
    and ld: "loaded s1 p1" "h_fault (heap s1) = h_fault (heap s')"
    and sn: "concat (map heard blks) = both_sides (sound_upto api k 0 e)"
    and f: "e < sound_frames k \<longrightarrow>
         fst (to_channel api (last blks) (send_all api (butlast blks) w)) < 0" by blast
  let ?w1 = "send_all api blks w"
  have run: "player_run api k hdr (e + 1) P_Start (s, p, w) = Done (P_Stop, s1, p1, ?w1)"
    using plays_next [OF x, of e] r by (simp only: Suc_eq_plus1)
  have u: "sound_upto api k 0 e = shorts_of_bytes (take (PLAYER_FRAME_SIZE * e) (audio_wav api k))"
    by (simp add: sound_upto_def)
  obtain r3 s3 p3 w3 where wt: "duer_audio_dac_wait_play_end (aa_board api) (s1, p1, ?w1) = (r3, s3, p3, w3)"
    by (metis prod_cases4)
  obtain r4 s2 p2 w2 where un: "duer_audio_dac_unload_driver (aa_board api) (s3, p3, w3) = (r4, s2, p2, w2)"
    by (metis prod_cases4)
  have "player_inv s3 p3" "h_fault (heap s3) = h_fault (heap s1)"
    using wait_play_end_only [OF wt] ld(1) by (auto simp: player_only_def loaded_def)
  with unload_driver_only [OF un] have "h_fault (heap s2) = h_fault (heap s)"
    using ld(2) S(6) by (auto simp: player_only_def)
  moreover have "output_buf_16 p2 = None" "output_buf_32 p2 = None"
    using un by (auto simp: duer_audio_dac_unload_driver_def Let_def split: prod.splits)
  moreover have "player_exec api k hdr P_Stop (s1, p1, ?w1) = Done (P_End, s2, p2, w2)" by (simp add: wt un)
  moreover have "e = sound_frames k \<or> fst (to_channel api (last blks) (send_all api (butlast blks) w)) < 0"
    using e(2) f by linarith
  ultimately show ?thesis using e run sn unfolding u sound_frames_eq [symmetric]
    by (intro exI [of _ e] exI [of _ blks] exI [of _ s1] exI [of _ p1] exI [of _ ?w1] exI [of _ s2] exI [of _ p2]
        exI [of _ w2] conjI) (assumption | rule refl)+
qed


theorem player_task_plays_witness:
  "\<exists>s p blks s1 p1. output_buf_16 p = Some 0 \<and> output_buf_32 p = Some 1 \<and> length blks = 188 \<and>
     player_run mic_api Player_recorder_case ''x'' 189 P_Start (s, p, mem0) =
       Done (P_Stop, s1, p1, send_all mic_api blks mem0) \<and>
     concat (map heard blks) =
       both_sides (shorts_of_bytes (take (PLAYER_FRAME_SIZE * 188) (audio_wav mic_api Player_recorder_case)))"
proof -
  let ?s = "sys0\<lparr>heap := (heap sys0)\<lparr>h_live := {0, 1}, h_next := 2\<rparr>\<rparr>"
    and ?p = "tiny_player\<lparr>buf_16 := replicate 12288 0, buf_32 := replicate 24576 0\<rparr>"
  have inv: "player_inv ?s ?p"
    by (simp add: player_inv_def tiny_player_def heap_wf_def CODEC_OUTPUT_BUFSIZE_def)
  have b: "output_buf_16 ?p \<noteq> None" "output_buf_32 ?p \<noteq> None" "output_buf_16 ?p = Some 0" "output_buf_32 ?p = Some 1"
    by (simp_all add: tiny_player_def)
  have ok: "\<not> fst (to_channel mic_api blk w) < 0" for blk w
    by (simp add: to_channel_def mic_api_def sink_board_def sink_i2s_def)
  have n: "(188 :: nat) + 1 = 189" by simp
  from player_task_plays [OF inv b(1,2) mic_api_ok(2), where k = Player_recorder_case and hdr = "''x''" and w = mem0,
      unfolded audio_kind.case]
  obtain e blks s1 p1 where r: "player_run mic_api Player_recorder_case ''x'' (e + 1) P_Start (?s, ?p, mem0) =
      Done (P_Stop, s1, p1, send_all mic_api blks mem0)"
    and h: "concat (map heard blks) =
       both_sides (shorts_of_bytes (take (PLAYER_FRAME_SIZE * e) (audio_wav mic_api Player_recorder_case)))"
    and l: "length blks = e"
    and d: "e = 188 \<or> fst (to_channel mic_api (last blks) (send_all mic_api (butlast blks) mem0)) < 0"
    by (elim exE conjE) (rule that, simp_all only:)
  from d ok have e: "e = 188" by blast
  have "player_run mic_api Player_recorder_case ''x'' 189 P_Start (?s, ?p, mem0) =
      Done (P_Stop, s1, p1, send_all mic_api blks mem0)" using r unfolding e n .
  with h l b(3,4) show ?thesis unfolding e by blast
qed

section \<open>The recorder\<close>

text \<open>Running a recorder task for at most \<open>n\<close> steps.\<close>

fun recorder_run ::
  "'w audio_api \<Rightarrow> audio_kind \<Rightarrow> string \<Rightarrow> nat \<Rightarrow> recorder_pc \<Rightarrow> sys \<times> 'w \<Rightarrow>
     (recorder_pc \<times> sys \<times> 'w) run" where
  "recorder_run api k hdr 0 pc st = Done (pc, st)"
| "recorder_run api k hdr (Suc n) pc st =
     (if pc = R_End then Done (pc, st)
      else case recorder_exec api k hdr pc st of
             Done (pc, st) \<Rightarrow> recorder_run api k hdr n pc st
           | Crash c \<Rightarrow> Crash c | Hang \<Rightarrow> Hang | Restart x \<Rightarrow> Restart x)"

lemma run_end [simp]: "recorder_run api k hdr n R_End st = Done (R_End, st)"
  by (cases n) simp_all

lemma run_next:
  "recorder_exec api k hdr pc st = Done (pc', st') \<Longrightarrow> pc \<noteq> R_End \<Longrightarrow>
     recorder_run api k hdr (Suc n) pc st = recorder_run api k hdr n pc' st'"
  by simp

text \<open>The sending loop, one pass at a time, is the sending loop of \<open>data_out_exec\<close>.\<close>

lemma data_out_pass_loop:
  "data_out_loop t data pos s =
     (case data_out_pass t data pos s of
        (None, s') \<Rightarrow> s' | (Some pos', s') \<Rightarrow> data_out_loop t data pos' s')"
  by (subst data_out_loop.simps) (simp add: data_out_pass_def Let_def)

lemma send_run:
  "length data - pos + 1 < n \<Longrightarrow>
     recorder_run api k hdr n (R_Send t a data pos) (s, w) =
       Done (R_End, out_print_data_ctl hdr (io_free (Some a) (data_out_loop t data pos s)), w)"
proof (induction n arbitrary: pos s)
  case (Suc n)
  then obtain n' where n: "n = Suc n'" by (cases n) auto
  obtain q s' where ps: "data_out_pass t data pos s = (q, s')" by (cases "data_out_pass t data pos s")
  note loop = data_out_pass_loop [of t data pos s, unfolded ps prod.case]
  show ?case
  proof (cases q)
    case None
    with ps have "recorder_run api k hdr (Suc n) (R_Send t a data pos) (s, w) =
        recorder_run api k hdr n (R_Free a) (s', w)" by simp
    with None loop n show ?thesis by simp
  next
    case (Some pos')
    with ps have pos': "pos < pos'" "pos' < length data"
      by (auto simp: data_out_pass_def Let_def UART_OUT_SIZE_def split: if_splits)
    then have "length data - pos' + 1 < n" using Suc.prems by linarith
    from Suc.IH [OF this, of s'] ps Some loop show ?thesis by simp
  qed
qed simp

lemma close_run:
  assumes "length data + 3 \<le> n"
  shows "recorder_run api k hdr n (R_Close h a data) (s, w) =
    Done (R_End, out_print_data_ctl hdr (io_free (Some a) (data_out_exec hdr data s)), bds_pcm_close api h w)"
proof -
  obtain n' where n: "n = Suc n'" "length data - 0 + 1 < n'" using assms by (cases n) auto
  from send_run [OF n(2), of api k hdr hdr a "printf (''data out start'' @ newline) s" "bds_pcm_close api h w"]
  show ?thesis by (simp add: n(1) data_out_exec_def)
qed

text \<open>
  C17. The recorder task refines the sequential code it was written as: closing, sending and releasing
  the recording step by step, with any number of delays in between, comes to the same output and
  the same state as \<open>data_out_exec\<close>, \<open>heap_caps_free\<close> and \<open>out_print_data_ctl\<close> one after the other.
\<close>

theorem recorder_send_refines:
  assumes "length data + 3 \<le> n"
  shows "recorder_run api k hdr n (R_Close h a data) (s, w) =
    Done (R_End, out_print_data_ctl hdr (io_free (Some a) (data_out_exec hdr data s)), bds_pcm_close api h w)"
  by (rule close_run [OF assms])

theorem recorder_send_refines_witness:
  "recorder_run mic_api Nolinear_case ''x'' 9 (R_Close 0 3 [1, 2, 3]) (sys0, mem0) =
    Done (R_End, out_print_data_ctl ''x'' (io_free (Some 3) (data_out_exec ''x'' [1, 2, 3] sys0)), mem0)"
proof -
  have "length [1, 2, 3 :: u8] + 3 \<le> 9" by simp
  from recorder_send_refines [OF this, of mic_api Nolinear_case "''x''" 0 3 sys0 mem0]
  show ?thesis by (simp add: mic_api_def)
qed

text \<open>The bytes that successive reads deliver.\<close>

fun mic_bytes :: "'w audio_api \<Rightarrow> nat \<Rightarrow> nat \<Rightarrow> 'w \<Rightarrow> u8 list" where
  "mic_bytes api h 0 w = []"
| "mic_bytes api h (Suc m) w = (case bds_pcm_read api h w of ((ret, bs, n), w') \<Rightarrow> bs @ mic_bytes api h m w')"

text \<open>A recorder that makes progress: a successful read is not empty.\<close>

definition pcm_progress :: "'w audio_api \<Rightarrow> bool" where
  "pcm_progress api \<longleftrightarrow>
     (\<forall>h w ret bs n w'. bds_pcm_read api h w = ((ret, bs, n), w') \<longrightarrow> 0 \<le> ret \<longrightarrow> 0 < n)"

text \<open>What a run of the reading loop comes to: the recording as it is when it is closed.\<close>

definition recorded :: "'w audio_api \<Rightarrow> nat \<Rightarrow> nat \<Rightarrow> u8 list \<Rightarrow> 'w \<Rightarrow> u8 list \<Rightarrow> bool" where
  "recorded api h pos data w data' \<longleftrightarrow>
     (\<exists>m. pos + length (mic_bytes api h m w) \<le> length data \<and>
        data' = take pos data @ mic_bytes api h m w @ drop (pos + length (mic_bytes api h m w)) data)"

lemma recorded_refl: "pos \<le> length data \<Longrightarrow> recorded api h pos data w data"
  unfolding recorded_def by (intro exI [of _ 0]) simp

lemma recorded_step:
  assumes "bds_pcm_read api h w = ((ret, bs, n), w')" and "store_bytes data (int pos) bs = Some data1"
    and "recorded api h (pos + length bs) data1 w' data'"
  shows "recorded api h pos data w data'"
proof -
  have 1: "data1 = take pos data @ bs @ drop (pos + length bs) data" "pos + length bs \<le> length data"
    using assms(2) by (auto simp: store_bytes_def split: if_splits)
  obtain m where m: "pos + length bs + length (mic_bytes api h m w') \<le> length data1"
    "data' = take (pos + length bs) data1 @ mic_bytes api h m w' @
       drop (pos + length bs + length (mic_bytes api h m w')) data1"
    using assms(3) unfolding recorded_def by blast
  have "take (pos + length bs) data1 = take pos data @ bs" using 1 by simp
  moreover have "drop (pos + length bs + x) data1 = drop (pos + length bs + x) data" for x
    using 1 by (simp add: ac_simps)
  ultimately show ?thesis using m 1 assms(1)
    unfolding recorded_def by (intro exI [of _ "Suc m"]) (simp add: add.assoc)
qed

lemma recorded_length: "recorded api h pos data w data' \<Longrightarrow> length data' = length data"
  by (auto simp: recorded_def)

text \<open>The reading loop ends, and the recorder goes on to send what was recorded.\<close>

lemma read_run:
  assumes doc: "pcm_documented api fsz" and prog: "pcm_progress api"
  shows "length data = RECORDER_PCM_SIZE k \<Longrightarrow> pos \<le> RECORDER_PCM_SIZE k \<Longrightarrow>
    2 * RECORDER_PCM_SIZE k + 4 \<le> pos + n \<Longrightarrow>
    \<exists>data' s' w'. recorder_run api k hdr n (R_Read h fsz a data (int pos)) (s, w) =
        Done (R_End, out_print_data_ctl hdr (io_free (Some a) (data_out_exec hdr data' s')), bds_pcm_close api h w') \<and>
      recorded api h pos data w data' \<and> heap s' = heap s \<and> g_idx s' = g_idx s"
proof (induction n arbitrary: pos data s w)
  case (Suc n)
  define P where "P = (\<lambda>pc w. \<exists>data' s' w'. recorder_run api k hdr n pc (s, w) =
        Done (R_End, out_print_data_ctl hdr (io_free (Some a) (data_out_exec hdr data' s')), bds_pcm_close api h w') \<and>
      recorded api h pos data w data' \<and> heap s' = heap s \<and> g_idx s' = g_idx s)"
  have cl: "\<exists>s' w''. recorder_run api k hdr n (R_Close h a data') (s1, w1) =
        Done (R_End, out_print_data_ctl hdr (io_free (Some a) (data_out_exec hdr data' s')), bds_pcm_close api h w'') \<and>
      heap s' = heap s1 \<and> g_idx s' = g_idx s1"
    if "length data' = RECORDER_PCM_SIZE k" for data' s1 w1
    using close_run [of data' n api k hdr h a s1 w1] that Suc.prems by fastforce
  let ?pc = "R_Read h fsz a data (int pos)"
  obtain ret bs ol w1 where rd: "bds_pcm_read api h w = ((ret, bs, ol), w1)"
    by (cases "bds_pcm_read api h w") auto
  note docs = pcm_documentedD(2) [OF doc rd]
  have ol: "0 < ol" if "0 \<le> ret" using prog rd that unfolding pcm_progress_def by blast
  show ?case
  proof (cases "int pos + fsz > int (RECORDER_PCM_SIZE k)")
    case True
    then have "recorder_exec api k hdr ?pc (s, w) = Done (R_Close h a data, s, w)" by simp
    from run_next [OF this, of n] cl [OF Suc.prems(1), of s w] recorded_refl [of pos data api h w] Suc.prems(1,2)
    show ?thesis by auto
  next
    case False
    with docs Suc.prems(1) obtain data1 where st: "store_bytes data (int pos) bs = Some data1"
      using store_bytes_fits [of "int pos" bs data] by auto
    note len = store_bytes_length [OF st]
    have pos': "pos + length bs \<le> RECORDER_PCM_SIZE k" using docs False by linarith
    have R: "recorded api h pos data w data'" if "recorded api h (pos + length bs) data1 w1 data'" for data'
      by (rule recorded_step [OF rd st that])
    have R1: "recorded api h pos data w data1"
      by (rule R [OF recorded_refl]) (use pos' len Suc.prems(1) in simp)
    have stop: ?thesis if "recorder_exec api k hdr ?pc (s, w) = Done (R_Close h a data1, s1, w1)"
        "heap s1 = heap s" "g_idx s1 = g_idx s" for s1
      using run_next [OF that(1), of n] cl [of data1 s1 w1] R1 len Suc.prems(1) that(2,3) by auto
    consider "ret < 0" | "0 \<le> ret" "int pos + ol \<ge> int (RECORDER_PCM_SIZE k)"
      | "0 \<le> ret" "int pos + ol < int (RECORDER_PCM_SIZE k)" by linarith
    then show ?thesis
    proof cases
      case 1
      with False rd st show ?thesis
        by (intro stop [of "out_print_result hdr FAILED ''mic read error'' s"]) (auto simp: io_simps)
    next
      case 2
      with False rd st show ?thesis by (intro stop [of s]) auto
    next
      case 3
      then have e: "int pos + ol = int (pos + length bs)" "pos + length bs < RECORDER_PCM_SIZE k" "0 < length bs"
        using docs ol by auto
      have "recorder_exec api k hdr ?pc (s, w) =
          Done (R_Read h fsz a data1 (int (pos + length bs)), vTaskDelay 2 s, w1)"
        using False rd st 3 unfolding e(1) [symmetric] by simp
      note nx = run_next [OF this, of n]
      have "2 * RECORDER_PCM_SIZE k + 4 \<le> pos + length bs + n" using Suc.prems(3) e(3) by linarith
      from Suc.IH [OF _ pos' this, of data1 "vTaskDelay 2 s" w1] nx R len Suc.prems(1) show ?thesis
        by (auto simp: io_simps)
    qed
  qed
qed (simp add: recorded_def)

lemma RECORDER_PCM_SIZE_frames:
  "RECORDER_PCM_SIZE k div UART_OUT_SIZE = (case k of Nolinear_case \<Rightarrow> 1883 | Player_recorder_case \<Rightarrow> 377)"
  "UART_OUT_SIZE \<le> RECORDER_PCM_SIZE k"
  by (cases k; simp add: UART_OUT_SIZE_def)+

text \<open>
  A recording from start to end: with a recorder that keeps to its frame size and makes progress,
  and memory for the block, the recorder task ends, and sends exactly 1883 frames (377 in the
  microphone cases) of 512 bytes.  What it sends are the bytes the microphones delivered, in order,
  and after them whatever the memory of the block held before: the tail that no read filled is
  sent all the same.
\<close>

lemma recorder_task_sends:
  assumes "pcm_documented api fsz" and "pcm_progress api"
    and "bds_pcm_open api recorder_pam w = ((Some h, fsz), w1)" and "h_ok (heap s) (h_next (heap s))"
  shows "\<exists>data s1 w2. recorder_run api k hdr (2 * RECORDER_PCM_SIZE k + 5) R_Start (s, w) =
      Done (R_End, out_print_data_ctl hdr (io_free (Some (h_next (heap s))) (data_out_exec hdr data s1)),
            bds_pcm_close api h w2) \<and>
    recorded api h 0 (fresh_block (heap s) (h_next (heap s)) (RECORDER_PCM_SIZE k)) w1 data \<and>
    stdout (data_out_exec hdr data s1) = stdout s1 @ Text (''data out start'' @ newline) #
      map (\<lambda>j. frame_item hdr s1 j (chunk data j))
        [0..<(case k of Nolinear_case \<Rightarrow> 1883 | Player_recorder_case \<Rightarrow> 377)]"
proof -
  let ?a = "h_next (heap s)" and ?N = "RECORDER_PCM_SIZE k"
  obtain s0 where m: "io_malloc s = (Some ?a, s0)" "h_init (heap s0) = h_init (heap s)"
    using assms(4) by (simp add: io_malloc_def malloc_def)
  let ?d = "fresh_block (heap s) ?a ?N"
  have f: "fresh_block (heap s0) ?a n = fresh_block (heap s) ?a n" for n
    using m(2) by (simp add: fresh_block_def)
  have "recorder_exec api k hdr R_Start (s, w) = Done (R_Read h fsz ?a ?d (int 0), s0, w1)"
    using assms(3) m(1) f by simp
  from run_next [OF this, of "2 * ?N + 4"]
  have st: "recorder_run api k hdr (2 * ?N + 5) R_Start (s, w) =
      recorder_run api k hdr (2 * ?N + 4) (R_Read h fsz ?a ?d (int 0)) (s0, w1)"
    by (simp add: numeral_eq_Suc)
  have "length ?d = ?N" "0 \<le> ?N" "2 * ?N + 4 \<le> 0 + (2 * ?N + 4)" by (simp_all add: length_fresh_block)
  from read_run [OF assms(1,2) this, of hdr h ?a s0 w1] obtain data s1 w2 where
    r: "recorder_run api k hdr (2 * ?N + 4) (R_Read h fsz ?a ?d (int 0)) (s0, w1) =
      Done (R_End, out_print_data_ctl hdr (io_free (Some ?a) (data_out_exec hdr data s1)), bds_pcm_close api h w2)"
    and rec: "recorded api h 0 ?d w1 data" by blast
  have "length data = ?N" using recorded_length [OF rec] by (simp add: length_fresh_block)
  then have len: "UART_OUT_SIZE \<le> length data"
    "length data div UART_OUT_SIZE = (case k of Nolinear_case \<Rightarrow> 1883 | Player_recorder_case \<Rightarrow> 377)"
    using RECORDER_PCM_SIZE_frames [of k] by simp_all
  have "stdout (data_out_exec hdr data s1) = stdout s1 @ Text (''data out start'' @ newline) #
      map (\<lambda>j. frame_item hdr s1 j (chunk data j))
        [0..<(case k of Nolinear_case \<Rightarrow> 1883 | Player_recorder_case \<Rightarrow> 377)]"
    using data_out_loop_stdout [OF len(1), of hdr 0 "printf (''data out start'' @ newline) s1"]
    unfolding len(2) by (simp add: data_out_exec_def io_simps del: upt_Suc upt_rec_numeral)
  with st r rec show ?thesis by auto
qed

lemma recorder_task_sends_witness:
  "\<exists>data s2 w2. recorder_run mic_api Player_recorder_case ''x'' (2 * RECORDER_PCM_SIZE Player_recorder_case + 5)
      R_Start (sys0, mem0) = Done (R_End, s2, w2) \<and>
    recorded mic_api 0 0 (fresh_block (heap sys0) 0 (RECORDER_PCM_SIZE Player_recorder_case)) mem0 data"
proof -
  have p: "pcm_progress mic_api" by (simp add: pcm_progress_def mic_api_def)
  have o: "bds_pcm_open mic_api recorder_pam mem0 = ((Some 0, 512), mem0)" by (simp add: mic_api_def)
  have h: "h_ok (heap sys0) (h_next (heap sys0))" by simp
  from recorder_task_sends [OF mic_api_ok(1) p o h, of Player_recorder_case "''x''"] show ?thesis
    unfolding sys0_simps(6) by blast
qed

section \<open>The volume argument\<close>

lemma foldl_nth:
  "foldl (\<lambda>a i. f a (xs ! (i + n))) a [0..<length xs - n] = foldl f a (drop n xs)"
proof -
  have "drop n xs = map (\<lambda>i. xs ! (i + n)) [0..<length xs - n]"
    by (rule nth_equalityI) (simp_all add: add.commute)
  then show ?thesis by (simp add: foldl_map)
qed

lemma foldl_dec_digits:
  "foldl (\<lambda>a c. a * 10 + (of_char c :: int) - 48) a (dec_digits v) = a * 10 ^ length (dec_digits v) + int v"
proof (induction v arbitrary: a rule: dec_digits.induct)
  case (1 n)
  have d: "(of_char (char_of (48 + k) :: char) :: int) = 48 + int k" if "k < 10" for k :: nat
    using that of_nat_of_char [of "char_of (48 + k) :: char", where ?'a = int, symmetric] by simp
  show ?case
  proof (cases "n < 10")
    case True
    then show ?thesis by (subst (1 2) dec_digits.simps) (simp add: d)
  next
    case False
    have "int n = int (n div 10) * 10 + int (n mod 10)"
      by (metis int_ops(7) int_plus mod_div_mult_eq add.commute of_nat_numeral)
    with False 1 show ?thesis
      by (subst (1 2) dec_digits.simps) (simp add: d algebra_simps)
  qed
qed

lemma volume_arg_eq:
  assumes "length cmdline < 2 ^ 32" and "preLen < 2 ^ 31"
  shows "volume_arg cmdline preLen dflt =
    (if preLen < length cmdline \<and> length cmdline \<le> preLen + 3
     then foldl (\<lambda>a c. a * 10 + (of_char c :: int) - 48) 0 (drop preLen cmdline) else dflt)"
proof -
  have c: "0 < size_diff (length cmdline) preLen \<and> size_diff (length cmdline) preLen \<le> 3 \<longleftrightarrow>
      preLen < length cmdline \<and> length cmdline \<le> preLen + 3"
    using size_diff_between [OF assms, of 3] by simp
  have "unat (size_diff (length cmdline) preLen) = length cmdline - preLen" if "preLen < length cmdline"
    using unat_size_diff [of "length cmdline" preLen] assms that by simp
  then show ?thesis
    unfolding volume_arg_def Let_def c using foldl_nth [of "\<lambda>a c. a * 10 + (of_char c :: int) - 48" cmdline preLen 0]
    by simp
qed

text \<open>
  The volume argument of an audio command: a number of at most three digits after the command and
  one character is read as that number; a line that is no longer than the command and the separator,
  or has more than three characters after it, means the default.
\<close>

lemma volume_arg_correct:
  assumes "length cmdline < 2 ^ 32" and "preLen < 2 ^ 31"
  shows "(\<forall>v < 1000. drop preLen cmdline = dec_digits v \<longrightarrow> volume_arg cmdline preLen dflt = int v) \<and>
    (length cmdline \<le> preLen \<or> preLen + 3 < length cmdline \<longrightarrow> volume_arg cmdline preLen dflt = dflt)"
proof -
  have "volume_arg cmdline preLen dflt = int v" if "v < 1000" "drop preLen cmdline = dec_digits v" for v
  proof -
    have "length (dec_digits v) \<le> 3" using length_dec_digits [of v 3] that(1) by simp
    moreover have "dec_digits v \<noteq> []" by simp
    ultimately have "preLen < length cmdline \<and> length cmdline \<le> preLen + 3"
      using that(2) by (metis drop_all leI le_diff_conv length_drop add.commute)
    with that(2) foldl_dec_digits [of 0 v] show ?thesis by (simp add: volume_arg_eq [OF assms])
  qed
  then show ?thesis by (auto simp: volume_arg_eq [OF assms])
qed

lemma volume_arg_correct_witness:
  "volume_arg ''prod_test pa_mic 85'' 17 70 = 85 \<and> volume_arg ''prod_test pa_mic'' 17 70 = 70"
proof -
  have d: "drop 17 ''prod_test pa_mic 85'' = dec_digits 85" by code_simp
  have 1: "length ''prod_test pa_mic 85'' < 2 ^ 32" and 2: "(17 :: nat) < 2 ^ 31"
    and 3: "length ''prod_test pa_mic'' < 2 ^ 32" and 4: "length ''prod_test pa_mic'' \<le> 17"
    by simp_all
  have 5: "(85 :: nat) < 1000" by simp
  from volume_arg_correct [OF 1 2, of 70] d 5 have "volume_arg ''prod_test pa_mic 85'' 17 70 = int 85" by blast
  moreover from volume_arg_correct [OF 3 2, of 70] 4 have "volume_arg ''prod_test pa_mic'' 17 70 = 70" by blast
  ultimately show ?thesis by simp
qed

section \<open>The header of a recording\<close>

text \<open>
  The two microphone cases share one header pointer, which every such command sets before it looks
  at the \<open>testing\<close> flag.  So a recording in progress is sent under the header of the microphone
  command that came last, even one that was refused, and not under that of the command that
  started it.
\<close>

lemma header_follows_last_command:
  assumes "start_player_recorder_case api type cmdline (m, s, p, w) = Done (r, m1, s1, p1, w1)"
  shows "task_step api m1 (Player_recorder_case, Recording (R_Close h a data)) (s1, p1, w1) =
    Done ((Player_recorder_case,
           Recording (R_Send (if type = 0 then RESULT_PA_MIC_DATA else RESULT_SEAL) a data 0)),
          printf (''data out start'' @ newline) s1, p1, bds_pcm_close api h w1)"
  using assms by (cases rule: start_player_recorder_cases) (simp_all add: task_header_def)

lemma header_follows_last_command_witness:
  "\<exists>m1 s1 p1 w1. task_step mic_api m1 (Player_recorder_case, Recording (R_Close 0 3 [])) (s1, p1, w1) =
     Done ((Player_recorder_case, Recording (R_Send RESULT_PA_MIC_DATA 3 [] 0)),
           printf (''data out start'' @ newline) s1, p1, w1)"
proof -
  obtain m1 s1 p1 w1 where "start_player_recorder_case mic_api 0 CMD_PA_MIC (audio0, sys0, player_up, mem0) =
      Done (0, m1, s1, p1, w1)" using mic_start by blast
  from header_follows_last_command [OF this, of 0 3 "[]"] show ?thesis
    by (simp add: mic_api_def) blast
qed

end
