(* ===== verification/Nolinear_Tasks.thy ===== *)
theory Nolinear_Tasks
  imports Audio_Runs
begin

text \<open>
  The two task functions of main/case/nolinear\_case.c as they are written, each as one sequential
  function with its loop.  They justify the step machines \<open>player_exec\<close> and \<open>recorder_exec\<close> of
  Audio\_Cases, which serve both audio cases: run on their own, the step machines with the constants
  of this case come to the same end.
\<close>

section \<open>The player\<close>

definition NOLINEAR_PLAYER_PCM_SIZE :: int where "NOLINEAR_PLAYER_PCM_SIZE = 1 * 96 * 10000"
definition NOLINEAR_RECORDER_PCM_SIZE :: nat where "NOLINEAR_RECORDER_PCM_SIZE = 3 * 32 * 10000 + 4096"
definition NOLINEAR_PLAYER_FRAME_SIZE :: nat where "NOLINEAR_PLAYER_FRAME_SIZE = 1024"

text \<open>The sound file is \<open>wav\<close>; \<open>buffer\<close> is an offset into it.\<close>

function nolinear_player_loop ::
  "'w board \<Rightarrow> u8 list \<Rightarrow> int \<Rightarrow> nat \<Rightarrow> sys \<times> player \<times> 'w \<Rightarrow> (sys \<times> player \<times> 'w) run" where
  "nolinear_player_loop b wav pcm_length buffer st =
     (if buffer + NOLINEAR_PLAYER_FRAME_SIZE > length wav then Crash Out_of_bounds
      else
        case duer_audio_dac_write b 0 (take NOLINEAR_PLAYER_FRAME_SIZE (drop buffer wav))
               NOLINEAR_PLAYER_FRAME_SIZE st of
          Done (ret, s, p, w) \<Rightarrow>
            if ret < 0 then Done (out_print_result RESULT_NOLINEAR FAILED ''write dac fail!'' s, p, w)
            else
              (if pcm_length + int NOLINEAR_PLAYER_FRAME_SIZE > NOLINEAR_PLAYER_PCM_SIZE \<or>
                  buffer + NOLINEAR_PLAYER_FRAME_SIZE > length wav
               then Done (s, p, w)
               else nolinear_player_loop b wav (pcm_length + int NOLINEAR_PLAYER_FRAME_SIZE)
                      (buffer + NOLINEAR_PLAYER_FRAME_SIZE) (vTaskDelay (2 div portTICK_PERIOD_MS) s, p, w))
        | Crash c \<Rightarrow> Crash c | Hang \<Rightarrow> Hang | Restart (ret, st) \<Rightarrow> Restart st)"
  by pat_completeness auto
termination
  by (relation "measure (\<lambda>(b, wav, n, buffer, st). length wav - buffer)")
     (auto simp: NOLINEAR_PLAYER_FRAME_SIZE_def)

declare nolinear_player_loop.simps [simp del]

definition nolinear_player_exec :: "'w board \<Rightarrow> u8 list \<Rightarrow> sys \<times> player \<times> 'w \<Rightarrow> (sys \<times> player \<times> 'w) run" where
  "nolinear_player_exec b wav st =
     (let (ret, s, p, w) = duer_audio_dac_start_play 0 1 48000 16 st
      in if ret \<noteq> 0 then Done (out_print_result RESULT_NOLINEAR FAILED ''init dac fail!'' s, p, w)
         else case nolinear_player_loop b wav 0 0 (s, p, w) of
                Done st \<Rightarrow>
                  let (ret, s, p, w) = duer_audio_dac_wait_play_end b st;
                      (_, s, p, w) = duer_audio_dac_unload_driver b (s, p, w)
                  in Done (s, p, w)
              | Crash c \<Rightarrow> Crash c | Hang \<Rightarrow> Hang | Restart st \<Rightarrow> Restart st)"

section \<open>The recorder\<close>

text \<open>
  The loop need not end: a recorder that reports no bytes keeps it going.  The result is the
  recording with the state behind the loop.
\<close>

partial_function (option) nolinear_recorder_loop ::
  "'w audio_api \<Rightarrow> nat \<Rightarrow> int \<Rightarrow> u8 list \<Rightarrow> int \<Rightarrow> sys \<Rightarrow> 'w \<Rightarrow> (u8 list \<times> sys \<times> 'w) run option" where
  "nolinear_recorder_loop api h mini_buffer_size out_buffer pcm_length s w =
     (if pcm_length + mini_buffer_size > int NOLINEAR_RECORDER_PCM_SIZE then Some (Done (out_buffer, s, w))
      else
        case bds_pcm_read api h w of ((ret, bs, out_length), w) \<Rightarrow>
          (case store_bytes out_buffer pcm_length bs of
             None \<Rightarrow> Some (Crash Out_of_bounds)
           | Some out_buffer \<Rightarrow>
               if ret < 0
               then Some (Done (out_buffer, out_print_result RESULT_NOLINEAR FAILED ''mic read error'' s, w))
               else if pcm_length + out_length \<ge> int NOLINEAR_RECORDER_PCM_SIZE then Some (Done (out_buffer, s, w))
               else nolinear_recorder_loop api h mini_buffer_size out_buffer (pcm_length + out_length)
                      (vTaskDelay (2 div portTICK_PERIOD_MS) s) w))"

definition nolinear_recorder_exec :: "'w audio_api \<Rightarrow> sys \<times> 'w \<Rightarrow> (sys \<times> 'w) run option" where
  "nolinear_recorder_exec api = (\<lambda>(s, w).
     let recorder_pam = \<lparr>pcm_channel = 3, pcm_sample = 16000, pcm_bitrate = 16\<rparr>;
         ((handle, mini_buffer_size), w) = bds_pcm_open api recorder_pam w
     in case handle of
          None \<Rightarrow> Some (Done (out_print_result RESULT_NOLINEAR FAILED ''bds pcm reader open fail'' s, w))
        | Some h \<Rightarrow>
            let (out_buffer, s) = io_malloc s
            in (case out_buffer of
                  None \<Rightarrow> Some (Done (out_print_result RESULT_NOLINEAR FAILED ''malloc fail'' s, w))
                | Some a \<Rightarrow>
                    (case nolinear_recorder_loop api h mini_buffer_size
                            (fresh_block (heap s) a NOLINEAR_RECORDER_PCM_SIZE) 0 s w of
                       None \<Rightarrow> None
                     | Some (Done (data, s, w)) \<Rightarrow>
                         let w = bds_pcm_close api h w;
                             s = data_out_exec RESULT_NOLINEAR data s;
                             s = io_free (Some a) s
                         in Some (Done (out_print_data_ctl RESULT_NOLINEAR s, w))
                     | Some (Crash c) \<Rightarrow> Some (Crash c) | Some Hang \<Rightarrow> Some Hang
                     | Some (Restart (data, s, w)) \<Rightarrow> Some (Restart (s, w)))))"

section \<open>The step machines do the same\<close>

lemma nolinear_sizes:
  "NOLINEAR_PLAYER_PCM_SIZE = PLAYER_PCM_SIZE Nolinear_case"
  "NOLINEAR_RECORDER_PCM_SIZE = RECORDER_PCM_SIZE Nolinear_case"
  "NOLINEAR_PLAYER_FRAME_SIZE = PLAYER_FRAME_SIZE"
  by (simp_all add: NOLINEAR_PLAYER_PCM_SIZE_def NOLINEAR_RECORDER_PCM_SIZE_def
      NOLINEAR_PLAYER_FRAME_SIZE_def PLAYER_FRAME_SIZE_def)

lemma player_run_next:
  "player_exec api k hdr pc st = Done (pc', st') \<Longrightarrow> pc \<noteq> P_End \<Longrightarrow>
     player_run api k hdr (Suc n) pc st = player_run api k hdr n pc' st'"
  by simp

lemma not_end:
  "P_Start \<noteq> P_End" "P_Write n off \<noteq> P_End" "P_Stop \<noteq> P_End" "R_Start \<noteq> R_End" "R_Read h l a data i \<noteq> R_End"
  by simp_all

lemma player_run_end [simp]: "player_run api k hdr n P_End st = Done (P_End, st)"
  by (induction n) simp_all

lemma player_run_add:
  "player_run api k hdr n pc st = Done (pc1, st1) \<Longrightarrow>
     player_run api k hdr (n + l) pc st = player_run api k hdr l pc1 st1"
  by (induction n arbitrary: pc st) (auto split: run.splits if_splits)

lemma recorder_run_add:
  "recorder_run api k hdr n pc st = Done (pc1, st1) \<Longrightarrow>
     recorder_run api k hdr (n + l) pc st = recorder_run api k hdr l pc1 st1"
  by (induction n arbitrary: pc st) (auto split: run.splits if_splits)

text \<open>A player that is the only task.\<close>

definition solo :: "bool \<Rightarrow> player_pc \<Rightarrow> sys \<Rightarrow> player \<Rightarrow> bool" where
  "solo f pc s p \<longleftrightarrow> audio_inv f 0 (audio0\<lparr>tasks := [(Nolinear_case, Playing pc)]\<rparr>, s, p, ())"

lemma solo_step:
  assumes "solo f pc s p" and "wav_ok api"
  shows "\<exists>pc' s' p' w'. player_exec api Nolinear_case hdr pc (s, p, w) = Done (pc', s', p', w') \<and> solo f pc' s' p'"
proof -
  let ?m = "audio0\<lparr>tasks := [(Nolinear_case, Playing pc)]\<rparr>"
  have "audio_inv f 0 (?m, s, p, w)"
    using assms(1) unfolding solo_def by (rule audio_inv_cong) simp_all
  from player_exec_safe [OF this _ _ assms(2), of 0 Nolinear_case pc hdr] obtain pc' s' p' w' where
    1: "player_exec api Nolinear_case hdr pc (s, p, w) = Done (pc', s', p', w')"
    "audio_inv f 0 (?m\<lparr>tasks := (tasks ?m)[0 := (Nolinear_case, Playing pc')]\<rparr>, s', p', w')" by auto
  have "solo f pc' s' p'" unfolding solo_def by (rule audio_inv_cong [OF 1(2)]) simp_all
  with 1(1) show ?thesis by blast
qed

lemma soloD: "solo f pc s p \<Longrightarrow> player_inv s p \<and> h_fault (heap s) = f"
  by (auto simp: solo_def dest: audio_invD)

lemma solo_write: "solo f (P_Write n off) s p \<Longrightarrow> n \<le> PLAYER_PCM_SIZE Nolinear_case"
  using audio_invD(4) [of f 0 "audio0\<lparr>tasks := [(Nolinear_case, Playing (P_Write n off))]\<rparr>" s p "()"]
  by (simp add: solo_def del: PLAYER_PCM_SIZE.simps)

lemma solo_start: "player_inv s p \<Longrightarrow> solo (h_fault (heap s)) P_Start s p"
  by (simp add: solo_def audio_inv.simps blocks_ok_def block_at_def)

text \<open>One pass of the loop is one step of the machine.\<close>

lemma player_pass:
  assumes "player_exec api Nolinear_case RESULT_NOLINEAR (P_Write n off) st = Done (pc, st')"
  obtains "pc = P_Stop" "nolinear_player_loop (aa_board api) (audio_wav api Nolinear_case) n off st = Done st'"
  | "pc = P_Write (n + int PLAYER_FRAME_SIZE) (off + PLAYER_FRAME_SIZE)"
    "nolinear_player_loop (aa_board api) (audio_wav api Nolinear_case) n off st =
       nolinear_player_loop (aa_board api) (audio_wav api Nolinear_case)
         (n + int PLAYER_FRAME_SIZE) (off + PLAYER_FRAME_SIZE) st'"
proof -
  note loop = nolinear_player_loop.simps [of "aa_board api" "audio_wav api Nolinear_case" n off st,
      unfolded nolinear_sizes]
  obtain ret s p w where d: "duer_audio_dac_write (aa_board api) 0
      (take PLAYER_FRAME_SIZE (drop off (audio_wav api Nolinear_case))) PLAYER_FRAME_SIZE st = Done (ret, s, p, w)"
    and off: "\<not> off + PLAYER_FRAME_SIZE > length (audio_wav api Nolinear_case)"
    using assms by (auto split: if_splits run.splits prod.splits)
  note e = assms [unfolded player_exec.simps if_not_P [OF off] d run.case prod.case Let_def]
  note l = loop [unfolded if_not_P [OF off] d run.case prod.case]
  consider "ret < 0" | "0 \<le> ret" "n + int PLAYER_FRAME_SIZE > PLAYER_PCM_SIZE Nolinear_case \<or>
      off + PLAYER_FRAME_SIZE > length (audio_wav api Nolinear_case)"
    | "0 \<le> ret" "\<not> (n + int PLAYER_FRAME_SIZE > PLAYER_PCM_SIZE Nolinear_case \<or>
      off + PLAYER_FRAME_SIZE > length (audio_wav api Nolinear_case))" by linarith
  then show thesis
  proof cases
    case 1 with e l show thesis by (intro that(1)) auto
  next
    case 2 with e l show thesis by (intro that(1)) (auto simp del: PLAYER_PCM_SIZE.simps)
  next
    case 3
    then have r: "\<not> ret < 0" by simp
    from e [unfolded if_not_P [OF r] if_not_P [OF 3(2)]] l [unfolded if_not_P [OF r] if_not_P [OF 3(2)]]
    show thesis by (intro that(2)) simp_all
  qed
qed

lemma player_loop_runs:
  assumes "wav_ok api"
  shows "solo f (P_Write n off) s p \<Longrightarrow> nat (PLAYER_PCM_SIZE Nolinear_case - n) < l \<Longrightarrow>
    \<exists>l' s' p' w'. nolinear_player_loop (aa_board api) (audio_wav api Nolinear_case) n off (s, p, w) = Done (s', p', w') \<and>
      player_run api Nolinear_case RESULT_NOLINEAR l' (P_Write n off) (s, p, w) = Done (P_Stop, s', p', w') \<and>
      solo f P_Stop s' p'"
proof (induction l arbitrary: n off s p w)
  case (Suc l)
  obtain pc s1 p1 w1 where x: "player_exec api Nolinear_case RESULT_NOLINEAR (P_Write n off) (s, p, w) =
      Done (pc, s1, p1, w1)" "solo f pc s1 p1" using solo_step [OF Suc.prems(1) assms] by blast
  note nx = player_run_next [OF x(1) not_end(2)]
  from x(1) show ?case
  proof (cases rule: player_pass)
    case 1
    with x(2) nx [of 0] show ?thesis by (intro exI [of _ "Suc 0"]) auto
  next
    case 2
    let ?n = "n + int PLAYER_FRAME_SIZE" and ?off = "off + PLAYER_FRAME_SIZE"
    have "?n \<le> PLAYER_PCM_SIZE Nolinear_case" by (rule solo_write [OF x(2) [unfolded 2(1)]])
    then have "nat (PLAYER_PCM_SIZE Nolinear_case - ?n) < l"
      using Suc.prems(2) by (simp add: PLAYER_FRAME_SIZE_def)
    from Suc.IH [OF x(2) [unfolded 2(1)] this, of w1] obtain l' s' p' w' where
      "nolinear_player_loop (aa_board api) (audio_wav api Nolinear_case) ?n ?off (s1, p1, w1) = Done (s', p', w')"
      "player_run api Nolinear_case RESULT_NOLINEAR l' (P_Write ?n ?off) (s1, p1, w1) = Done (P_Stop, s', p', w')"
      "solo f P_Stop s' p'" by blast
    with 2 nx [of l'] show ?thesis by metis
  qed
qed simp

text \<open>
  C14. The player task of the nonlinearity case, as it is written, ends, whatever the channel answers;
  it leaves the driver without buffers and the heap without a wrong release.  The step machine of
  Audio\_Cases comes to the same state.
\<close>

theorem nolinear_player_runs:
  assumes "player_inv s p" and "wav_ok api"
  shows "\<exists>n s' p' w'. nolinear_player_exec (aa_board api) (audio_wav api Nolinear_case) (s, p, w) = Done (s', p', w') \<and>
    player_run api Nolinear_case RESULT_NOLINEAR n P_Start (s, p, w) = Done (P_End, s', p', w') \<and>
    player_inv s' p' \<and> output_buf_16 p' = None \<and> output_buf_32 p' = None \<and> h_fault (heap s') = h_fault (heap s)"
proof -
  let ?f = "h_fault (heap s)" and ?h = RESULT_NOLINEAR
  obtain x s1 p1 w1 where st: "duer_audio_dac_start_play 0 1 48000 16 (s, p, w) = (x, s1, p1, w1)"
    by (metis prod_cases4)
  then have x: "x = 0" using start_play_only [OF st] by blast
  have e1: "player_exec api Nolinear_case ?h P_Start (s, p, w) = Done (P_Write 0 0, s1, p1, w1)"
    using st x by simp
  with solo_step [OF solo_start [OF assms(1)] assms(2), of ?h w] have S1: "solo ?f (P_Write 0 0) s1 p1" by simp
  from player_loop_runs [OF assms(2) S1 lessI, of w1] obtain l s2 p2 w2 where
    2: "nolinear_player_loop (aa_board api) (audio_wav api Nolinear_case) 0 0 (s1, p1, w1) = Done (s2, p2, w2)"
    "player_run api Nolinear_case ?h l (P_Write 0 0) (s1, p1, w1) = Done (P_Stop, s2, p2, w2)"
    "solo ?f P_Stop s2 p2" by blast
  obtain r3 s3 p3 w3 where 3: "duer_audio_dac_wait_play_end (aa_board api) (s2, p2, w2) = (r3, s3, p3, w3)"
    by (metis prod_cases4)
  obtain r4 s4 p4 w4 where 4: "duer_audio_dac_unload_driver (aa_board api) (s3, p3, w3) = (r4, s4, p4, w4)"
    by (metis prod_cases4)
  have e4: "player_exec api Nolinear_case ?h P_Stop (s2, p2, w2) = Done (P_End, s4, p4, w4)"
    using 3 4 by simp
  with solo_step [OF 2(3) assms(2), of ?h w2] have "solo ?f P_End s4 p4" by simp
  moreover have "player_inv s3 p3"
    using wait_play_end_only [OF 3] soloD [OF 2(3)] by (auto simp: player_only_def)
  from unload_driver_inv [OF this 4] have "output_buf_16 p4 = None" "output_buf_32 p4 = None" by simp_all
  moreover have "nolinear_player_exec (aa_board api) (audio_wav api Nolinear_case) (s, p, w) = Done (s4, p4, w4)"
    by (simp add: nolinear_player_exec_def st x 2(1) 3 4)
  moreover have "player_run api Nolinear_case ?h (Suc (l + Suc 0)) P_Start (s, p, w) = Done (P_End, s4, p4, w4)"
    unfolding player_run_next [OF e1 not_end(1)] player_run_add [OF 2(2)]
      player_run_next [OF e4 not_end(3)] by simp
  ultimately show ?thesis using soloD by blast
qed

theorem nolinear_player_runs_witness:
  "\<exists>n s' p' w'. nolinear_player_exec sink_board (audio_wav mic_api Nolinear_case) (sys0, player_up, mem0) = Done (s', p', w') \<and>
     player_run mic_api Nolinear_case RESULT_NOLINEAR n P_Start (sys0, player_up, mem0) = Done (P_End, s', p', w') \<and>
     \<not> h_fault (heap s')"
proof -
  have "aa_board mic_api = sink_board" by (simp add: mic_api_def)
  with nolinear_player_runs [OF player_up_inv mic_api_ok(2), of mem0] show ?thesis
    unfolding sys0_simps(5) by metis
qed

text \<open>The recorder: one pass of its loop is one step of the machine.\<close>

lemma recorder_loop_runs:
  assumes doc: "pcm_documented api fsz" and prog: "pcm_progress api"
  shows "length data = RECORDER_PCM_SIZE Nolinear_case \<Longrightarrow> 0 \<le> n \<Longrightarrow>
    nat (int (RECORDER_PCM_SIZE Nolinear_case) - n) < l \<Longrightarrow>
    \<exists>l' data' s' w'. nolinear_recorder_loop api h fsz data n s w = Some (Done (data', s', w')) \<and>
      recorder_run api Nolinear_case RESULT_NOLINEAR l' (R_Read h fsz a data n) (s, w) =
        Done (R_Close h a data', s', w') \<and>
      length data' = RECORDER_PCM_SIZE Nolinear_case \<and> heap s' = heap s"
proof (induction l arbitrary: data n s w)
  case (Suc l)
  let ?N = "int (RECORDER_PCM_SIZE Nolinear_case)" and ?h = RESULT_NOLINEAR
  note loop = nolinear_recorder_loop.simps [of api h fsz data n s w, unfolded nolinear_sizes]
  note nx = run_next [OF _ not_end(5)]
  obtain ret bs ol w1 where rd: "bds_pcm_read api h w = ((ret, bs, ol), w1)"
    by (cases "bds_pcm_read api h w") auto
  note docs = pcm_documentedD(2) [OF doc rd]
  show ?case
  proof (cases "n + fsz > ?N")
    case True
    then have "recorder_exec api Nolinear_case ?h (R_Read h fsz a data n) (s, w) = Done (R_Close h a data, s, w)" by simp
    from nx [OF this, of 0] True Suc.prems(1) loop show ?thesis by (intro exI [of _ "Suc 0"]) auto
  next
    case False
    with docs Suc.prems(1,2) obtain data1 where st: "store_bytes data n bs = Some data1"
      using store_bytes_fits [of n bs data] by auto
    have len: "length data1 = RECORDER_PCM_SIZE Nolinear_case" using store_bytes_length [OF st] Suc.prems(1) by simp
    consider "ret < 0" | "0 \<le> ret" "n + ol \<ge> ?N" | "0 \<le> ret" "\<not> n + ol \<ge> ?N" by linarith
    then show ?thesis
    proof cases
      case 1
      let ?s = "out_print_result ?h FAILED ''mic read error'' s"
      have "recorder_exec api Nolinear_case ?h (R_Read h fsz a data n) (s, w) = Done (R_Close h a data1, ?s, w1)"
        using False rd st 1 by simp
      from nx [OF this, of 0] False rd st 1 len loop show ?thesis
        by (intro exI [of _ "Suc 0"]) (auto simp: io_simps)
    next
      case 2
      then have "recorder_exec api Nolinear_case ?h (R_Read h fsz a data n) (s, w) = Done (R_Close h a data1, s, w1)"
        using False rd st by simp
      from nx [OF this, of 0] False rd st 2 len loop show ?thesis by (intro exI [of _ "Suc 0"]) auto
    next
      case 3
      then have x: "recorder_exec api Nolinear_case ?h (R_Read h fsz a data n) (s, w) =
          Done (R_Read h fsz a data1 (n + ol), vTaskDelay 2 s, w1)" using False rd st by simp
      have "0 < ol" using prog rd 3(1) unfolding pcm_progress_def by blast
      with 3(2) Suc.prems(2,3) have "0 \<le> n + ol" "nat (?N - (n + ol)) < l" by linarith+
      from Suc.IH [OF len this, of "vTaskDelay 2 s" w1] obtain l' data' s' w' where
        "nolinear_recorder_loop api h fsz data1 (n + ol) (vTaskDelay 2 s) w1 = Some (Done (data', s', w'))"
        "recorder_run api Nolinear_case ?h l' (R_Read h fsz a data1 (n + ol)) (vTaskDelay 2 s, w1) =
          Done (R_Close h a data', s', w')"
        "length data' = RECORDER_PCM_SIZE Nolinear_case" "heap s' = heap s" by (auto simp: io_simps)
      with nx [OF x, of l'] False rd st 3 loop show ?thesis by (intro exI [of _ "Suc l'"] exI) auto
    qed
  qed
qed simp

text \<open>
  C15. The recorder task of the nonlinearity case, as it is written, ends when the recorder keeps to its
  frame size and makes progress, on every path: no recorder, no memory, a read error, a full
  recording.  It releases what it allocated, and the step machine of Audio\_Cases comes to the same
  state.
\<close>

theorem nolinear_recorder_runs:
  assumes "pcm_documented api fsz" and "pcm_progress api" and "heap_wf (heap s)"
  shows "\<exists>n s' w'. nolinear_recorder_exec api (s, w) = Some (Done (s', w')) \<and>
    recorder_run api Nolinear_case RESULT_NOLINEAR n R_Start (s, w) = Done (R_End, s', w') \<and>
    h_live (heap s') = h_live (heap s) \<and> h_fault (heap s') = h_fault (heap s)"
proof -
  let ?h = RESULT_NOLINEAR
  obtain q mini w1 where o: "bds_pcm_open api \<lparr>pcm_channel = 3, pcm_sample = 16000, pcm_bitrate = 16\<rparr> w = ((q, mini), w1)"
    by (cases "bds_pcm_open api \<lparr>pcm_channel = 3, pcm_sample = 16000, pcm_bitrate = 16\<rparr> w") auto
  obtain b hp where m: "malloc (heap s) = (b, hp)" by (cases "malloc (heap s)")
  then have io: "io_malloc s = (b, s\<lparr>heap := hp\<rparr>)" by (simp add: io_malloc_def)
  note nx = run_next [OF _ not_end(4)]
  consider "q = None" | h where "q = Some h" "b = None" | h a where "q = Some h" "b = Some a" by (cases q; cases b) auto
  then show ?thesis
  proof cases
    case 1
    with o show ?thesis
      by (intro exI [of _ "Suc 0"]) (simp add: nolinear_recorder_exec_def recorder_pam_def io_simps)
  next
    case 2
    with o io m hp.alloc_none hp.alloc_fault show ?thesis
      by (intro exI [of _ "Suc 0"]) (simp add: nolinear_recorder_exec_def recorder_pam_def io_simps)
  next
    case 3
    then have mini: "mini = fsz" using pcm_documentedD(1) [OF assms(1)] o by metis
    let ?d = "fresh_block hp a (RECORDER_PCM_SIZE Nolinear_case)" and ?s = "s\<lparr>heap := hp\<rparr>"
    have x: "recorder_exec api Nolinear_case ?h R_Start (s, w) = Done (R_Read h fsz a ?d 0, ?s, w1)"
      using o io 3 by (simp add: mini recorder_pam_def)
    have "length ?d = RECORDER_PCM_SIZE Nolinear_case" "(0 :: int) \<le> 0" by (simp_all add: length_fresh_block)
    from recorder_loop_runs [OF assms(1,2) this lessI, of h ?s w1 a] obtain l data s2 w2 where
      2: "nolinear_recorder_loop api h fsz ?d 0 ?s w1 = Some (Done (data, s2, w2))"
      "recorder_run api Nolinear_case ?h l (R_Read h fsz a ?d 0) (?s, w1) = Done (R_Close h a data, s2, w2)"
      "heap s2 = hp" by auto
    let ?r = "out_print_data_ctl ?h (io_free (Some a) (data_out_exec ?h data s2))"
    have "nolinear_recorder_exec api (s, w) = Some (Done (?r, bds_pcm_close api h w2))"
      using o io 3 2(1) by (simp add: nolinear_recorder_exec_def mini nolinear_sizes)
    moreover have "recorder_run api Nolinear_case ?h (Suc (l + (length data + 3))) R_Start (s, w) =
        Done (R_End, ?r, bds_pcm_close api h w2)"
      unfolding nx [OF x] recorder_run_add [OF 2(2)] by (rule close_run) simp
    moreover have "h_live (heap ?r) = h_live (heap s) \<and> h_fault (heap ?r) = h_fault (heap s)"
    proof -
      note m' = m [unfolded 3(2)]
      have wf: "heap_wf (heap s2)" using hp.alloc_wf [OF assms(3) m'] 2(3) by simp
      note dl = data_out_exec_no_leak [OF wf, of ?h data]
      have a: "a \<in> h_live (heap (data_out_exec ?h data s2))" using dl hp.alloc_live [OF m'] 2(3) by simp
      from hp.free_live [OF a] hp.free_fault [OF a] dl hp.alloc_live [OF m'] hp.alloc_fault [OF m']
        hp.alloc_fresh [OF assms(3) m'] 2(3) show ?thesis
        by (simp add: out_print_data_ctl_def io_simps free_opt_def)
    qed
    ultimately show ?thesis by blast
  qed
qed

theorem nolinear_recorder_runs_witness:
  "\<exists>n s' w'. nolinear_recorder_exec mic_api (sys0, mem0) = Some (Done (s', w')) \<and>
     recorder_run mic_api Nolinear_case RESULT_NOLINEAR n R_Start (sys0, mem0) = Done (R_End, s', w') \<and>
     h_live (heap s') = {}"
proof -
  have "pcm_progress mic_api" by (simp add: pcm_progress_def mic_api_def)
  from nolinear_recorder_runs [OF mic_api_ok(1) this sys0_simps(2), of mem0] show ?thesis
    unfolding sys0_simps(4) by blast
qed

end
