(* ===== verification/Audio_Race.thy ===== *)
theory Audio_Race
  imports Audio_Runs
begin

text \<open>
  The player task at the granularity of its accesses to the two buffers of the audio driver, which
  all player tasks share.  \<open>player_exec\<close> of Audio\_Cases runs a whole write and the whole of the unloading
  in one step; here another task may run in between.  So these definitions show what the driver
  does not do: it takes no lock, and nothing keeps two audio commands from starting two player tasks.

  The theory has three results: undisturbed, the small steps add up to those of \<open>player_exec\<close>; two
  accepted commands have a schedule that ends in the use of a released buffer; and if no audio
  command is accepted before the player of the last one has ended, every schedule is safe.
\<close>

section \<open>The steps of the player\<close>

text \<open>
  \<open>n\<close> and \<open>off\<close> are the locals \<open>pcm_length\<close> and the offset of \<open>buffer\<close>; \<open>q\<close> is a pointer that has been read
  and is about to be used: the argument of the converter in \<open>F_Convert\<close>, that of the channel in \<open>F_Send\<close>.
\<close>

datatype fine_pc =
    F_Start
  | F_Check int nat
  | F_Call int nat
  | F_Convert int nat "nat option"
  | F_Spread int nat nat nat
  | F_Send int nat nat "nat option"
  | F_Wait
  | F_Free16
  | F_Clear16
  | F_Free32
  | F_Clear32
  | F_Uninit
  | F_End

text \<open>What an access through a pointer does when the block is not there.\<close>

definition bad_pointer :: "nat option \<Rightarrow> 'a io_scheme \<Rightarrow> crash option" where
  "bad_pointer q s =
     (case q of None \<Rightarrow> Some Null_deref
      | Some a \<Rightarrow> if a \<in> h_live (heap s) then None else Some Use_after_free)"

text \<open>The code of the loop behind a write that returned \<open>ret\<close>.\<close>

definition after_write ::
  "'w audio_api \<Rightarrow> audio_kind \<Rightarrow> string \<Rightarrow> int \<Rightarrow> nat \<Rightarrow> int \<Rightarrow> sys \<Rightarrow> fine_pc \<times> sys" where
  "after_write api k hdr pcm_length offset ret s =
     (if ret < 0 then (F_Wait, out_print_result hdr FAILED (write_fail_text k) s)
      else
        let pcm_length = pcm_length + int PLAYER_FRAME_SIZE;
            offset = offset + PLAYER_FRAME_SIZE
        in if pcm_length > PLAYER_PCM_SIZE k \<or> offset > length (audio_wav api k) then (F_Wait, s)
           else (F_Check pcm_length offset, vTaskDelay (2 div portTICK_PERIOD_MS) s))"

text \<open>
  The steps of \<open>duer_audio_dac_write\<close>, called with the frame at \<open>off\<close>.  A block number is never used again,
  so a live \<open>q\<close> is the block that \<open>output_buf_16\<close> still points to.  A conversion that produces nothing
  does not use the pointer, and neither does a write of nothing.
\<close>

fun fine_write ::
  "'w audio_api \<Rightarrow> audio_kind \<Rightarrow> string \<Rightarrow> fine_pc \<Rightarrow> sys \<times> player \<times> 'w \<Rightarrow>
     (fine_pc \<times> sys \<times> player \<times> 'w) run" where
  "fine_write api k hdr (F_Check n off) (s, p, w) =
     (if output_buf_16 p = None \<or> output_buf_32 p = None
      then let (pc, s) = after_write api k hdr n off 0
                           (printf (''faild to init buffer for codec write'' @ newline) s)
           in Done (pc, s, p, w)
      else if s_channel p \<noteq> 1 \<and> s_channel p \<noteq> 2
      then let (pc, s) = after_write api k hdr n off 0
                           (printf (''unsupport channel '' @ show_d (s_channel p)) s)
           in Done (pc, s, p, w)
      else Done (F_Call n off, s, p, w))"
| "fine_write api k hdr (F_Call n off) (s, p, w) = Done (F_Convert n off (output_buf_16 p), s, p, w)"
| "fine_write api k hdr (F_Convert n off q) (s, p, w) =
     (if s_channel p \<noteq> 1 \<and> s_channel p \<noteq> 2 then Done (F_Spread n off 0 0, s, p, w)
      else if off + PLAYER_FRAME_SIZE > length (audio_wav api k) then Crash Out_of_bounds
      else
        case dac_convert (take PLAYER_FRAME_SIZE (drop off (audio_wav api k))) PLAYER_FRAME_SIZE p of
          None \<Rightarrow> Crash Out_of_bounds
        | Some (msgs, output_size, b16, rs) \<Rightarrow>
            (case bad_pointer q s of
               Some c \<Rightarrow>
                 if output_size \<noteq> 0 then Crash c
                 else Done (F_Spread n off 0 0, fold printf msgs s, p\<lparr>s_resample := rs\<rparr>, w)
             | None \<Rightarrow>
                 Done (F_Spread n off 0 output_size, fold printf msgs s,
                       p\<lparr>buf_16 := b16, s_resample := rs\<rparr>, w)))"
| "fine_write api k hdr (F_Spread n off i output_size) (s, p, w) =
     (if i < output_size
      then
        case (bad_pointer (output_buf_16 p) s, bad_pointer (output_buf_32 p) s) of
          (Some c, _) \<Rightarrow> Crash c
        | (None, Some c) \<Rightarrow> Crash c
        | (None, None) \<Rightarrow>
            if i < length (buf_16 p) \<and> 2 * i + 1 < length (buf_32 p)
            then Done (F_Spread n off (i + 1) output_size, s,
                       p\<lparr>buf_32 := (buf_32 p)[2 * i + 1 := buf_16 p ! i]\<rparr>, w)
            else Crash Out_of_bounds
      else Done (F_Send n off output_size (output_buf_32 p), s, p, w))"
| "fine_write api k hdr (F_Send n off output_size q) (s, p, w) =
     (case bad_pointer q s of
        Some c \<Rightarrow>
          if output_size \<noteq> 0 then Crash c
          else let (ret, w) = SPIL_OUTPUT_write_data (aa_board api) [] w;
                   (pc, s) = after_write api k hdr n off ret s
               in Done (pc, s, p, w)
      | None \<Rightarrow>
          let (ret, w) = SPIL_OUTPUT_write_data (aa_board api)
                           (bytes_of_shorts (take (output_size * 2) (buf_32 p))) w;
              (pc, s) = after_write api k hdr n off ret s
          in Done (pc, s, p, w))"
| "fine_write api k hdr pc st = Done (pc, st)"

text \<open>The steps of \<open>duer_audio_dac_unload_driver\<close>.\<close>

fun fine_unload ::
  "'w audio_api \<Rightarrow> fine_pc \<Rightarrow> sys \<times> player \<times> 'w \<Rightarrow> (fine_pc \<times> sys \<times> player \<times> 'w) run" where
  "fine_unload api F_Free16 (s, p, w) =
     (if output_buf_16 p \<noteq> None then Done (F_Clear16, io_free (output_buf_16 p) s, p, w)
      else Done (F_Free32, s, p, w))"
| "fine_unload api F_Clear16 (s, p, w) = Done (F_Free32, s, p\<lparr>output_buf_16 := None\<rparr>, w)"
| "fine_unload api F_Free32 (s, p, w) =
     (if output_buf_32 p \<noteq> None then Done (F_Clear32, io_free (output_buf_32 p) s, p, w)
      else Done (F_Uninit, s, p, w))"
| "fine_unload api F_Clear32 (s, p, w) = Done (F_Uninit, s, p\<lparr>output_buf_32 := None\<rparr>, w)"
| "fine_unload api F_Uninit (s, p, w) =
     (let (ret, w) = codec_uninit (aa_board api) w;
          s = (if ret \<noteq> 0 then printf (''Failed to unload codec driver'' @ newline) s else s)
      in Done (F_End, s, p\<lparr>s_codec_inited := 0\<rparr>, w))"
| "fine_unload api pc st = Done (pc, st)"

text \<open>The steps of the player task.\<close>

fun fine_exec ::
  "'w audio_api \<Rightarrow> audio_kind \<Rightarrow> string \<Rightarrow> fine_pc \<Rightarrow> sys \<times> player \<times> 'w \<Rightarrow>
     (fine_pc \<times> sys \<times> player \<times> 'w) run" where
  "fine_exec api k hdr F_Start st =
     (let (ret, s, p, w) = duer_audio_dac_start_play 0 1 48000 16 st
      in if ret \<noteq> 0
         then Done (F_End, out_print_result hdr FAILED ''init dac fail!'' s, p, w)
         else Done (F_Check 0 0, s, p, w))"
| "fine_exec api k hdr (F_Check n off) st = fine_write api k hdr (F_Check n off) st"
| "fine_exec api k hdr (F_Call n off) st = fine_write api k hdr (F_Call n off) st"
| "fine_exec api k hdr (F_Convert n off q) st = fine_write api k hdr (F_Convert n off q) st"
| "fine_exec api k hdr (F_Spread n off i output_size) st = fine_write api k hdr (F_Spread n off i output_size) st"
| "fine_exec api k hdr (F_Send n off output_size q) st = fine_write api k hdr (F_Send n off output_size q) st"
| "fine_exec api k hdr F_Wait st =
     (let (_, s, p, w) = duer_audio_dac_wait_play_end (aa_board api) st in Done (F_Free16, s, p, w))"
| "fine_exec api k hdr F_Free16 st = fine_unload api F_Free16 st"
| "fine_exec api k hdr F_Clear16 st = fine_unload api F_Clear16 st"
| "fine_exec api k hdr F_Free32 st = fine_unload api F_Free32 st"
| "fine_exec api k hdr F_Clear32 st = fine_unload api F_Clear32 st"
| "fine_exec api k hdr F_Uninit st = fine_unload api F_Uninit st"
| "fine_exec api k hdr F_End st = Done (F_End, st)"

section \<open>Tasks and commands\<close>

datatype fine_task = FPlay fine_pc | FRec recorder_pc

type_synonym fine_tasks = "(audio_kind \<times> fine_task) list"

text \<open>Where the small steps of a task stand when the task stands at a program counter of Audio\_Cases.\<close>

fun fine_of_pc :: "player_pc \<Rightarrow> fine_pc" where
  "fine_of_pc P_Start = F_Start"
| "fine_of_pc (P_Write n off) = F_Check n off"
| "fine_of_pc P_Stop = F_Wait"
| "fine_of_pc P_End = F_End"

fun fine_of :: "audio_kind \<times> task_pc \<Rightarrow> audio_kind \<times> fine_task" where
  "fine_of (k, Playing pc) = (k, FPlay (fine_of_pc pc))"
| "fine_of (k, Recording pc) = (k, FRec pc)"

fun fine_task_step ::
  "'w audio_api \<Rightarrow> audio \<Rightarrow> audio_kind \<times> fine_task \<Rightarrow> sys \<times> player \<times> 'w \<Rightarrow>
     ((audio_kind \<times> fine_task) \<times> sys \<times> player \<times> 'w) run" where
  "fine_task_step api m (k, FPlay pc) st =
     (case fine_exec api k (task_header k m) pc st of
        Done (pc, st) \<Rightarrow> Done ((k, FPlay pc), st)
      | Crash c \<Rightarrow> Crash c | Hang \<Rightarrow> Hang | Restart (pc, st) \<Rightarrow> Restart ((k, FPlay pc), st))"
| "fine_task_step api m (k, FRec pc) (s, p, w) =
     (case recorder_exec api k (task_header k m) pc (s, w) of
        Done (pc, s, w) \<Rightarrow> Done ((k, FRec pc), s, p, w)
      | Crash c \<Rightarrow> Crash c | Hang \<Rightarrow> Hang | Restart (pc, s, w) \<Rightarrow> Restart ((k, FRec pc), s, p, w))"

text \<open>The two audio commands.\<close>

datatype audio_cmd = Start_Nolinear string | Start_Mic int string

fun start_audio :: "'w audio_api \<Rightarrow> audio_cmd \<Rightarrow> 'w ast \<Rightarrow> (int \<times> 'w ast) run" where
  "start_audio api (Start_Nolinear cmdline) st = start_nolinear_case api cmdline st"
| "start_audio api (Start_Mic type cmdline) st = start_player_recorder_case api type cmdline st"

type_synonym 'w fine_st = "fine_tasks \<times> audio \<times> sys \<times> player \<times> 'w"

text \<open>
  The tasks are kept apart from the record \<open>audio\<close>, whose list of tasks only collects the ones the command
  creates.  \<open>accept\<close> tells when a command may come; in the firmware, always.
\<close>

inductive fine_step :: "'w audio_api \<Rightarrow> (fine_tasks \<Rightarrow> bool) \<Rightarrow> 'w fine_st \<Rightarrow> 'w fine_st \<Rightarrow> bool"
  for api accept where
  fine_run_task: "i < length ts \<Longrightarrow> fine_task_step api m (ts ! i) (s, p, w) = Done (t, s', p', w') \<Longrightarrow>
     fine_step api accept (ts, m, s, p, w) (ts[i := t], m, s', p', w')"
| fine_command: "accept ts \<Longrightarrow>
     start_audio api c (m\<lparr>tasks := []\<rparr>, s, p, w) = Done (r, m', s', p', w') \<Longrightarrow>
     fine_step api accept (ts, m, s, p, w) (ts @ map fine_of (tasks m'), m'\<lparr>tasks := []\<rparr>, s', p', w')"

inductive fine_reach :: "'w audio_api \<Rightarrow> (fine_tasks \<Rightarrow> bool) \<Rightarrow> 'w fine_st \<Rightarrow> 'w fine_st \<Rightarrow> bool"
  for api accept st0 where
  fine_init: "fine_reach api accept st0 st0"
| fine_next: "fine_reach api accept st0 st \<Longrightarrow> fine_step api accept st st' \<Longrightarrow>
     fine_reach api accept st0 st'"

inductive_cases fine_stepE: "fine_step api accept st st'"

text \<open>Running one player alone, \<open>n\<close> steps.\<close>

fun fine_run ::
  "'w audio_api \<Rightarrow> audio_kind \<Rightarrow> string \<Rightarrow> nat \<Rightarrow> fine_pc \<Rightarrow> sys \<times> player \<times> 'w \<Rightarrow>
     (fine_pc \<times> sys \<times> player \<times> 'w) run" where
  "fine_run api k hdr 0 pc st = Done (pc, st)"
| "fine_run api k hdr (Suc n) pc st =
     (case fine_exec api k hdr pc st of
        Done (pc, st) \<Rightarrow> fine_run api k hdr n pc st
      | Crash c \<Rightarrow> Crash c | Hang \<Rightarrow> Hang | Restart x \<Rightarrow> Restart x)"

lemma fine_run_add:
  "fine_run api k hdr n pc st = Done (pc1, st1) \<Longrightarrow>
     fine_run api k hdr (n + l) pc st = fine_run api k hdr l pc1 st1"
  by (induction n arbitrary: pc st) (auto split: run.splits)

lemma fine_run_reach:
  "fine_run api k (task_header k m) n pc st = Done (pc', st') \<Longrightarrow> i < length ts \<Longrightarrow> ts ! i = (k, FPlay pc) \<Longrightarrow>
     fine_reach api accept st0 (ts, m, st) \<Longrightarrow> fine_reach api accept st0 (ts[i := (k, FPlay pc')], m, st')"
proof (induction n arbitrary: pc st ts)
  case 0
  then show ?case using list_update_id [of ts i] by simp
next
  case (Suc n)
  obtain pc1 st1 where x: "fine_exec api k (task_header k m) pc st = Done (pc1, st1)"
    "fine_run api k (task_header k m) n pc1 st1 = Done (pc', st')"
    using Suc.prems(1) by (auto split: run.splits)
  obtain s p w s1 p1 w1 where st: "st = (s, p, w)" "st1 = (s1, p1, w1)" by (metis prod_cases3)
  have "fine_task_step api m (ts ! i) (s, p, w) = Done ((k, FPlay pc1), s1, p1, w1)"
    using x(1) Suc.prems(3) st by simp
  from fine_next [OF Suc.prems(4) [unfolded st] fine_run_task [OF Suc.prems(2) this]]
  have "fine_reach api accept st0 (ts[i := (k, FPlay pc1)], m, st1)" by (simp add: st)
  from Suc.IH [OF x(2) _ _ this] Suc.prems(2) show ?case by simp
qed

section \<open>Undisturbed steps\<close>

lemma fine_run_step:
  "fine_exec api k hdr pc st = Done (pc1, st1) \<Longrightarrow> fine_run api k hdr l pc1 st1 = Done r \<Longrightarrow>
     fine_run api k hdr (Suc l) pc st = Done r"
  by simp

lemma heap_printfs [simp]: "heap (fold printf ms s) = heap s"
  by (induction ms arbitrary: s) (simp_all add: io_simps)

lemma bad_pointer_heap: "heap s' = heap s \<Longrightarrow> bad_pointer q s' = bad_pointer q s"
  by (simp add: bad_pointer_def split: option.splits)

lemma bad_pointer_inv:
  "player_inv s p \<Longrightarrow> output_buf_16 p \<noteq> None \<Longrightarrow> bad_pointer (output_buf_16 p) s = None"
  "player_inv s p \<Longrightarrow> output_buf_32 p \<noteq> None \<Longrightarrow> bad_pointer (output_buf_32 p) s = None"
  by (auto simp: bad_pointer_def player_inv_def)

lemma spread_run:
  "spread_loop (buf_16 p) i l (buf_32 p) = Some b32 \<Longrightarrow>
     bad_pointer (output_buf_16 p) s = None \<Longrightarrow> bad_pointer (output_buf_32 p) s = None \<Longrightarrow>
     fine_run api k hdr l (F_Spread n off i (i + l)) (s, p, w) =
       Done (F_Spread n off (i + l) (i + l), s, p\<lparr>buf_32 := b32\<rparr>, w)"
proof (induction l arbitrary: i p)
  case (Suc l)
  let ?p = "p\<lparr>buf_32 := (buf_32 p)[2 * i + 1 := buf_16 p ! i]\<rparr>"
  have i: "i < length (buf_16 p)" "2 * i + 1 < length (buf_32 p)"
    and sp: "spread_loop (buf_16 ?p) (i + 1) l (buf_32 ?p) = Some b32"
    using Suc.prems(1) by (simp_all split: if_splits)
  have "fine_exec api k hdr (F_Spread n off i (i + Suc l)) (s, p, w) =
      Done (F_Spread n off (i + 1) (i + 1 + l), s, ?p, w)"
    using i Suc.prems(2,3) by simp
  from fine_run_step [OF this Suc.IH [OF sp]] Suc.prems(2,3) show ?case by simp
qed simp

text \<open>A whole write.\<close>

lemma write_run:
  assumes inv: "player_inv s p" and off: "off + PLAYER_FRAME_SIZE \<le> length (audio_wav api k)"
    and d: "duer_audio_dac_write (aa_board api) 0
        (take PLAYER_FRAME_SIZE (drop off (audio_wav api k))) PLAYER_FRAME_SIZE (s, p, w) = Done (ret, s', p', w')"
    and a: "after_write api k hdr n off ret s' = (pc, s'')"
  shows "\<exists>l. fine_run api k hdr l (F_Check n off) (s, p, w) = Done (pc, s'', p', w')"
proof -
  let ?b = "take PLAYER_FRAME_SIZE (drop off (audio_wav api k))"
  consider "output_buf_16 p = None \<or> output_buf_32 p = None"
    | "output_buf_16 p \<noteq> None" "output_buf_32 p \<noteq> None" "s_channel p \<noteq> 1 \<and> s_channel p \<noteq> 2"
    | "output_buf_16 p \<noteq> None" "output_buf_32 p \<noteq> None" "s_channel p = 1 \<or> s_channel p = 2" by blast
  then show ?thesis
  proof cases
    case 3
    then have ch: "\<not> (s_channel p \<noteq> 1 \<and> s_channel p \<noteq> 2)"
      and bufs: "\<not> (output_buf_16 p = None \<or> output_buf_32 p = None)" by auto
    obtain msgs m b16 rs b32 where c: "dac_convert ?b PLAYER_FRAME_SIZE p = Some (msgs, m, b16, rs)"
      and sp: "spread_loop b16 0 m (buf_32 p) = Some b32"
      using d bufs ch by (auto simp: duer_audio_dac_write_def Let_def split: option.splits)
    let ?s = "fold printf msgs s" and ?p1 = "p\<lparr>buf_16 := b16, s_resample := rs\<rparr>"
    let ?p2 = "?p1\<lparr>buf_32 := b32\<rparr>"
    note e = dac_write_eq [OF c sp 3(3,1,2), of "aa_board api" 0 s w, unfolded d]
    obtain r wr where wr: "i2s_write_bytes (b_i2s (aa_board api)) 0 (bytes_of_shorts (take (2 * m) b32)) w = (r, wr)"
      by (cases "i2s_write_bytes (b_i2s (aa_board api)) 0 (bytes_of_shorts (take (2 * m) b32)) w")
    have eqs: "ret = r" "s' = ?s" "p' = ?p2" "w' = wr" using e unfolding wr by (simp_all add: Let_def)
    have g: "bad_pointer (output_buf_16 p) t = None" "bad_pointer (output_buf_32 p) t = None"
      if "heap t = heap s" for t :: sys
      using bad_pointer_inv [OF inv] 3(1,2) bad_pointer_heap [OF that] by simp_all
    have 1: "fine_exec api k hdr (F_Check n off) (s, p, w) = Done (F_Call n off, s, p, w)"
      by (simp only: fine_exec.simps fine_write.simps if_not_P [OF bufs] if_not_P [OF ch])
    have 2: "fine_exec api k hdr (F_Call n off) (s, p, w) = Done (F_Convert n off (output_buf_16 p), s, p, w)"
      by simp
    have 3: "fine_exec api k hdr (F_Convert n off (output_buf_16 p)) (s, p, w) =
        Done (F_Spread n off 0 (0 + m), ?s, ?p1, w)"
      unfolding fine_exec.simps fine_write.simps if_not_P [OF ch] c using off g(1) [of s] by simp
    have 4: "fine_run api k hdr m (F_Spread n off 0 (0 + m)) (?s, ?p1, w) =
        Done (F_Spread n off m m, ?s, ?p2, w)"
      using spread_run [of ?p1 0 m b32 ?s] sp g [of ?s] by simp
    have 5: "fine_exec api k hdr (F_Spread n off m m) (?s, ?p2, w) =
        Done (F_Send n off m (output_buf_32 p), ?s, ?p2, w)" by simp
    have 6: "fine_exec api k hdr (F_Send n off m (output_buf_32 p)) (?s, ?p2, w) = Done (pc, s'', p', w')"
      using g(2) [of ?s] a wr by (simp add: eqs SPIL_OUTPUT_write_data_def mult.commute)
    have 7: "fine_run api k hdr (Suc (Suc 0)) (F_Spread n off m m) (?s, ?p2, w) = Done (pc, s'', p', w')"
      by (rule fine_run_step [OF 5 fine_run_step [OF 6]]) simp
    have "fine_run api k hdr (m + Suc (Suc 0)) (F_Spread n off 0 (0 + m)) (?s, ?p1, w) = Done (pc, s'', p', w')"
      unfolding fine_run_add [OF 4] by (rule 7)
    from fine_run_step [OF 1 fine_run_step [OF 2 fine_run_step [OF 3 this]]] show ?thesis by blast
  qed (use d a in \<open>intro exI [of _ "Suc 0"], auto simp: duer_audio_dac_write_def\<close>)+
qed

text \<open>One step of the player task, as small steps.\<close>

lemma player_steps_refine_any:
  assumes "player_inv s p" and "player_exec api k hdr pc (s, p, w) = Done (pc', s', p', w')"
  shows "\<exists>n. fine_run api k hdr n (fine_of_pc pc) (s, p, w) = Done (fine_of_pc pc', s', p', w')"
proof (cases pc)
  case P_Start
  with assms(2) show ?thesis
    by (intro exI [of _ "Suc 0"]) (auto simp: Let_def split: prod.splits if_splits)
next
  case (P_Write n off)
  let ?b = "take PLAYER_FRAME_SIZE (drop off (audio_wav api k))"
  have off: "off + PLAYER_FRAME_SIZE \<le> length (audio_wav api k)"
    using assms(2) P_Write by (auto split: if_splits)
  obtain ret s1 p1 w1 where d: "duer_audio_dac_write (aa_board api) 0 ?b PLAYER_FRAME_SIZE (s, p, w) =
      Done (ret, s1, p1, w1)"
    using assms(2) P_Write off by (auto split: run.splits prod.splits)
  have a: "after_write api k hdr n off ret s1 = (fine_of_pc pc', s')" "p1 = p'" "w1 = w'"
    using assms(2) P_Write off d by (auto simp: after_write_def Let_def split: if_splits)
  from write_run [OF assms(1) off d a(1)] a(2,3) P_Write show ?thesis by simp
next
  case P_Stop
  obtain r1 s1 p1 w1 where w: "duer_audio_dac_wait_play_end (aa_board api) (s, p, w) = (r1, s1, p1, w1)"
    by (metis prod_cases4)
  then have W: "fine_exec api k hdr F_Wait (s, p, w) = Done (F_Free16, s1, p1, w1)" by simp
  have 1: "\<exists>l. fine_run api k hdr l F_Free16 (s1, p1, w1) =
      Done (F_Free32, io_free (output_buf_16 p1) s1, p1\<lparr>output_buf_16 := None\<rparr>, w1)"
  proof (cases "output_buf_16 p1")
    case None
    then have "p1\<lparr>output_buf_16 := None\<rparr> = p1" by simp
    with None show ?thesis by (intro exI [of _ "Suc 0"]) (simp add: io_free_def free_opt_def)
  qed (intro exI [of _ "Suc (Suc 0)"], simp)
  have 2: "\<exists>l. fine_run api k hdr l F_Free32 (s2, p2, w1) =
      Done (F_Uninit, io_free (output_buf_32 p2) s2, p2\<lparr>output_buf_32 := None\<rparr>, w1)" for s2 p2
  proof (cases "output_buf_32 p2")
    case None
    then have "p2\<lparr>output_buf_32 := None\<rparr> = p2" by simp
    with None show ?thesis by (intro exI [of _ "Suc 0"]) (simp add: io_free_def free_opt_def)
  qed (intro exI [of _ "Suc (Suc 0)"], simp)
  let ?s2 = "io_free (output_buf_16 p1) s1" and ?p2 = "p1\<lparr>output_buf_16 := None\<rparr>"
  obtain l1 where l1: "fine_run api k hdr l1 F_Free16 (s1, p1, w1) = Done (F_Free32, ?s2, ?p2, w1)"
    using 1 by blast
  obtain l2 where l2: "fine_run api k hdr l2 F_Free32 (?s2, ?p2, w1) =
      Done (F_Uninit, io_free (output_buf_32 ?p2) ?s2, ?p2\<lparr>output_buf_32 := None\<rparr>, w1)" using 2 by blast
  have "fine_run api k hdr (Suc (l1 + (l2 + Suc 0))) F_Wait (s, p, w) = Done (fine_of_pc pc', s', p', w')"
    unfolding fine_run.simps W run.case prod.case fine_run_add [OF l1] fine_run_add [OF l2]
    using assms(2) w P_Stop by (auto simp: duer_audio_dac_unload_driver_def codec_uninit_def Let_def)
  then show ?thesis unfolding P_Stop fine_of_pc.simps by (rule exI)
next
  case P_End
  with assms(2) show ?thesis by (intro exI [of _ 0]) simp
qed

text \<open>
  C7. The fine-grained player refines the player task of Audio\_Cases: wherever the task stands, a number of
  undisturbed small steps does exactly what its one step does, to the output, the driver's
  variables, the buffers, the heap and the channel.
\<close>

theorem player_steps_refine:
  assumes "player_inv s p" and "player_exec api k hdr pc (s, p, w) = Done (pc', s', p', w')"
  shows "\<exists>n. fine_run api k hdr n (fine_of_pc pc) (s, p, w) = Done (fine_of_pc pc', s', p', w')"
  by (rule player_steps_refine_any [OF assms])

theorem player_steps_refine_witness:
  "\<exists>s p w n pc' st'. output_buf_16 p = Some 0 \<and> output_buf_32 p = Some 1 \<and>
     fine_run mic_api Nolinear_case ''x'' n (F_Check 0 0) (s, p, w) = Done (fine_of_pc pc', st') \<and>
     pc' \<noteq> P_Write 0 0"
proof -
  let ?s = "sys0\<lparr>heap := (heap sys0)\<lparr>h_live := {0, 1}, h_next := 2\<rparr>\<rparr>"
    and ?p = "tiny_player\<lparr>buf_16 := replicate 12288 0, buf_32 := replicate 24576 0\<rparr>"
  have inv: "player_inv ?s ?p"
    by (simp add: player_inv_def tiny_player_def heap_wf_def CODEC_OUTPUT_BUFSIZE_def)
  have st: "s_channel ?p = 1" "s_sample_rate ?p = 48000" by (simp_all add: tiny_player_def player0_def)
  have "0 < sound_frames Nolinear_case" by (simp add: sound_frames_def)
  then obtain s' p' w' pc where x: "player_exec mic_api Nolinear_case ''x'' (write_pc 0) (?s, ?p, mem0) =
      Done (pc, s', p', w')" and pc: "pc = write_pc (Suc 0) \<or> pc = P_Stop"
    by (rule write_step [OF inv st mic_api_ok(2), of 0 Nolinear_case "''x''" mem0]) auto
  from player_steps_refine [OF inv x] obtain n where
    "fine_run mic_api Nolinear_case ''x'' n (F_Check 0 0) (?s, ?p, mem0) = Done (fine_of_pc pc, s', p', w')"
    by (auto simp: write_pc_def)
  moreover have "pc \<noteq> P_Write 0 0" using pc by (auto simp: write_pc_def PLAYER_FRAME_SIZE_def)
  moreover have "output_buf_16 ?p = Some 0" "output_buf_32 ?p = Some 1" by (simp_all add: tiny_player_def)
  ultimately show ?thesis by blast
qed

section \<open>Two players\<close>

lemma dac_convert_frame:
  assumes "length buf = PLAYER_FRAME_SIZE" and "s_channel p = 1" and "s_sample_rate p = 48000"
    and "length (buf_16 p) = CODEC_OUTPUT_BUFSIZE div 2"
  shows "\<exists>b16. dac_convert buf PLAYER_FRAME_SIZE p = Some ([], PLAYER_FRAME_SIZE, b16, s_resample p) \<and>
    length b16 = length (buf_16 p)"
proof -
  have l: "length (shorts_of_bytes buf) = 512" and sz: "(2 :: nat) * 512 \<le> length (buf_16 p)"
    using assms(1,4) by (simp_all add: length_shorts_of_bytes PLAYER_FRAME_SIZE_def CODEC_OUTPUT_BUFSIZE_def)
  from up_channel_eq [OF l sz, of 48000 "s_resample p"] assms(2,3) l sz show ?thesis
    by (simp add: dac_convert_def SPIL_OUTPUT_SAMPLE_RATE_def PLAYER_FRAME_SIZE_def length_double)
qed

text \<open>A player at work: both buffers are there, and the stream is that of the sound files.\<close>

definition playing :: "'a io_scheme \<Rightarrow> player \<Rightarrow> bool" where
  "playing s p \<longleftrightarrow> player_inv s p \<and> output_buf_16 p \<noteq> None \<and> output_buf_32 p \<noteq> None \<and>
     s_channel p = 1 \<and> s_sample_rate p = 48000"

definition playing_on :: "'a io_scheme \<Rightarrow> player \<Rightarrow> 'a io_scheme \<Rightarrow> player \<Rightarrow> bool" where
  "playing_on s p s' p' \<longleftrightarrow> playing s' p' \<and> output_buf_16 p' = output_buf_16 p"

lemma write_keeps:
  assumes pl: "playing s p" and wav: "wav_ok api" and j: "j < sound_frames k"
    and x: "player_exec api k hdr (write_pc j) (s, p, w) = Done (pc, s', p', w')"
  shows "playing_on s p s' p'"
proof -
  note P = pl [unfolded playing_def]
  let ?off = "PLAYER_FRAME_SIZE * j"
  have "int ?off \<le> PLAYER_PCM_SIZE k" using j by (simp add: frame_fits)
  moreover have "PLAYER_PCM_SIZE k + int PLAYER_FRAME_SIZE \<le> int (length (audio_wav api k))"
    using wav by (simp add: wav_ok_def)
  ultimately have off: "?off + PLAYER_FRAME_SIZE \<le> length (audio_wav api k)" by linarith
  let ?b = "take PLAYER_FRAME_SIZE (drop ?off (audio_wav api k))"
  have lb: "length ?b = PLAYER_FRAME_SIZE" using off by simp
  from dac_write_frame [of s p ?b "aa_board api" w] P lb obtain r s1 p1 w1 where
    d: "duer_audio_dac_write (aa_board api) 0 ?b PLAYER_FRAME_SIZE (s, p, w) = Done (r, s1, p1, w1)"
    and o: "player_only s p s1 p1" by blast
  have 1: "player_inv s1 p1" using o P by (simp add: player_only_def)
  from dac_write_same_player [OF _ _ d] P have 2: "output_buf_16 p1 = output_buf_16 p"
    "output_buf_32 p1 = output_buf_32 p" "s_channel p1 = 1" "s_sample_rate p1 = 48000" by auto
  have "p' = p1 \<and> heap s' = heap s1"
    using x off d by (auto simp: write_pc_def Let_def io_simps split: if_splits)
  with 1 2 P show ?thesis by (simp add: playing_on_def playing_def player_inv_def)
qed

text \<open>Alone, a player gets from any frame of its sound to the wait for the end.\<close>

lemma writes_to_wait:
  assumes "wav_ok api"
  shows "playing s p \<Longrightarrow> j < sound_frames k \<Longrightarrow> d = sound_frames k - Suc j \<Longrightarrow>
    \<exists>l s' p' w'. fine_run api k hdr l (fine_of_pc (write_pc j)) (s, p, w) = Done (F_Wait, s', p', w') \<and>
      playing_on s p s' p'"
proof (induction d arbitrary: j s p w)
  case (0 j s p w)
  then have P: "player_inv s p" "s_channel p = 1" "s_sample_rate p = 48000" by (simp_all add: playing_def)
  obtain s' p' w' where x: "player_exec api k hdr (write_pc j) (s, p, w) = Done (P_Stop, s', p', w')"
    by (rule write_step [OF P assms 0(2), of hdr w]) (use 0(2,3) in auto)
  from player_steps_refine_any [OF P(1) x] write_keeps [OF 0(1) assms 0(2) x] show ?case by auto
next
  case (Suc d j s p w)
  then have P: "player_inv s p" "s_channel p = 1" "s_sample_rate p = 48000" by (simp_all add: playing_def)
  obtain s1 p1 w1 pc where x: "player_exec api k hdr (write_pc j) (s, p, w) = Done (pc, s1, p1, w1)"
    and pc: "pc = write_pc (Suc j) \<and> Suc j < sound_frames k \<or> pc = P_Stop"
    by (rule write_step [OF P assms Suc.prems(2), of hdr w]) auto
  note on = write_keeps [OF Suc.prems(1) assms Suc.prems(2) x]
  obtain l where l: "fine_run api k hdr l (fine_of_pc (write_pc j)) (s, p, w) = Done (fine_of_pc pc, s1, p1, w1)"
    using player_steps_refine_any [OF P(1) x] by blast
  from pc show ?case
  proof
    assume a: "pc = write_pc (Suc j) \<and> Suc j < sound_frames k"
    with Suc.prems(3) have "d = sound_frames k - Suc (Suc j)" by simp
    from Suc.IH [OF _ _ this, of s1 p1 w1] on a obtain l2 s' p' w' where
      2: "fine_run api k hdr l2 (fine_of_pc pc) (s1, p1, w1) = Done (F_Wait, s', p', w')" "playing_on s1 p1 s' p'"
      unfolding playing_on_def by blast
    have "fine_run api k hdr (l + l2) (fine_of_pc (write_pc j)) (s, p, w) = Done (F_Wait, s', p', w')"
      unfolding fine_run_add [OF l] by (rule 2(1))
    moreover have "playing_on s p s' p'" using 2(2) on by (simp add: playing_on_def)
    ultimately show ?thesis by blast
  next
    assume "pc = P_Stop"
    with l on show ?thesis by auto
  qed
qed

lemma start_keeps:
  assumes "player_inv s p" and "output_buf_16 p \<noteq> None" and "output_buf_32 p \<noteq> None"
  shows "\<exists>s' p'. fine_exec api k hdr F_Start (s, p, w) = Done (F_Check 0 0, s', p', w) \<and> playing_on s p s' p'"
  using assms
  by (auto simp: duer_audio_dac_start_play_def playing_on_def playing_def player_inv_def io_simps Let_def)

text \<open>Alone, a player that has just started releases the first buffer in the end.\<close>

lemma start_to_release:
  assumes inv: "player_inv s p" and b: "output_buf_16 p = Some a" "output_buf_32 p \<noteq> None" and wav: "wav_ok api"
  shows "\<exists>l s' p' w'. fine_run api k hdr l F_Start (s, p, w) = Done (F_Clear16, s', p', w') \<and>
    a \<notin> h_live (heap s') \<and> s_channel p' = 1 \<and> s_sample_rate p' = 48000 \<and>
    length (buf_16 p') = CODEC_OUTPUT_BUFSIZE div 2"
proof -
  have nn: "output_buf_16 p \<noteq> None" using b(1) by simp
  obtain s1 p1 where 1: "fine_exec api k hdr F_Start (s, p, w) = Done (F_Check 0 0, s1, p1, w)" "playing_on s p s1 p1"
    using start_keeps [OF inv nn b(2)] by metis
  have "0 < sound_frames k" by (simp add: sound_frames_def)
  from writes_to_wait [OF wav _ this refl, of s1 p1 hdr w] 1(2) obtain l s2 p2 w2 where
    2: "fine_run api k hdr l (F_Check 0 0) (s1, p1, w) = Done (F_Wait, s2, p2, w2)" "playing_on s1 p1 s2 p2"
    by (auto simp: playing_on_def write_pc_def)
  obtain r s3 p3 w3 where e: "duer_audio_dac_wait_play_end (aa_board api) (s2, p2, w2) = (r, s3, p3, w3)"
    by (metis prod_cases4)
  have p2: "playing s2 p2" "output_buf_16 p2 = Some a" using 1(2) 2(2) b(1) by (simp_all add: playing_on_def)
  from wait_play_end_only [OF e] p2 have 3: "player_inv s3 p3" "p3 = p2"
    by (auto simp: player_only_def playing_def)
  then have a: "a \<in> h_live (heap s3)" "length (buf_16 p3) = CODEC_OUTPUT_BUFSIZE div 2"
    using p2(2) by (simp_all add: player_inv_def)
  let ?s = "io_free (Some a) s3"
  have live: "a \<notin> h_live (heap ?s)" using hp.free_live [OF a(1)] by (simp add: io_simps free_opt_def)
  have "fine_run api k hdr (Suc (Suc 0)) F_Wait (s2, p2, w2) = Done (F_Clear16, ?s, p3, w3)"
    using e 3(2) p2(2) by simp
  then have "fine_run api k hdr (l + Suc (Suc 0)) (F_Check 0 0) (s1, p1, w) = Done (F_Clear16, ?s, p3, w3)"
    unfolding fine_run_add [OF 2(1)] .
  note R = fine_run_step [OF 1(1) this]
  have "s_channel p3 = 1" "s_sample_rate p3 = 48000" using 3(2) p2(1) by (simp_all add: playing_def)
  with R live a(2) show ?thesis by (intro exI conjI)
qed

lemma players_race:
  assumes inv: "player_inv s p" and b: "output_buf_16 p = Some a" "output_buf_32 p \<noteq> None"
    and wav: "wav_ok api" and reach: "fine_reach api accept st0 (ts, m, s, p, w)"
    and i: "i < length ts" "ts ! i = (k, FPlay F_Start)"
    and j: "j < length ts" "ts ! j = (k', FPlay F_Start)" and ij: "i \<noteq> j"
  shows "\<exists>ts' s' p' w'. fine_reach api accept st0 (ts', m, s', p', w') \<and>
    (\<exists>t \<in> set ts'. fine_task_step api m t (s', p', w') = Crash Use_after_free)"
proof -
  let ?h = "task_header k m" and ?h' = "task_header k' m"
  have nn: "output_buf_16 p \<noteq> None" using b(1) by simp
  obtain s1 p1 where 1: "fine_exec api k' ?h' F_Start (s, p, w) = Done (F_Check 0 0, s1, p1, w)" "playing_on s p s1 p1"
    using start_keeps [OF inv nn b(2)] by metis
  then have p1: "output_buf_16 p1 = Some a" "output_buf_32 p1 \<noteq> None" "s_channel p1 = 1" "player_inv s1 p1"
    using b(1) by (simp_all add: playing_on_def playing_def)
  then have c: "\<not> (output_buf_16 p1 = None \<or> output_buf_32 p1 = None)" "\<not> (s_channel p1 \<noteq> 1 \<and> s_channel p1 \<noteq> 2)"
    by simp_all
  have 2: "fine_exec api k' ?h' (F_Check 0 0) (s1, p1, w) = Done (F_Call 0 0, s1, p1, w)"
    by (simp only: fine_exec.simps fine_write.simps if_not_P [OF c(1)] if_not_P [OF c(2)])
  have "fine_run api k' ?h' (Suc 0) (F_Call 0 0) (s1, p1, w) = Done (F_Convert 0 0 (Some a), s1, p1, w)"
    using p1(1) by simp
  from fine_run_step [OF 1(1) fine_run_step [OF 2 this]]
  have J: "fine_run api k' ?h' (Suc (Suc (Suc 0))) F_Start (s, p, w) = Done (F_Convert 0 0 (Some a), s1, p1, w)" .
  let ?ts = "ts[j := (k', FPlay (F_Convert 0 0 (Some a)))]"
  have r1: "fine_reach api accept st0 (?ts, m, s1, p1, w)" by (rule fine_run_reach [OF J j reach])
  obtain l s2 p2 w2 where I: "fine_run api k ?h l F_Start (s1, p1, w) = Done (F_Clear16, s2, p2, w2)"
    and q: "a \<notin> h_live (heap s2)" "s_channel p2 = 1" "s_sample_rate p2 = 48000"
      "length (buf_16 p2) = CODEC_OUTPUT_BUFSIZE div 2"
    using start_to_release [OF p1(4,1,2) wav] by blast
  let ?ts2 = "?ts[i := (k, FPlay F_Clear16)]"
  have i': "i < length ?ts" "?ts ! i = (k, FPlay F_Start)" using i ij by simp_all
  have r2: "fine_reach api accept st0 (?ts2, m, s2, p2, w2)" by (rule fine_run_reach [OF I i' r1])
  have "?ts2 ! j = (k', FPlay (F_Convert 0 0 (Some a)))" using j(1) ij by simp
  then have t: "(k', FPlay (F_Convert 0 0 (Some a))) \<in> set ?ts2" using j(1) by (metis length_list_update nth_mem)
  have off: "PLAYER_FRAME_SIZE \<le> length (audio_wav api k')"
    using wav PCM_SIZE_nonneg [of k'] by (auto simp: wav_ok_def dest!: spec [of _ k'])
  then have "length (take PLAYER_FRAME_SIZE (drop 0 (audio_wav api k'))) = PLAYER_FRAME_SIZE" by simp
  from dac_convert_frame [OF this q(2-4)] obtain b16 where
    cv: "dac_convert (take PLAYER_FRAME_SIZE (drop 0 (audio_wav api k'))) PLAYER_FRAME_SIZE p2 =
      Some ([], PLAYER_FRAME_SIZE, b16, s_resample p2)" by blast
  have "bad_pointer (Some a) s2 = Some Use_after_free" using q(1) by (simp add: bad_pointer_def)
  then have "fine_exec api k' ?h' (F_Convert 0 0 (Some a)) (s2, p2, w2) = Crash Use_after_free"
    unfolding fine_exec.simps fine_write.simps cv using q(2) off by (simp add: PLAYER_FRAME_SIZE_def)
  then have "fine_task_step api m (k', FPlay (F_Convert 0 0 (Some a))) (s2, p2, w2) = Crash Use_after_free" by simp
  with r2 t show ?thesis by blast
qed

text \<open>What an audio command does, for both kinds at once.\<close>

lemma start_audio_cases:
  assumes "start_audio api c (m, s, p, w) = Done (r, m', s', p', w')" and "tasks m = []"
  obtains
    (refused) "r \<noteq> 0" "p' = p" "heap s' = heap s" "tasks m' = []"
  | (started) k n ret s1 w1 where "duer_audio_dac_load_driver (aa_board api) (s, p, w) = Done (ret, s1, p', w1)"
      "heap s' = heap s1" "r = (if n = 2 then 0 else -1)" "n \<le> 2" "ret \<noteq> 0 \<longrightarrow> n = 0"
      "tasks m' = take n [(k, Recording R_Start), (k, Playing P_Start)]"
proof (cases c)
  case (Start_Nolinear cmdline)
  with assms(1) have "start_nolinear_case api cmdline (m, s, p, w) = Done (r, m', s', p', w')" by simp
  then show thesis
    by (cases rule: start_nolinear_cases) (use assms(2) refused started in \<open>simp_all add: io_simps\<close>)
next
  case (Start_Mic type cmdline)
  with assms(1) have "start_player_recorder_case api type cmdline (m, s, p, w) = Done (r, m', s', p', w')" by simp
  then show thesis
    by (cases rule: start_player_recorder_cases) (use assms(2) refused started in \<open>simp_all\<close>)
qed

lemma accepted_command:
  assumes inv: "player_inv s p" and c: "start_audio api c (m\<lparr>tasks := []\<rparr>, s, p, w) = Done (0, m', s', p', w')"
  shows "player_inv s' p' \<and> output_buf_16 p' \<noteq> None \<and> output_buf_32 p' \<noteq> None \<and>
    (\<exists>k. map fine_of (tasks m') = [(k, FRec R_Start), (k, FPlay F_Start)])"
proof -
  have "tasks (m\<lparr>tasks := []\<rparr>) = []" by simp
  with c show ?thesis
  proof (cases rule: start_audio_cases)
    case (started k n ret s1 w1)
    then have n: "n = 2" "ret = 0" by (auto split: if_splits)
    from load_driver_inv [OF inv started(1)] n started(2,6) show ?thesis
      by (auto simp: player_inv_def)
  qed simp
qed

text \<open>
  C6. Two audio commands race.  Whenever two of them, of either kind, are accepted one after the other
  before a task of the first has run, the scheduler has a way to run their tasks that ends in a write through a
  pointer to a released block: one player has read \<open>output_buf_16\<close> for its call of the converter, the other
  plays its sound to the end and unloads the driver.  The answer of the channel does not matter.
\<close>

theorem audio_commands_race:
  assumes "player_inv s p" and "wav_ok api"
    and "start_audio api c1 (m\<lparr>tasks := []\<rparr>, s, p, w) = Done (0, m1, s1, p1, w1)"
    and "start_audio api c2 (m1\<lparr>tasks := []\<rparr>, s1, p1, w1) = Done (0, m2, s2, p2, w2)"
  shows "\<exists>ts m' s' p' w'. fine_reach api (\<lambda>_. True) ([], m, s, p, w) (ts, m', s', p', w') \<and>
    (\<exists>t \<in> set ts. fine_task_step api m' t (s', p', w') = Crash Use_after_free)"
proof -
  let ?st0 = "([], m, s, p, w)"
  obtain k1 where 1: "player_inv s1 p1" "map fine_of (tasks m1) = [(k1, FRec R_Start), (k1, FPlay F_Start)]"
    using accepted_command [OF assms(1,3)] by metis
  obtain k2 a where 2: "player_inv s2 p2" "output_buf_16 p2 = Some a" "output_buf_32 p2 \<noteq> None"
    "map fine_of (tasks m2) = [(k2, FRec R_Start), (k2, FPlay F_Start)]"
    using accepted_command [OF 1(1) assms(4)] by (metis not_None_eq)
  have r1: "fine_reach api (\<lambda>_. True) ?st0 ([] @ map fine_of (tasks m1), m1\<lparr>tasks := []\<rparr>, s1, p1, w1)"
    by (rule fine_next [OF fine_init fine_command [OF TrueI assms(3)]])
  have "start_audio api c2 ((m1\<lparr>tasks := []\<rparr>)\<lparr>tasks := []\<rparr>, s1, p1, w1) = Done (0, m2, s2, p2, w2)"
    using assms(4) by simp
  from fine_next [OF r1 fine_command [OF TrueI this]]
  have "fine_reach api (\<lambda>_. True) ?st0 ([(k1, FRec R_Start), (k1, FPlay F_Start), (k2, FRec R_Start),
      (k2, FPlay F_Start)], m2\<lparr>tasks := []\<rparr>, s2, p2, w2)"
    by (simp add: 1(2) 2(4))
  note R = players_race [OF 2(1-3) assms(2) this, of "Suc 0" k1 "Suc (Suc (Suc 0))" k2]
  have "\<exists>ts s' p' w'. fine_reach api (\<lambda>_. True) ?st0 (ts, m2\<lparr>tasks := []\<rparr>, s', p', w') \<and>
    (\<exists>t \<in> set ts. fine_task_step api (m2\<lparr>tasks := []\<rparr>) t (s', p', w') = Crash Use_after_free)"
    by (rule R) simp_all
  then show ?thesis by metis
qed

text \<open>On the board of the examples the second command is accepted like the first.\<close>

definition mic_ready :: "'a io_scheme \<Rightarrow> player \<Rightarrow> mem_i2c \<Rightarrow> bool" where
  "mic_ready s p w \<longleftrightarrow> (\<forall>n. h_ok (heap s) n) \<and> p_i2c p = i2c_up0 \<and>
     chip_ok (mem_api {0x10, 0x20}) {0x10, 0x20} mem_view i2c_up0 ES8156_ADDR w"

lemma mic_codec_init:
  assumes "mic_ready s p w"
  shows "\<exists>s' w'. codec_init sink_board (s, p, w) = Done (0, s', p\<lparr>s_codec_inited := 1\<rparr>, w') \<and>
    mic_ready s' (p\<lparr>s_codec_inited := 1\<rparr>) w'"
proof -
  have bus: "i2c_bus i2c_up0 0 = Some 0" by (simp add: i2c_up0_def)
  note R = assms [unfolded mic_ready_def]
  from ES8156_init_ok [OF _ mem_gpio_frame bus, of "mem_api {0x10, 0x20}" "{0x10, 0x20}" mem_view w s] R obtain w1 where
    1: "ES8156_codec_init (mem_api {0x10, 0x20}) mem_gpio (s, i2c_up0, w) = Done (0, s, i2c_up0, w1)"
    "chip_ok (mem_api {0x10, 0x20}) {0x10, 0x20} mem_view i2c_up0 ES8156_ADDR w1"
    by (auto simp: Let_def)
  then have "chip_ok (mem_api {0x10, 0x20}) {0x10, 0x20} mem_view i2c_up0 (of_int es7243e_addr0) w1"
    by (simp add: chip_ok_def es7243e_addr0_def)
  from es7243e_init_ok [OF this bus, of s] obtain w2 where
    2: "es7243e_adc_init (mem_api {0x10, 0x20}) es7243e_addr0 (s, i2c_up0, w1) =
      Done (0, vTaskDelay 60 s, i2c_up0, w2)"
    "chip_ok (mem_api {0x10, 0x20}) {0x10, 0x20} mem_view i2c_up0 (of_int es7243e_addr0) w2" by auto
  have p: "p\<lparr>p_i2c := i2c_up0, s_codec_inited := 1\<rparr> = p\<lparr>s_codec_inited := 1\<rparr>" using R by (cases p) simp
  have "codec_init sink_board (s, p, w) = Done (0, vTaskDelay 60 s, p\<lparr>p_i2c := i2c_up0, s_codec_inited := 1\<rparr>, w2)"
    using R 1(1) 2(1) by (simp add: codec_init_def i2s0_init_def sink_board_def sink_i2s_def)
  moreover have "mic_ready (vTaskDelay 60 s) (p\<lparr>s_codec_inited := 1\<rparr>) w2"
    using R 2(2) by (simp add: mic_ready_def io_simps chip_ok_def ES8156_ADDR_def)
  ultimately show ?thesis unfolding p by blast
qed

lemma mic_load_any:
  assumes "mic_ready s p w"
  shows "\<exists>s' p' w'. duer_audio_dac_load_driver sink_board (s, p, w) = Done (0, s', p', w') \<and> mic_ready s' p' w'"
proof -
  have "mic_ready (printf load_driver_text s) p w" using assms by (simp add: mic_ready_def io_simps)
  from mic_codec_init [OF this] obtain s1 p1 w1 where
    1: "codec_init sink_board (printf load_driver_text s, p, w) = Done (0, s1, p1, w1)" "mic_ready s1 p1 w1" by blast
  have 2: "\<exists>s2 p2. load_buf_16 (s1, p1) = (False, s2, p2) \<and> mic_ready s2 p2 w1"
    using 1(2) by (auto simp: load_buf_16_def mic_ready_def io_malloc_def malloc_def Let_def)
  then obtain s2 p2 where l2: "load_buf_16 (s1, p1) = (False, s2, p2)" "mic_ready s2 p2 w1" by blast
  have 3: "\<exists>s3 p3. load_buf_32 (s2, p2) = (False, s3, p3) \<and> mic_ready s3 p3 w1"
    using l2(2) by (auto simp: load_buf_32_def mic_ready_def io_malloc_def malloc_def Let_def)
  with 1(1) l2(1) 1(2) show ?thesis by (auto simp: duer_audio_dac_load_driver_def)
qed

lemma mic_command:
  assumes "mic_ready s p w" and "testing_mic m \<noteq> 1"
  shows "\<exists>m' s' p' w'. start_audio mic_api (Start_Mic 0 CMD_PA_MIC) (m\<lparr>tasks := []\<rparr>, s, p, w) =
    Done (0, m', s', p', w') \<and> mic_ready s' p' w' \<and> testing_mic m' \<noteq> 1"
proof -
  obtain s1 p1 w1 where l: "duer_audio_dac_load_driver sink_board (s, p, w) = Done (0, s1, p1, w1)"
    "mic_ready s1 p1 w1" using mic_load_any [OF assms(1)] by blast
  let ?v = "g_vol_tbl ! volume_step (volume_arg CMD_PA_MIC (Suc (length CMD_PA_MIC)) 70)"
  obtain w2 where v: "es8156_write_reg (mem_api {0x10, 0x20}) (p_i2c p1) 0x14 (of_int (volume_reg ?v)) w1 = (0, w2)"
    "mic_ready s1 p1 w2"
    using es8156.wr_ok [of "mem_api {0x10, 0x20}" "{0x10, 0x20}" mem_view i2c_up0 w1 "0x14" "of_int (volume_reg ?v)"] l(2)
    by (auto simp: mic_ready_def)
  have "b_i2c sink_board = mem_api {0x10, 0x20}" by (simp add: sink_board_def)
  with l(1) v assms(2) show ?thesis
    by (simp add: start_player_recorder_case_def mic_api_def set_volume_step set_volume_eq create_task_def)
qed

theorem audio_commands_race_witness:
  "\<exists>ts m s p w. fine_reach mic_api (\<lambda>_. True) ([], audio0, sys0, player_up, mem0) (ts, m, s, p, w) \<and>
     (\<exists>t \<in> set ts. fine_task_step mic_api m t (s, p, w) = Crash Use_after_free)"
proof -
  have "mic_ready sys0 player_up mem0"
    using sink_chip_ok [of "0x10"] by (simp add: mic_ready_def player_up_def ES8156_ADDR_def)
  moreover have "testing_mic audio0 \<noteq> 1" by (simp add: audio0_def)
  ultimately obtain m1 s1 p1 w1 where
    1: "start_audio mic_api (Start_Mic 0 CMD_PA_MIC) (audio0\<lparr>tasks := []\<rparr>, sys0, player_up, mem0) =
      Done (0, m1, s1, p1, w1)" "mic_ready s1 p1 w1" "testing_mic m1 \<noteq> 1" using mic_command by blast
  from mic_command [OF 1(2,3)] obtain m2 s2 p2 w2 where
    2: "start_audio mic_api (Start_Mic 0 CMD_PA_MIC) (m1\<lparr>tasks := []\<rparr>, s1, p1, w1) = Done (0, m2, s2, p2, w2)"
    by blast
  show ?thesis by (rule audio_commands_race [OF player_up_inv mic_api_ok(2) 1(1) 2])
qed

section \<open>One player at a time\<close>

text \<open>No player is at work: the condition under which a command could be accepted safely.\<close>

fun idle_task :: "audio_kind \<times> fine_task \<Rightarrow> bool" where
  "idle_task (k, FPlay pc) \<longleftrightarrow> pc = F_End"
| "idle_task (k, FRec pc) \<longleftrightarrow> True"

definition idle :: "fine_tasks \<Rightarrow> bool" where
  "idle ts \<longleftrightarrow> (\<forall>t \<in> set ts. idle_task t)"

text \<open>
  The invariant reuses that of Audio\_Props for the recorders and the heap.  There every player counts as
  ended, and a pointer to a block that has just been released and is about to be cleared counts
  as cleared.
\<close>

fun coarse :: "audio_kind \<times> fine_task \<Rightarrow> audio_kind \<times> task_pc" where
  "coarse (k, FPlay pc) = (k, Playing P_End)"
| "coarse (k, FRec pc) = (k, Recording pc)"

fun held :: "fine_pc \<Rightarrow> player \<Rightarrow> player" where
  "held F_Clear16 p = p\<lparr>output_buf_16 := None\<rparr>"
| "held F_Clear32 p = p\<lparr>output_buf_32 := None\<rparr>"
| "held _ p = p"

definition at_frame :: "audio_kind \<Rightarrow> player \<Rightarrow> int \<Rightarrow> nat \<Rightarrow> bool" where
  "at_frame k p n off \<longleftrightarrow>
     n = int off \<and> n \<le> PLAYER_PCM_SIZE k \<and> s_channel p = 1 \<and> s_sample_rate p = 48000"

definition has_buffers :: "player \<Rightarrow> bool" where
  "has_buffers p \<longleftrightarrow> output_buf_16 p \<noteq> None \<and> output_buf_32 p \<noteq> None"

fun fine_ok :: "audio_kind \<Rightarrow> player \<Rightarrow> fine_pc \<Rightarrow> bool" where
  "fine_ok k p (F_Check n off) \<longleftrightarrow> at_frame k p n off"
| "fine_ok k p (F_Call n off) \<longleftrightarrow> at_frame k p n off \<and> has_buffers p"
| "fine_ok k p (F_Convert n off q) \<longleftrightarrow> at_frame k p n off \<and> has_buffers p \<and> q = output_buf_16 p"
| "fine_ok k p (F_Spread n off i l) \<longleftrightarrow> at_frame k p n off \<and> has_buffers p \<and> l \<le> length (buf_16 p)"
| "fine_ok k p (F_Send n off l q) \<longleftrightarrow> at_frame k p n off \<and> has_buffers p \<and> q = output_buf_32 p"
| "fine_ok k p _ \<longleftrightarrow> True"

lemma after_write_ok:
  assumes "at_frame k p n off" and "after_write api k hdr n off ret s = (pc, s')"
  shows "fine_ok k p pc \<and> held pc p = p \<and> heap s' = heap s"
  using assms by (auto simp: after_write_def at_frame_def Let_def io_simps split: if_splits)

lemma release_only:
  assumes "player_inv s p"
  shows "output_buf_16 p = Some a \<Longrightarrow> player_only s p (io_free (Some a) s) (p\<lparr>output_buf_16 := None\<rparr>)"
    and "output_buf_32 p = Some a \<Longrightarrow> player_only s p (io_free (Some a) s) (p\<lparr>output_buf_32 := None\<rparr>)"
  using assms hp.free_live [of a "heap s"] hp.free_fault [of a "heap s"] hp.free_wf [of "heap s" a]
  by (auto simp: player_only_def player_inv_def player_blocks_def io_simps free_opt_def)

text \<open>The step of a player that is alone.\<close>

lemma fine_exec_safe:
  assumes inv: "player_inv s (held pc p)" and ok: "fine_ok k p pc" and wav: "wav_ok api"
  shows "\<exists>pc' s' p' w'. fine_exec api k hdr pc (s, p, w) = Done (pc', s', p', w') \<and> fine_ok k p' pc' \<and>
    player_only s (held pc p) s' (held pc' p')"
proof (cases pc)
  case F_Start
  then show ?thesis
    using PCM_SIZE_nonneg [of k]
    by (auto simp: duer_audio_dac_start_play_def at_frame_def io_simps intro!: player_only_refl)
next
  case (F_Check n off)
  then have at: "at_frame k p n off" using ok by simp
  then have ch: "\<not> (s_channel p \<noteq> 1 \<and> s_channel p \<noteq> 2)" by (simp add: at_frame_def)
  show ?thesis
  proof (cases "has_buffers p")
    case True
    then have b: "\<not> (output_buf_16 p = None \<or> output_buf_32 p = None)" by (simp add: has_buffers_def)
    have "fine_exec api k hdr (F_Check n off) (s, p, w) = Done (F_Call n off, s, p, w)"
      by (simp only: fine_exec.simps fine_write.simps if_not_P [OF b] if_not_P [OF ch])
    with True at F_Check show ?thesis by (auto intro!: player_only_refl)
  next
    case False
    then have b: "output_buf_16 p = None \<or> output_buf_32 p = None" by (auto simp: has_buffers_def)
    let ?s = "printf (''faild to init buffer for codec write'' @ newline) s"
    obtain pc' s' where a: "after_write api k hdr n off 0 ?s = (pc', s')" by (metis prod.exhaust)
    have "fine_exec api k hdr (F_Check n off) (s, p, w) = Done (pc', s', p, w)"
      by (simp only: fine_exec.simps fine_write.simps if_P [OF b] a prod.case Let_def)
    moreover from after_write_ok [OF at a] F_Check have "fine_ok k p pc'" "player_only s (held pc p) s' (held pc' p)"
      by (auto simp: io_simps intro!: player_only_refl)
    ultimately show ?thesis using F_Check by blast
  qed
next
  case (F_Convert n off q)
  with ok have at: "at_frame k p n off" and b: "has_buffers p" "q = output_buf_16 p" by simp_all
  then have ch: "\<not> (s_channel p \<noteq> 1 \<and> s_channel p \<noteq> 2)" by (simp add: at_frame_def)
  have I: "player_inv s p" using inv F_Convert by simp
  then have l16: "length (buf_16 p) = CODEC_OUTPUT_BUFSIZE div 2" using b by (auto simp: player_inv_def has_buffers_def)
  have "PLAYER_PCM_SIZE k + int PLAYER_FRAME_SIZE \<le> int (length (audio_wav api k))"
    using wav by (simp add: wav_ok_def)
  with at have off: "\<not> off + PLAYER_FRAME_SIZE > length (audio_wav api k)" by (simp add: at_frame_def)
  then have "length (take PLAYER_FRAME_SIZE (drop off (audio_wav api k))) = PLAYER_FRAME_SIZE" by simp
  from dac_convert_frame [OF this _ _ l16] at obtain b16 where
    cv: "dac_convert (take PLAYER_FRAME_SIZE (drop off (audio_wav api k))) PLAYER_FRAME_SIZE p =
      Some ([], PLAYER_FRAME_SIZE, b16, s_resample p)" and lb: "length b16 = length (buf_16 p)"
    by (auto simp: at_frame_def)
  have "bad_pointer q s = None" using bad_pointer_inv(1) [OF I] b by (simp add: has_buffers_def)
  then have "fine_exec api k hdr pc (s, p, w) = Done (F_Spread n off 0 PLAYER_FRAME_SIZE, s, p\<lparr>buf_16 := b16\<rparr>, w)"
    unfolding F_Convert fine_exec.simps fine_write.simps if_not_P [OF ch] if_not_P [OF off] cv by simp
  moreover have "PLAYER_FRAME_SIZE \<le> length b16"
    unfolding lb l16 by (simp add: PLAYER_FRAME_SIZE_def CODEC_OUTPUT_BUFSIZE_def)
  ultimately show ?thesis using at b lb F_Convert
    by (auto simp: at_frame_def has_buffers_def intro!: player_only_refl)
next
  case (F_Spread n off i l)
  with ok have at: "at_frame k p n off" and b: "has_buffers p" "l \<le> length (buf_16 p)" by simp_all
  have I: "player_inv s p" using inv F_Spread by simp
  show ?thesis
  proof (cases "i < l")
    case True
    have "length (buf_32 p) = 2 * length (buf_16 p)"
      using I b(1) by (auto simp: player_inv_def has_buffers_def CODEC_OUTPUT_BUFSIZE_def)
    with True b(2) have "i < length (buf_16 p) \<and> 2 * i + 1 < length (buf_32 p)" by linarith
    with True bad_pointer_inv [OF I] b(1) have "fine_exec api k hdr pc (s, p, w) = Done (F_Spread n off (i + 1) l, s,
        p\<lparr>buf_32 := (buf_32 p)[2 * i + 1 := buf_16 p ! i]\<rparr>, w)"
      by (simp add: F_Spread has_buffers_def)
    with at b F_Spread show ?thesis by (auto simp: at_frame_def has_buffers_def intro!: player_only_refl)
  next
    case False
    with at b F_Spread show ?thesis by (auto intro!: player_only_refl)
  qed
next
  case (F_Send n off l q)
  with ok have at: "at_frame k p n off" and b: "has_buffers p" "q = output_buf_32 p" by simp_all
  have I: "player_inv s p" using inv F_Send by simp
  have g: "bad_pointer q s = None" using bad_pointer_inv(2) [OF I] b by (simp add: has_buffers_def)
  obtain ret w' where wr: "SPIL_OUTPUT_write_data (aa_board api) (bytes_of_shorts (take (l * 2) (buf_32 p))) w = (ret, w')"
    by (metis prod.exhaust)
  obtain pc' s' where a: "after_write api k hdr n off ret s = (pc', s')" by (metis prod.exhaust)
  have "fine_exec api k hdr pc (s, p, w) = Done (pc', s', p, w')"
    by (simp add: F_Send g wr a)
  moreover from after_write_ok [OF at a] F_Send have "fine_ok k p pc'" "player_only s (held pc p) s' (held pc' p)"
    by (auto intro!: player_only_refl)
  ultimately show ?thesis by blast
next
  case F_Wait
  obtain r s' p' w' where e: "duer_audio_dac_wait_play_end (aa_board api) (s, p, w) = (r, s', p', w')"
    by (metis prod_cases4)
  with wait_play_end_only [OF e] F_Wait show ?thesis by auto
next
  case F_Free16
  with release_only(1) [of s p] inv show ?thesis
    by (cases "output_buf_16 p") (auto intro!: player_only_refl)
next
  case F_Free32
  with release_only(2) [of s p] inv show ?thesis
    by (cases "output_buf_32 p") (auto intro!: player_only_refl)
next
  case (F_Call n off)
  with ok show ?thesis by (auto intro!: player_only_refl)
qed (auto simp: codec_uninit_def intro!: player_only_refl)

definition fine_inv :: "bool \<Rightarrow> int \<Rightarrow> 'w fine_st \<Rightarrow> bool" where
  "fine_inv f fsz = (\<lambda>(ts, m, s, p, w).
     idle ts \<and> audio_inv f fsz (m\<lparr>tasks := map coarse ts\<rparr>, s, p, w) \<or>
     (\<exists>i k pc. i < length ts \<and> ts ! i = (k, FPlay pc) \<and> (\<forall>j < length ts. j \<noteq> i \<longrightarrow> idle_task (ts ! j)) \<and>
        fine_ok k p pc \<and> audio_inv f fsz (m\<lparr>tasks := map coarse ts\<rparr>, s, held pc p, w)))"

lemma fine_inv_cases:
  assumes "fine_inv f fsz (ts, m, s, p, w)"
  obtains (none) "idle ts" "audio_inv f fsz (m\<lparr>tasks := map coarse ts\<rparr>, s, p, w)"
  | (one) j k pc where "j < length ts" "ts ! j = (k, FPlay pc)" "\<forall>l < length ts. l \<noteq> j \<longrightarrow> idle_task (ts ! l)"
      "fine_ok k p pc" "audio_inv f fsz (m\<lparr>tasks := map coarse ts\<rparr>, s, held pc p, w)"
  using assms unfolding fine_inv_def by auto

lemma task_ok_coarse: "task_ok fsz p' (coarse t) = task_ok fsz p (coarse t)"
  by (cases t rule: coarse.cases; cases "snd (coarse t)") (auto elim: task_ok.elims)

lemma coarse_player: "i < length ts \<Longrightarrow> ts ! i = (k, FPlay pc) \<Longrightarrow>
    map coarse (ts[i := (k, FPlay pc')]) = map coarse ts"
  by (metis coarse.simps(1) list_update_id map_update)

lemma idle_nth: "idle ts \<longleftrightarrow> (\<forall>j < length ts. idle_task (ts ! j))"
  by (simp add: idle_def all_set_conv_all_nth)

lemma fine_inv_recorder:
  assumes inv: "audio_inv f fsz (m\<lparr>tasks := map coarse ts\<rparr>, s, p, w)" and i: "i < length ts"
    and t: "ts ! i = (k, FRec pc)" and doc: "pcm_documented api fsz"
  shows "\<exists>pc' s' w'. recorder_exec api k hdr pc (s, w) = Done (pc', s', w') \<and>
    audio_inv f fsz (m\<lparr>tasks := map coarse (ts[i := (k, FRec pc')])\<rparr>, s', p, w')"
proof -
  have "i < length (tasks (m\<lparr>tasks := map coarse ts\<rparr>))" "tasks (m\<lparr>tasks := map coarse ts\<rparr>) ! i = (k, Recording pc)"
    using i t by simp_all
  from recorder_exec_safe [OF inv this doc, of hdr] show ?thesis by (auto simp: map_update)
qed

lemma fine_task_safe:
  assumes inv: "fine_inv f fsz (ts, m, s, p, w)" and i: "i < length ts"
    and doc: "pcm_documented api fsz" and wav: "wav_ok api"
  shows "\<exists>t s' p' w'. fine_task_step api m (ts ! i) (s, p, w) = Done (t, s', p', w') \<and>
    fine_inv f fsz (ts[i := t], m, s', p', w')"
proof (cases "snd (ts ! i)")
  case (FRec pc)
  then obtain k where t: "ts ! i = (k, FRec pc)" by (cases "ts ! i") auto
  let ?h = "task_header k m"
  from inv show ?thesis
  proof (cases rule: fine_inv_cases)
    case none
    from fine_inv_recorder [OF none(2) i t doc, of ?h] obtain pc1 s1 w1 where
      1: "recorder_exec api k ?h pc (s, w) = Done (pc1, s1, w1)"
      "audio_inv f fsz (m\<lparr>tasks := map coarse (ts[i := (k, FRec pc1)])\<rparr>, s1, p, w1)" by blast
    have "idle (ts[i := (k, FRec pc1)])"
      using none(1) i unfolding idle_nth by (auto simp: nth_list_update)
    with 1 t show ?thesis by (auto simp: fine_inv_def)
  next
    case (one j k' pc')
    from fine_inv_recorder [OF one(5) i t doc, of ?h] obtain pc1 s1 w1 where
      1: "recorder_exec api k ?h pc (s, w) = Done (pc1, s1, w1)"
      "audio_inv f fsz (m\<lparr>tasks := map coarse (ts[i := (k, FRec pc1)])\<rparr>, s1, held pc' p, w1)" by blast
    have "i \<noteq> j" using t one(2) by auto
    with one(1-4) 1(2) i have "fine_inv f fsz (ts[i := (k, FRec pc1)], m, s1, p, w1)"
      unfolding fine_inv_def prod.case by (intro disjI2 exI [of _ j] exI) (auto simp: nth_list_update)
    with 1(1) t show ?thesis by auto
  qed
next
  case (FPlay pc)
  then obtain k where t: "ts ! i = (k, FPlay pc)" by (cases "ts ! i") auto
  show ?thesis
  proof (cases "pc = F_End")
    case True
    have "ts[i := (k, FPlay F_End)] = ts" using t True list_update_id [of ts i] by simp
    with inv True t show ?thesis by simp
  next
    case False
    with t i have "\<not> idle_task (ts ! i)" by simp
    with inv have one: "(\<forall>l < length ts. l \<noteq> i \<longrightarrow> idle_task (ts ! l)) \<and> fine_ok k p pc \<and>
        audio_inv f fsz (m\<lparr>tasks := map coarse ts\<rparr>, s, held pc p, w)"
    proof (cases rule: fine_inv_cases)
      case (one j k' pc')
      then have "j = i" using \<open>\<not> idle_task (ts ! i)\<close> i by auto
      with one t show ?thesis by simp
    qed (use i idle_nth in auto)
    then have one: "\<forall>l < length ts. l \<noteq> i \<longrightarrow> idle_task (ts ! l)" "fine_ok k p pc"
      "audio_inv f fsz (m\<lparr>tasks := map coarse ts\<rparr>, s, held pc p, w)" by blast+
    from fine_exec_safe [OF audio_invD(1) [OF one(3)] one(2) wav, of "task_header k m" w] obtain pc1 s1 p1 w1 where
      1: "fine_exec api k (task_header k m) pc (s, p, w) = Done (pc1, s1, p1, w1)"
      "fine_ok k p1 pc1" "player_only s (held pc p) s1 (held pc1 p1)" by blast
    have "\<forall>t \<in> set (tasks (m\<lparr>tasks := map coarse ts\<rparr>)). task_ok fsz (held pc1 p1) t"
      using audio_invD(4) [OF one(3)] task_ok_coarse [of fsz "held pc1 p1" _ "held pc p"] by auto
    from audio_inv_player [OF one(3) 1(3) this, of w1]
    have "audio_inv f fsz (m\<lparr>tasks := map coarse (ts[i := (k, FPlay pc1)])\<rparr>, s1, held pc1 p1, w1)"
      unfolding coarse_player [OF i t] .
    with i one(1) 1(2) have "fine_inv f fsz (ts[i := (k, FPlay pc1)], m, s1, p1, w1)"
      unfolding fine_inv_def prod.case by (intro disjI2 exI [of _ i] exI) auto
    with 1(1) t show ?thesis by auto
  qed
qed

lemma audio_inv_more:
  assumes "audio_inv f fsz (m, s, p, w)" and "tasks m' = tasks m @ us"
    and "\<forall>t \<in> set us. task_block (snd t) = None \<and> task_ok fsz p t"
  shows "audio_inv f fsz (m', s, p, w')"
  using assms blocks_append_take [of "tasks m" "own s p" us] by (auto simp: audio_inv.simps)

lemma fine_command_inv:
  assumes inv: "fine_inv f fsz (ts, m, s, p, w)" and idl: "idle ts"
    and c: "start_audio api c (m\<lparr>tasks := []\<rparr>, s, p, w) = Done (r, m', s', p', w')"
  shows "fine_inv f fsz (ts @ map fine_of (tasks m'), m'\<lparr>tasks := []\<rparr>, s', p', w')"
proof -
  have A: "audio_inv f fsz (m\<lparr>tasks := map coarse ts\<rparr>, s, p, w)"
    using inv by (cases rule: fine_inv_cases) (use idl in \<open>auto simp: idle_nth\<close>)
  have "tasks (m\<lparr>tasks := []\<rparr>) = []" by simp
  with c show ?thesis
  proof (cases rule: start_audio_cases)
    case refused
    have "audio_inv f fsz (m'\<lparr>tasks := map coarse ts\<rparr>, s', p, w')"
      by (rule audio_inv_cong [OF A _ refused(3)]) simp
    with idl refused(2,4) show ?thesis by (simp add: fine_inv_def)
  next
    case (started k n ret s1 w1)
    let ?us = "take n [(k, Recording R_Start), (k, Playing P_Start)]"
    let ?ts = "ts @ map fine_of ?us"
    have L: "audio_inv f fsz (m'\<lparr>tasks := map coarse ts\<rparr>, s', p', w')"
      by (rule audio_inv_cong [OF audio_inv_load [OF A _ started(1), of "m\<lparr>tasks := map coarse ts\<rparr>" w1] _ started(2)]) simp_all
    have "audio_inv f fsz (m'\<lparr>tasks := map coarse ?ts\<rparr>, s', p', w')"
      by (rule audio_inv_more [OF L, of _ "map coarse (map fine_of ?us)"]) (auto dest!: in_set_takeD)
    moreover consider "n = 0" | "n = 1" | "n = 2" using started(4) by linarith
    then have "idle ?ts \<or> ts \<noteq> ?ts \<and> ?ts ! Suc (length ts) = (k, FPlay F_Start) \<and>
        length ?ts = Suc (Suc (length ts)) \<and> (\<forall>j < length ?ts. j \<noteq> Suc (length ts) \<longrightarrow> idle_task (?ts ! j))"
      using idl by cases (auto simp: idle_def nth_append less_Suc_eq idle_nth)
    ultimately show ?thesis
      unfolding fine_inv_def prod.case started(6)
      by (elim disjE) (auto intro!: exI [of _ "Suc (length ts)"])
  qed
qed

lemma fine_step_inv:
  assumes "fine_step api idle st st'" and inv: "fine_inv f fsz st"
    and doc: "pcm_documented api fsz" and wav: "wav_ok api"
  shows "fine_inv f fsz st'"
  using assms(1)
proof cases
  case (fine_run_task i ts m s p w t s' p' w')
  with fine_task_safe [OF _ _ doc wav, of f ts m s p w i] inv show ?thesis by auto
next
  case (fine_command ts c m s p w r m' s' p' w')
  with fine_command_inv [of f fsz ts m s p w api c r m' s' p' w'] inv show ?thesis by simp
qed

text \<open>
  C5. One player at a time is safe.  If an audio command were only accepted when every player task of
  earlier commands has ended, no schedule of the small steps could go wrong: no write through a null
  pointer or to a released block, no access outside a buffer, no wrong release; every task can
  always make its next step.  So the only thing the driver lacks is what the \<open>testing\<close> flag was
  meant for.
\<close>

theorem one_player_safe:
  assumes "pcm_documented api fsz" and "wav_ok api" and "player_inv s0 p0"
    and "fine_reach api idle ([], m0, s0, p0, w0) (ts, m, s, p, w)"
  shows "h_fault (heap s) = h_fault (heap s0) \<and>
    (\<forall>t \<in> set ts. \<exists>t' st'. fine_task_step api m t (s, p, w) = Done (t', st'))"
proof -
  let ?f = "h_fault (heap s0)"
  have "audio_inv ?f fsz (m0\<lparr>tasks := []\<rparr>, s0, p0, w0)" by (rule audio_inv_start [OF assms(3)]) simp
  then have start: "fine_inv ?f fsz ([], m0, s0, p0, w0)" by (simp add: fine_inv_def idle_def)
  have "fine_inv ?f fsz st" if "fine_reach api idle ([], m0, s0, p0, w0) st" for st
    using that by induction (use start fine_step_inv [OF _ _ assms(1,2)] in auto)
  from this [OF assms(4)] have inv: "fine_inv ?f fsz (ts, m, s, p, w)" .
  then have "h_fault (heap s) = ?f" by (auto simp: fine_inv_def dest: audio_invD(2))
  moreover have "\<exists>t' st'. fine_task_step api m t (s, p, w) = Done (t', st')" if "t \<in> set ts" for t
    using fine_task_safe [OF inv _ assms(1,2)] that unfolding in_set_conv_nth by blast
  ultimately show ?thesis by blast
qed

theorem one_player_safe_witness:
  "\<exists>ts m s p w. fine_reach mic_api idle ([], audio0, sys0, player_up, mem0) (ts, m, s, p, w) \<and> length ts = 2 \<and>
     \<not> h_fault (heap s) \<and> (\<forall>t \<in> set ts. \<exists>t' st'. fine_task_step mic_api m t (s, p, w) = Done (t', st'))"
proof -
  have "audio0\<lparr>tasks := []\<rparr> = audio0" by (simp add: audio0_def)
  then obtain m s p w where st: "start_audio mic_api (Start_Mic 0 CMD_PA_MIC) (audio0\<lparr>tasks := []\<rparr>, sys0, player_up, mem0) =
      Done (0, m, s, p, w)" and n: "length (tasks m) = 2" using mic_start by fastforce
  have "idle []" by (simp add: idle_def)
  have r: "fine_reach mic_api idle ([], audio0, sys0, player_up, mem0)
      ([] @ map fine_of (tasks m), m\<lparr>tasks := []\<rparr>, s, p, w)"
    by (rule fine_next [OF fine_init fine_command]) (rule \<open>idle []\<close>, rule st)
  from one_player_safe [OF mic_api_ok player_up_inv r] r n show ?thesis
    unfolding sys0_simps(5) by (metis append_Nil length_map)
qed

end
