(* ===== verification/Monitor.thy ===== *)
theory Monitor
  imports Audio_Cases Command_Match Sn_Case System_Control Dsp_Case Es7243e
begin

text \<open>
  The command monitor (main/command\_monitor.c) and the entry point (main/main.c): reading a line from
  the UART, choosing the handler by the order of the tests in the code, running it on the state of
  the whole firmware, and the start of the system.
\<close>

section \<open>The surroundings\<close>

text \<open>
  Everything outside the source that the firmware calls, over one state \<open>'w\<close> of the outside world.
  \<open>UartRxString\<close> gives the string it leaves in the buffer for a number of characters.
  \<open>start_mic_seal_case\<close> is declared in main/case\_interface.h and defined nowhere in the repository.
\<close>

record 'w firmware =
  fw_audio :: "'w audio_api"
  fw_nvs :: "'w nvs_api"
  fw_part :: "'w part_api"
  fw_bds :: "'w bds_api"
  uart_rx_one_char :: "'w \<Rightarrow> char option \<times> 'w"
  UartRxString :: "nat \<Rightarrow> 'w \<Rightarrow> string \<times> 'w"
  start_mic_seal_case :: "string \<Rightarrow> 'w \<Rightarrow> 'w"
  xTaskCreatePinnedToCore :: "string \<Rightarrow> 'w \<Rightarrow> bool \<times> 'w"
  nvs_flash_init :: "'w \<Rightarrow> esp_err_t \<times> 'w"
  nvs_flash_erase :: "'w \<Rightarrow> esp_err_t \<times> 'w"
  nvs_no_free_pages :: esp_err_t
  CONFIG_CUPID_BOARD_V2 :: bool

abbreviation fw_board :: "'w firmware \<Rightarrow> 'w board" where
  "fw_board fw \<equiv> aa_board (fw_audio fw)"

section \<open>Reading a command\<close>

definition monitor_help :: "sys \<Rightarrow> sys" where
  "monitor_help s =
     printf (''************* command monitor help end ***********'' @ newline @ newline)
       (printf (''*************   command monitor help  ***********'' @ newline) s)"

text \<open>Throwing away what is in the receive buffer; it may never be empty.\<close>

partial_function (option) flush_rx :: "'w firmware \<Rightarrow> 'w \<Rightarrow> 'w option" where
  "flush_rx fw w =
     (case uart_rx_one_char fw w of (c, w) \<Rightarrow> if c \<noteq> None then flush_rx fw w else Some w)"

partial_function (option) read_command ::
  "'w firmware \<Rightarrow> sys \<Rightarrow> 'w \<Rightarrow> (string \<times> sys \<times> 'w) option" where
  "read_command fw s w =
     (case flush_rx fw w of
        None \<Rightarrow> None
      | Some w \<Rightarrow>
          (case UartRxString fw 255 w of (line, w) \<Rightarrow>
             if trim_trailing_space line = [] then read_command fw (monitor_help s) w
             else Some (trim_trailing_space line, s, w)))"

section \<open>The handlers on the whole state\<close>

definition check_task_status :: "'w nvs_api \<Rightarrow> sys \<times> 'w \<Rightarrow> sys \<times> 'w" where
  "check_task_status api st =
     (let ((snRet, deviceSn), s, w) = get_sn_case api [] MAX_DEVICE_SN_LENGTH st;
          deviceSn = (if snRet \<noteq> ESP_OK
                      then snprintf_str MAX_DEVICE_SN_LENGTH (''SN_ERR:'' @ show_d snRet)
                      else deviceSn)
      in (out_print_result RESULT_TASK SUCCESS deviceSn s, w))"

text \<open>A handler that knows the output and the world only, one that cannot fail, and an audio one.\<close>

fun on_sys :: "(sys \<times> 'w \<Rightarrow> (sys \<times> 'w) run) \<Rightarrow> 'w ast \<Rightarrow> 'w ast run" where
  "on_sys f (m, s, p, w) =
     (case f (s, w) of
        Done (s, w) \<Rightarrow> Done (m, s, p, w) | Restart (s, w) \<Rightarrow> Restart (m, s, p, w)
      | Hang \<Rightarrow> Hang | Crash c \<Rightarrow> Crash c)"

fun drop_result :: "(int \<times> 's) run \<Rightarrow> 's run" where
  "drop_result (Done (r, st)) = Done st"
| "drop_result (Restart (r, st)) = Restart st"
| "drop_result Hang = Hang"
| "drop_result (Crash c) = Crash c"

section \<open>The dispatcher\<close>

datatype action =
    Task_status | Pa_mic | Mic_seal | Dsp | Nolinear | Get_sn | Set_sn | Reset | Off | Fail | Intr
  | Quit1 | Quit2 | Profile | Read_profile | Version | Mic_seal_case | Nothing

text \<open>The chain of tests, in the order of the code.\<close>

definition dispatch :: "string \<Rightarrow> action" where
  "dispatch cmdline =
     (if string_equal cmdline CMD_TASK then Task_status
      else if string_content cmdline CMD_PA_MIC then Pa_mic
      else if string_content cmdline CMD_SEAL then Mic_seal
      else if string_equal cmdline CMD_DSP then Dsp
      else if string_content cmdline CMD_NOLINEAR then Nolinear
      else if string_equal cmdline CMD_GET_SN then Get_sn
      else if string_content cmdline CMD_SET_SN then Set_sn
      else if string_equal cmdline CMD_RST then Reset
      else if string_equal cmdline CMD_OFF then Off
      else if string_equal cmdline CMD_FAIL then Fail
      else if string_equal cmdline CMD_INTR then Intr
      else if string_equal cmdline CMD_QUIT1 then Quit1
      else if string_equal cmdline CMD_QUIT2 then Quit2
      else if string_content cmdline CMD_PROFILE then Profile
      else if string_equal cmdline RD_PROFIEL then Read_profile
      else if string_equal cmdline CMD_VERSION then Version
      else if string_content cmdline CMD_SEAL then Mic_seal_case
      else Nothing)"

text \<open>The branch of each test.  The client handle the task holds is never set, so the DSP gets NULL.\<close>

fun handle :: "'w firmware \<Rightarrow> action \<Rightarrow> string \<Rightarrow> 'w ast \<Rightarrow> 'w ast run" where
  "handle fw Task_status cmdline st = on_sys (\<lambda>x. Done (check_task_status (fw_nvs fw) x)) st"
| "handle fw Pa_mic cmdline st = drop_result (start_player_recorder_case (fw_audio fw) 0 cmdline st)"
| "handle fw Mic_seal cmdline st = drop_result (start_player_recorder_case (fw_audio fw) 1 cmdline st)"
| "handle fw Dsp cmdline st = on_sys (\<lambda>x. Done (snd (start_dsp_check_case (fw_bds fw) None x))) st"
| "handle fw Nolinear cmdline st = drop_result (start_nolinear_case (fw_audio fw) cmdline st)"
| "handle fw Get_sn cmdline st =
     on_sys (\<lambda>x. Done (snd (get_sn_case (fw_nvs fw) [] MAX_DEVICE_SN_LENGTH x))) st"
| "handle fw Set_sn cmdline st = on_sys (\<lambda>x. Done (snd (set_sn_case (fw_nvs fw) cmdline x))) st"
| "handle fw Reset cmdline st = on_sys start_reset_system st"
| "handle fw Off cmdline st = on_sys (\<lambda>x. Done (start_poweroff_system (b_gpio (fw_board fw)) x)) st"
| "handle fw Fail cmdline st = on_sys (start_test_fail (b_gpio (fw_board fw))) st"
| "handle fw Intr cmdline st = on_sys (\<lambda>x. Done (snd (start_dsp_intr (fw_bds fw) x))) st"
| "handle fw Quit1 cmdline st = on_sys (\<lambda>(s, w). Done (start_quit1_case s, w)) st"
| "handle fw Quit2 cmdline st = on_sys (\<lambda>(s, w). Done (start_quit2_case s, w)) st"
| "handle fw Profile cmdline st = on_sys (start_profile_case (fw_part fw) cmdline) st"
| "handle fw Read_profile cmdline st = on_sys (profile_read (fw_part fw)) st"
| "handle fw Version cmdline st = on_sys (\<lambda>(s, w). Done (start_version_case s, w)) st"
| "handle fw Mic_seal_case cmdline st = on_sys (\<lambda>(s, w). Done (s, start_mic_seal_case fw cmdline w)) st"
| "handle fw Nothing cmdline st = Done st"

text \<open>The echo before the dispatch: a profile line holds secrets and is not repeated.\<close>

definition echo_text :: "string \<Rightarrow> string" where
  "echo_text cmdline =
     (if strstr cmdline ''profile'' then ''cmdline: prod_test profile ...'' @ newline
      else ''cmdline:'' @ cmdline @ '' '' @ newline)"

definition command_exec :: "'w firmware \<Rightarrow> string \<Rightarrow> 'w ast \<Rightarrow> 'w ast run" where
  "command_exec fw cmdline = (\<lambda>(m, s, p, w).
     handle fw (dispatch cmdline) cmdline (m, printf (echo_text cmdline) s, p, w))"

section \<open>The command task\<close>

text \<open>One round of the endless loop, and a number of rounds after the first status line.\<close>

definition command_round :: "'w firmware \<Rightarrow> 'w ast \<Rightarrow> 'w ast run" where
  "command_round fw = (\<lambda>(m, s, p, w).
     case read_command fw s w of
       None \<Rightarrow> Hang
     | Some (cmdline, s, w) \<Rightarrow> command_exec fw cmdline (m, s, p, w))"

fun command_rounds :: "'w firmware \<Rightarrow> nat \<Rightarrow> 'w ast \<Rightarrow> 'w ast run" where
  "command_rounds fw 0 st = Done st"
| "command_rounds fw (Suc n) st =
     (case command_round fw st of
        Done st \<Rightarrow> command_rounds fw n st
      | Restart st \<Rightarrow> Restart st | Hang \<Rightarrow> Hang | Crash c \<Rightarrow> Crash c)"

definition command_task :: "'w firmware \<Rightarrow> nat \<Rightarrow> 'w ast \<Rightarrow> 'w ast run" where
  "command_task fw n = (\<lambda>(m, s, p, w).
     let (s, w) = check_task_status (fw_nvs fw) (s, w) in command_rounds fw n (m, s, p, w))"

section \<open>The start of the system\<close>

definition monitor_init :: "'w firmware \<Rightarrow> sys \<times> 'w \<Rightarrow> int \<times> sys \<times> 'w" where
  "monitor_init fw = (\<lambda>(s, w).
     let (ok, w) = xTaskCreatePinnedToCore fw ''command_task'' w
     in if \<not> ok then (-1, printf ''start command_task fail!!'' s, w) else (0, s, w))"

text \<open>\<open>ESP_ERROR_CHECK\<close> stops the chip, which then restarts, on any error.\<close>

definition ESP_ERROR_CHECK :: "esp_err_t \<Rightarrow> 's \<Rightarrow> 's run" where
  "ESP_ERROR_CHECK rc st = (if rc \<noteq> ESP_OK then Restart st else Done st)"

fun run_then :: "'s run \<Rightarrow> ('s \<Rightarrow> 's run) \<Rightarrow> 's run" where
  "run_then (Done st) f = f st"
| "run_then (Restart st) f = Restart st"
| "run_then Hang f = Hang"
| "run_then (Crash c) f = Crash c"

text \<open>\<open>app_main\<close> up to its idle loop.\<close>

definition app_main :: "'w firmware \<Rightarrow> 'w ast \<Rightarrow> 'w ast run" where
  "app_main fw = (\<lambda>(m, s, p, w).
     let s = printf (''------------------> start <--------------------- '' @ newline) s;
         (ret, w) = nvs_flash_init fw w
     in run_then
          (if ret = nvs_no_free_pages fw
           then
             let (rc, w) = nvs_flash_erase fw w
             in run_then (ESP_ERROR_CHECK rc (m, s, p, w))
                  (\<lambda>(m, s, p, w). let (ret, w) = nvs_flash_init fw w in ESP_ERROR_CHECK ret (m, s, p, w))
           else ESP_ERROR_CHECK ret (m, s, p, w))
          (\<lambda>(m, s, p, w).
             run_then
               (if CONFIG_CUPID_BOARD_V2 fw
                then (case es7243e_init (b_i2c (fw_board fw)) (s, p_i2c p, w) of
                        Done (_, s, i, w) \<Rightarrow> Done (m, s, p\<lparr>p_i2c := i\<rparr>, w)
                      | Restart (_, s, i, w) \<Rightarrow> Restart (m, s, p\<lparr>p_i2c := i\<rparr>, w)
                      | Hang \<Rightarrow> Hang | Crash c \<Rightarrow> Crash c)
                else Done (m, s, p, w))
               (\<lambda>(m, s, p, w). let (_, s, w) = monitor_init fw (s, w) in Done (m, s, p, w))))"

end
