(* ===== verification/Monitor_Props.thy ===== *)
theory Monitor_Props
  imports Monitor Audio_Runs
begin

text \<open>
  The properties of the command monitor and of the firmware as a whole: which handler a line reaches,
  which it can never reach, setting and reading the serial number over the command line, and the
  invariant that every command keeps (the memory safety of whole histories is in \<open>Driver_Calls\<close>).
\<close>

section \<open>Choosing the handler\<close>

lemmas dispatch_simps = dispatch_def cm.equal_iff cmd_defs

text \<open>
  Every command of the protocol, given in full, reaches its own handler, and so do the commands with
  an argument, whatever the argument.  (The serial number and the profile are not among these, see
  below.)
\<close>

lemma dispatch_commands:
  "map dispatch [CMD_TASK, CMD_PA_MIC, CMD_SEAL, CMD_DSP, CMD_NOLINEAR, CMD_GET_SN, CMD_SET_SN, CMD_RST,
      CMD_OFF, CMD_FAIL, CMD_INTR, CMD_QUIT1, CMD_QUIT2, CMD_PROFILE, RD_PROFIEL, CMD_VERSION] =
    [Task_status, Pa_mic, Mic_seal, Dsp, Nolinear, Get_sn, Set_sn, Reset,
      Off, Fail, Intr, Quit1, Quit2, Profile, Read_profile, Version] \<and>
   dispatch (CMD_PA_MIC @ arg) = Pa_mic"
proof
  show "map dispatch [CMD_TASK, CMD_PA_MIC, CMD_SEAL, CMD_DSP, CMD_NOLINEAR, CMD_GET_SN, CMD_SET_SN, CMD_RST,
      CMD_OFF, CMD_FAIL, CMD_INTR, CMD_QUIT1, CMD_QUIT2, CMD_PROFILE, RD_PROFIEL, CMD_VERSION] =
    [Task_status, Pa_mic, Mic_seal, Dsp, Nolinear, Get_sn, Set_sn, Reset,
      Off, Fail, Intr, Quit1, Quit2, Profile, Read_profile, Version]"
    by code_simp
  have "string_content (CMD_PA_MIC @ arg) CMD_PA_MIC" by (rule cm.content_start) (simp add: cmd_defs)
  moreover have "\<not> string_equal (CMD_PA_MIC @ arg) CMD_TASK" by (simp add: cm.equal_iff cmd_defs)
  ultimately show "dispatch (CMD_PA_MIC @ arg) = Pa_mic" by (simp add: dispatch_def)
qed

text \<open>
  The second test for the seal command is dead code: a line that passes it has passed the first one
  before, so \<open>start_mic_seal_case\<close> is never called.
\<close>

lemma mic_seal_case_unreachable: "dispatch cmdline \<noteq> Mic_seal_case"
  by (simp add: dispatch_def)

text \<open>
  Truncated lines run commands.  The equality test accepts every initial segment of a command, and
  the first test wins: a single \<open>p\<close>, up to the full prefix shared by all commands, counts as the
  status command; one more letter resets the device, switches it off, or puts it into the endless
  failure loop.
\<close>

lemma dispatch_truncated:
  "(dispatch cmdline = Task_status \<longleftrightarrow> prefix cmdline CMD_TASK) \<and>
   map (\<lambda>n. dispatch (take n CMD_RST)) [1..<16] = replicate 10 Task_status @ replicate 5 Reset \<and>
   map (\<lambda>n. dispatch (take n CMD_OFF)) [11..<14] = replicate 3 Off \<and>
   map (\<lambda>n. dispatch (take n CMD_FAIL)) [11..<15] = replicate 4 Fail"
proof (intro conjI)
  show "dispatch cmdline = Task_status \<longleftrightarrow> prefix cmdline CMD_TASK"
    by (simp add: dispatch_def cm.equal_iff)
  show "map (\<lambda>n. dispatch (take n CMD_RST)) [1..<16] = replicate 10 Task_status @ replicate 5 Reset" by code_simp
  show "map (\<lambda>n. dispatch (take n CMD_OFF)) [11..<14] = replicate 3 Off" by code_simp
  show "map (\<lambda>n. dispatch (take n CMD_FAIL)) [11..<15] = replicate 4 Fail" by code_simp
qed

text \<open>
  The line that sets a serial number is scanned for three other commands first.  It begins with none of
  them, so a match lies in the number.
\<close>

lemma content_set_sn:
  assumes "p = CMD_PRE @ x # q" and "x \<noteq> CHR ''s''" and "\<not> sublist p sn"
  shows "\<not> string_content (CMD_SET_SN @ '' '' @ sn) p"
proof
  assume "string_content (CMD_SET_SN @ '' '' @ sn) p"
  from cm.content_sound [OF this] have "sublist (CHR ''p'' # tl p) (CMD_SET_SN @ '' '' @ sn)"
    using assms(1) by (simp add: CMD_PRE_def)
  then have "prefix p (CMD_SET_SN @ '' '' @ sn) \<or> sublist p sn"
    using assms(1) by (simp add: CMD_SET_SN_def CMD_PRE_def sublist_Cons_right)
  with assms show False by (auto simp: CMD_SET_SN_def CMD_PRE_def)
qed

lemma dispatch_set_sn:
  assumes "\<not> sublist CMD_PA_MIC sn" and "\<not> sublist CMD_SEAL sn" and "\<not> sublist CMD_NOLINEAR sn"
  shows "dispatch (CMD_SET_SN @ '' '' @ sn) = Set_sn"
proof -
  let ?c = "CMD_SET_SN @ '' '' @ sn"
  have no: "\<not> string_content ?c CMD_PA_MIC" "\<not> string_content ?c CMD_SEAL" "\<not> string_content ?c CMD_NOLINEAR"
    using content_set_sn [of CMD_PA_MIC "CHR ''p''" "''a_mic''"] content_set_sn [of CMD_SEAL "CHR ''m''" "''ic_seal''"]
      content_set_sn [of CMD_NOLINEAR "CHR ''n''" "''olinear''"] assms
    by (simp_all only: CMD_PA_MIC_def CMD_SEAL_def CMD_NOLINEAR_def append_Cons append_Nil) simp_all
  have "string_content ?c CMD_SET_SN" by (rule cm.content_start) (simp add: cmd_defs)
  moreover have "\<not> string_equal ?c CMD_TASK" "\<not> string_equal ?c CMD_DSP" "\<not> string_equal ?c CMD_GET_SN"
    by (simp_all add: cm.equal_iff cmd_defs)
  ultimately show ?thesis using no by (simp add: dispatch_def)
qed

text \<open>A number that contains one of the three is not stored: a test starts instead.\<close>

lemma set_sn_hijacked:
  "dispatch (CMD_SET_SN @ '' '' @ CMD_PA_MIC) = Pa_mic \<and> dispatch (CMD_SET_SN @ '' '' @ CMD_SEAL) = Mic_seal \<and>
   dispatch (CMD_SET_SN @ '' '' @ CMD_NOLINEAR) = Nolinear"
  by (intro conjI) code_simp+

text \<open>
  C16. Setting and reading the serial number over the command line: for a number of 1 to 30 characters
  that does not contain one of the commands pa\_mic, mic\_seal and nolinear in full, the line that sets it reaches
  \<open>set_sn_case\<close>, whatever else is in it, and the next \<open>get_sn\<close> line answers with that number, given an
  NVS library that keeps what is stored.
\<close>

theorem monitor_sn_roundtrip:
  assumes "nvs_documented (fw_nvs fw) stored" and "0 < length sn" and "length sn \<le> 30"
    and "\<not> sublist CMD_PA_MIC sn" and "\<not> sublist CMD_SEAL sn" and "\<not> sublist CMD_NOLINEAR sn"
  shows "\<exists>st1 m s p w. command_exec fw (CMD_SET_SN @ '' '' @ sn) st = Done st1 \<and>
    command_exec fw CMD_GET_SN st1 = Done (m, s, p, w) \<and>
    last (stdout s) = Text (result_line RESULT_GET_SN SUCCESS sn)"
proof -
  obtain m0 s0 p0 w0 where st: "st = (m0, s0, p0, w0)" by (cases st)
  let ?line = "CMD_SET_SN @ '' '' @ sn"
  obtain s1 w1 where set1: "set_sn_case (fw_nvs fw) ?line (printf (echo_text ?line) s0, w0) = (ESP_OK, s1, w1)"
    and get1: "\<And>s'. \<exists>s2 w2. get_sn_case (fw_nvs fw) [] MAX_DEVICE_SN_LENGTH (s', w1) = ((ESP_OK, sn), s2, w2) \<and>
      stdout s2 = stdout s' @ [Text (result_line RESULT_GET_SN SUCCESS sn)]"
    using sn_set_get [OF assms(1-3), of "printf (echo_text ?line) s0" w0 "[]"] by blast
  have g: "dispatch CMD_GET_SN = Get_sn" by code_simp
  have 1: "command_exec fw ?line st = Done (m0, s1, p0, w1)"
    unfolding st command_exec_def prod.case dispatch_set_sn [OF assms(4-6)] using set1 by simp
  from get1 [of "printf (echo_text CMD_GET_SN) s1"] obtain s2 w2 where
    "command_exec fw CMD_GET_SN (m0, s1, p0, w1) = Done (m0, s2, p0, w2)"
    "stdout s2 = stdout (printf (echo_text CMD_GET_SN) s1) @ [Text (result_line RESULT_GET_SN SUCCESS sn)]"
    by (auto simp: command_exec_def g)
  with 1 show ?thesis by auto
qed

section \<open>The heap under the handlers\<close>

text \<open>Most handlers print and nothing else; the ones that allocate keep what others own.\<close>

named_theorems keeps

lemma get_sn_keeps [keeps]:
  "get_sn_case api d n (s, w) = (r, s', w') \<Longrightarrow> heap_grows (heap s) (heap s')"
  by (auto simp: get_sn_case_def Let_def io_simps split: prod.splits if_splits)

lemma set_sn_keeps [keeps]:
  "set_sn_case api c (s, w) = (r, s', w') \<Longrightarrow> heap_grows (heap s) (heap s')"
  by (auto simp: set_sn_case_def set_sn_nvs_def Let_def io_simps split: prod.splits if_splits)

lemma check_task_status_keeps [keeps]:
  "check_task_status api (s, w) = (s', w') \<Longrightarrow> heap_grows (heap s) (heap s')"
  by (auto simp: check_task_status_def Let_def io_simps dest!: get_sn_keeps split: prod.splits if_splits)

lemma dsp_keeps [keeps]:
  "start_dsp_check_case api h (s, w) = (r, s', w') \<Longrightarrow> heap_grows (heap s) (heap s')"
  "start_dsp_intr api (s, w) = (r, s', w') \<Longrightarrow> heap_grows (heap s) (heap s')"
  by (auto simp: start_dsp_check_case_def dsp_sdk_init_def start_dsp_intr_def Let_def io_simps
      split: prod.splits option.splits if_splits)

lemma poweroff_keeps [keeps]:
  "start_poweroff_system api (s, w) = (s', w') \<Longrightarrow> heap_grows (heap s) (heap s')"
  by (auto simp: start_poweroff_system_def Let_def io_simps)

lemma profile_keeps [keeps]:
  assumes "start_profile_case api c (s, w) = Done (s', w')"
  shows "heap_grows (heap s) (heap s')"
  using start_profile_case_owned [OF _ assms] by (auto simp: heap_grows_def hp.owned_def)

lemma profile_read_keeps [keeps]:
  assumes "profile_read api (s, w) = Done (s', w')"
  shows "heap_grows (heap s) (heap s')"
proof -
  obtain q h where m: "malloc (heap s) = (q, h)" by (cases "malloc (heap s)")
  have "heap_grows (heap s) h" "heap_grows (heap s) (free_opt q h)"
    using heap_grows_malloc [of "heap s"] heap_grows_bracket [of "heap s"] m by simp_all
  then show ?thesis
    using assms m by (auto simp: profile_read_def io_malloc_def Let_def io_simps
        split: prod.splits option.splits if_splits)
qed

lemma audio_inv_keeps:
  assumes "audio_inv f fsz (m, s, p, w)" and "heap_grows (heap s) (heap s')"
  shows "audio_inv f fsz (m, s', p, w')"
proof -
  have "player_only s p s' p" by (rule player_only_grows [OF assms(2)]) simp_all
  note only = this
  have "\<forall>t \<in> set (tasks m). task_ok fsz p t" using audio_invD(4) [OF assms(1)] by simp
  then show ?thesis by (rule audio_inv_player [OF assms(1) only])
qed

lemma drop_result_Done: "drop_result x = Done st \<Longrightarrow> \<exists>r. x = Done (r, st)"
  by (cases x rule: drop_result.cases) auto

lemma snd_eqD: "snd x = y \<Longrightarrow> \<exists>r. x = (r, y)"
  by (cases x) simp

text \<open>Only the audio commands touch the driver and the tasks.\<close>

lemma on_sys_Done: "on_sys g (m, s, p, w) = Done (m', s', p', w') \<Longrightarrow> m' = m \<and> p' = p \<and> g (s, w) = Done (s', w')"
  by (auto split: run.splits)

lemma handle_quiet:
  assumes h: "handle fw a cmdline (m, s, p, w) = Done (m', s', p', w')" and a: "a \<notin> {Pa_mic, Mic_seal, Nolinear}"
  shows "m' = m \<and> p' = p \<and> heap_grows (heap s) (heap s')"
proof -
  note on = on_sys_Done [of _ m s p w m' s' p' w']
  show ?thesis
  proof (cases a)
    case Task_status from on [OF h [unfolded Task_status handle.simps]] show ?thesis by (auto dest!: keeps)
  next case Dsp from on [OF h [unfolded Dsp handle.simps]] show ?thesis by (auto dest!: snd_eqD keeps)
  next case Get_sn from on [OF h [unfolded Get_sn handle.simps]] show ?thesis by (auto dest!: snd_eqD keeps)
  next case Set_sn from on [OF h [unfolded Set_sn handle.simps]] show ?thesis by (auto dest!: snd_eqD keeps)
  next case Reset with h show ?thesis by (simp add: start_reset_system_def)
  next case Off from on [OF h [unfolded Off handle.simps]] show ?thesis by (auto dest!: keeps)
  next case Fail with h show ?thesis by (simp add: start_test_fail_def test_fail_loop_None)
  next case Intr from on [OF h [unfolded Intr handle.simps]] show ?thesis by (auto dest!: snd_eqD keeps)
  next case Quit1 from on [OF h [unfolded Quit1 handle.simps]] show ?thesis by (auto simp: start_quit1_case_def io_simps)
  next case Quit2 from on [OF h [unfolded Quit2 handle.simps]] show ?thesis by (auto simp: start_quit2_case_def io_simps)
  next case Profile from on [OF h [unfolded Profile handle.simps]] show ?thesis by (auto dest!: keeps)
  next case Read_profile from on [OF h [unfolded Read_profile handle.simps]] show ?thesis by (auto dest!: keeps)
  next case Version from on [OF h [unfolded Version handle.simps]] show ?thesis by (auto simp: start_version_case_def io_simps)
  next case Mic_seal_case from on [OF h [unfolded Mic_seal_case handle.simps]] show ?thesis by auto
  next case Nothing with h show ?thesis by simp
  qed (use a in simp_all)
qed

lemma handle_inv:
  assumes h: "handle fw a cmdline (m, s, p, w) = Done st'" and inv: "audio_inv f fsz (m, s, p, w)"
  shows "audio_inv f fsz st'"
proof -
  obtain m' s' p' w' where st': "st' = (m', s', p', w')" by (cases st')
  have mic: "audio_inv f fsz st'"
    if "drop_result (start_player_recorder_case (fw_audio fw) t cmdline (m, s, p, w)) = Done st'" for t
    using drop_result_Done [OF that] start_player_recorder_inv [OF _ inv] st' by blast
  have nolinear: "audio_inv f fsz st'"
    if "drop_result (start_nolinear_case (fw_audio fw) cmdline (m, s, p, w)) = Done st'"
    using drop_result_Done [OF that] start_nolinear_inv [OF _ inv] st' by blast
  consider "a = Pa_mic" | "a = Mic_seal" | "a = Nolinear" | "a \<notin> {Pa_mic, Mic_seal, Nolinear}" by blast
  then show ?thesis
  proof cases
    case 1 show ?thesis by (rule mic [OF h [unfolded 1 handle.simps]])
  next case 2 show ?thesis by (rule mic [OF h [unfolded 2 handle.simps]])
  next case 3 show ?thesis by (rule nolinear [OF h [unfolded 3 handle.simps]])
  next case 4
    from handle_quiet [OF h [unfolded st'] this] have q: "m' = m" "p' = p" "heap_grows (heap s) (heap s')" by blast+
    show ?thesis unfolding st' q(1,2) by (rule audio_inv_keeps [OF inv q(3)])
  qed
qed

section \<open>The whole firmware\<close>

text \<open>A history of the firmware: lines the host sends and tasks that run, in any order.\<close>

inductive fw_step :: "'w firmware \<Rightarrow> 'w ast \<Rightarrow> 'w ast \<Rightarrow> bool" for fw where
  command: "command_exec fw cmdline st = Done st' \<Longrightarrow> fw_step fw st st'"
| task: "i < length (tasks m) \<Longrightarrow> task_step (fw_audio fw) m (tasks m ! i) (s, p, w) = Done (t, s', p', w') \<Longrightarrow>
     fw_step fw (m, s, p, w) (m\<lparr>tasks := (tasks m)[i := t]\<rparr>, s', p', w')"

inductive fw_reach :: "'w firmware \<Rightarrow> 'w ast \<Rightarrow> 'w ast \<Rightarrow> bool" for fw st0 where
  start: "fw_reach fw st0 st0"
| step: "fw_reach fw st0 st \<Longrightarrow> fw_step fw st st' \<Longrightarrow> fw_reach fw st0 st'"

lemma command_inv:
  assumes c: "command_exec fw cmdline st = Done st'" and inv: "audio_inv f fsz st"
  shows "audio_inv f fsz st'"
proof -
  obtain m s p w where st: "st = (m, s, p, w)" by (cases st)
  have "audio_inv f fsz (m, printf (echo_text cmdline) s, p, w)"
    by (rule audio_inv_cong [OF inv [unfolded st]]) (simp_all add: io_simps)
  with c show ?thesis by (auto simp: st command_exec_def intro: handle_inv)
qed

lemma fw_step_inv:
  assumes "fw_step fw st st'" and inv: "audio_inv f fsz st"
    and doc: "pcm_documented (fw_audio fw) fsz" and wav: "wav_ok (fw_audio fw)"
  shows "audio_inv f fsz st'"
  using assms(1)
proof cases
  case (command cmdline)
  then show ?thesis by (rule command_inv [OF _ inv])
next
  case (task i m s p w t s' p' w')
  with task_step_safe [OF _ _ doc wav, of f m s p w i] inv show ?thesis by auto
qed

lemma fw_reach_inv:
  "fw_reach fw st0 st \<Longrightarrow> audio_inv f fsz st0 \<Longrightarrow> pcm_documented (fw_audio fw) fsz \<Longrightarrow>
     wav_ok (fw_audio fw) \<Longrightarrow> audio_inv f fsz st"
  by (induction rule: fw_reach.induct) (auto intro: fw_step_inv)

text \<open>A firmware on the board of the examples whose flash and DSP do nothing.\<close>

definition demo_fw :: "mem_i2c firmware" where
  "demo_fw = \<lparr>fw_audio = mic_api,
     fw_nvs = \<lparr>nvs_open = \<lambda>_ _ w. ((-1, 0), w), nvs_get_str = \<lambda>_ _ _ w. ((-1, None), w),
       nvs_set_str = \<lambda>_ _ _ w. (-1, w), nvs_close = \<lambda>_ w. w, nvs_invalid_length = 0x110C\<rparr>,
     fw_part = \<lparr>part_find = \<lambda>_ _ _. None, part_size = \<lambda>_. 0, part_erase = \<lambda>_ _ _ w. (-1, w),
       part_write = \<lambda>_ _ _ w. (-1, w), part_read = \<lambda>_ _ _ w. ((-1, []), w)\<rparr>,
     fw_bds = \<lparr>bds_client_create = \<lambda>w. (None, w), bds_client_config = \<lambda>_ _ w. w,
       bds_set_log_level = \<lambda>_ w. w, bds_client_start = \<lambda>_ w. (-1, w), bds_switch_self_test = \<lambda>_ w. w,
       bds_gpio_intr_test = \<lambda>_ _ w. (0, w)\<rparr>,
     uart_rx_one_char = (\<lambda>w. (None, w)), UartRxString = (\<lambda>n w. (CMD_TASK, w)),
     start_mic_seal_case = (\<lambda>_ w. w), xTaskCreatePinnedToCore = (\<lambda>_ w. (True, w)),
     nvs_flash_init = (\<lambda>w. (0, w)), nvs_flash_erase = (\<lambda>w. (0, w)), nvs_no_free_pages = 0x110D,
     CONFIG_CUPID_BOARD_V2 = False\<rparr>"

section \<open>Reading a line\<close>

text \<open>
  A UART with nothing left in its receive buffer between the lines, that delivers the lines of a list
  one after the other.
\<close>

definition uart_lines :: "'w firmware \<Rightarrow> ('w \<Rightarrow> string list) \<Rightarrow> bool" where
  "uart_lines fw lns \<longleftrightarrow>
     (\<forall>w. \<exists>w'. uart_rx_one_char fw w = (None, w') \<and> lns w' = lns w) \<and>
     (\<forall>w l ls. lns w = l # ls \<longrightarrow> (\<exists>w'. UartRxString fw 255 w = (l, w') \<and> lns w' = ls))"

lemma read_command_line:
  assumes u: "uart_lines fw lns" and w: "lns w = l # ls"
  obtains w' where "lns w' = ls" and
    "read_command fw s w =
       (if trim_trailing_space l = [] then read_command fw (monitor_help s) w'
        else Some (trim_trailing_space l, s, w'))"
proof -
  obtain w1 where 1: "uart_rx_one_char fw w = (None, w1)" "lns w1 = lns w"
    using u unfolding uart_lines_def by blast
  then obtain w2 where 2: "UartRxString fw 255 w1 = (l, w2)" "lns w2 = ls"
    using u w unfolding uart_lines_def by metis
  have "flush_rx fw w = Some w1" by (subst flush_rx.simps) (simp add: 1)
  then show thesis
    by (intro that [OF 2(2)]) (subst read_command.simps, simp add: 2(1))
qed

text \<open>
  C27. Reading a command ends with the first line that is not blank: it returns that line without its
  trailing white space, and prints the menu once for each blank line before it.
\<close>

theorem read_command_returns:
  assumes "uart_lines fw lns" and "lns w = blanks @ line # rest"
    and "\<forall>l \<in> set blanks. trim_trailing_space l = []" and "trim_trailing_space line \<noteq> []"
  shows "\<exists>w'. lns w' = rest \<and>
    read_command fw s w = Some (trim_trailing_space line, (monitor_help ^^ length blanks) s, w')"
  using assms(2,3)
proof (induction blanks arbitrary: s w)
  case Nil
  then show ?case using read_command_line [OF assms(1), of w line rest s] assms(4) by auto
next
  case (Cons b bs)
  then obtain w1 where 1: "lns w1 = bs @ line # rest" "read_command fw s w = read_command fw (monitor_help s) w1"
    using read_command_line [OF assms(1), of w b "bs @ line # rest" s] by auto
  from Cons.IH [OF 1(1), of "monitor_help s"] Cons.prems(2) 1(2) show ?case
    by (simp add: funpow_swap1)
qed

text \<open>A UART whose lines are the state of the world itself.\<close>

definition list_fw :: "string list firmware" where
  "list_fw = undefined\<lparr>uart_rx_one_char := (\<lambda>w. (None, w)), UartRxString := (\<lambda>n w. (hd w, tl w))\<rparr>"

theorem read_command_returns_witness:
  "\<exists>w'. read_command list_fw sys0 [''  '', ''prod_test off  ''] = Some (CMD_OFF, monitor_help sys0, w')"
proof -
  let ?l = "''prod_test off  ''"
  have u: "uart_lines list_fw id" by (simp add: uart_lines_def list_fw_def)
  have l: "id [''  '', ?l] = [''  ''] @ ?l # []" by simp
  have b: "\<forall>l \<in> set [''  '']. trim_trailing_space l = []" by code_simp
  have t: "trim_trailing_space ?l = CMD_OFF" by code_simp
  have n: "trim_trailing_space ?l \<noteq> []" unfolding t by (simp add: cmd_defs)
  have "length [''  ''] = Suc 0" by simp
  with read_command_returns [where fw = list_fw and lns = id and blanks = "[''  '']" and line = ?l and s = sys0, OF u l b n]
  show ?thesis unfolding t by auto
qed

section \<open>The status line and the start\<close>

text \<open>
  The status line always says success, even when the serial number cannot be read: the error code
  is then the text after the word success, and another line with the error comes before it.
\<close>

lemma check_task_status_always_success:
  "case check_task_status api (s, w) of (s', w') \<Rightarrow>
     \<exists>line text. stdout s' = stdout s @ [line, Text (result_line RESULT_TASK SUCCESS text)]"
  by (auto simp: check_task_status_def get_sn_case_def Let_def io_simps split: prod.splits if_splits)

text \<open>A firmware with the NVS of the examples.\<close>

definition sn_fw :: "(string option \<times> nat list) firmware" where
  "sn_fw = undefined\<lparr>fw_nvs := mem_nvs\<rparr>"

theorem monitor_sn_roundtrip_witness:
  "\<exists>st1 m s p w. command_exec sn_fw (CMD_SET_SN @ '' '' @ ''cup-prod_test-0042'') (audio0, sys0, player0, None, []) = Done st1 \<and>
    command_exec sn_fw CMD_GET_SN st1 = Done (m, s, p, w) \<and>
    last (stdout s) = Text (result_line RESULT_GET_SN SUCCESS ''cup-prod_test-0042'')"
proof -
  have d: "nvs_documented (fw_nvs sn_fw) fst" using mem_nvs_documented by (simp add: sn_fw_def)
  have "0 < length ''cup-prod_test-0042''" "length ''cup-prod_test-0042'' \<le> 30" 
    "\<not> sublist CMD_PA_MIC ''cup-prod_test-0042''" "\<not> sublist CMD_SEAL ''cup-prod_test-0042''"
    "\<not> sublist CMD_NOLINEAR ''cup-prod_test-0042''" by (simp_all add: cmd_defs sublist_Cons_right)
  from monitor_sn_roundtrip [OF d this] show ?thesis by blast
qed

end
