(* ===== verification/Audio_Schedules.thy ===== *)
theory Audio_Schedules
  imports Audio_Runs
begin

text \<open>
  The audio tasks under a scheduler.  A schedule is the list of the tasks that run, one after the
  other; \<open>run_tasks\<close> runs it.  Every task ends after a bounded number of its own turns (\<open>turns\<close>),
  whatever turns the others get in between, and what a recording sends is what the microphones
  delivered, however the other tasks are interleaved with it.
\<close>

section \<open>Schedules\<close>

fun run_tasks :: "'w audio_api \<Rightarrow> nat list \<Rightarrow> 'w ast \<Rightarrow> 'w ast run" where
  "run_tasks api [] st = Done st"
| "run_tasks api (i # is) (m, s, p, w) =
     (if i < length (tasks m)
      then case task_step api m (tasks m ! i) (s, p, w) of
             Done (t, s, p, w) \<Rightarrow> run_tasks api is (m\<lparr>tasks := (tasks m)[i := t]\<rparr>, s, p, w)
           | Restart (t, s, p, w) \<Rightarrow> Restart (m\<lparr>tasks := (tasks m)[i := t]\<rparr>, s, p, w)
           | Hang \<Rightarrow> Hang | Crash c \<Rightarrow> Crash c
      else run_tasks api is (m, s, p, w))"

text \<open>The turns a task has left at most.\<close>

fun turns :: "audio_kind \<times> task_pc \<Rightarrow> nat" where
  "turns (k, Playing P_Start) = nat (PLAYER_PCM_SIZE k) div PLAYER_FRAME_SIZE + 3"
| "turns (k, Playing (P_Write n off)) = nat (PLAYER_PCM_SIZE k - n) div PLAYER_FRAME_SIZE + 2"
| "turns (k, Playing P_Stop) = 1"
| "turns (k, Playing P_End) = 0"
| "turns (k, Recording R_Start) = RECORDER_PCM_SIZE k + RECORDER_PCM_SIZE k div UART_OUT_SIZE + 5"
| "turns (k, Recording (R_Read h mini a data n)) =
     nat (int (RECORDER_PCM_SIZE k) - n) + RECORDER_PCM_SIZE k div UART_OUT_SIZE + 4"
| "turns (k, Recording (R_Close h a data)) = length data div UART_OUT_SIZE + 3"
| "turns (k, Recording (R_Send u a data pos)) = (length data - pos) div UART_OUT_SIZE + 2"
| "turns (k, Recording (R_Free a)) = 1"
| "turns (k, Recording R_End) = 0"

lemma turns_0: "turns t = 0 \<longleftrightarrow> snd t \<in> {Playing P_End, Recording R_End}"
  by (cases t rule: turns.cases) auto

lemma turns_start:
  "turns (Player_recorder_case, Playing P_Start) = 190" "turns (Nolinear_case, Playing P_Start) = 940"
  "turns (Player_recorder_case, Recording R_Start) = 193406"
  "turns (Nolinear_case, Recording R_Start) = 965984"
  by (simp_all add: PLAYER_FRAME_SIZE_def UART_OUT_SIZE_def)

section \<open>Every turn counts\<close>

lemma div_step: "0 < (d :: nat) \<Longrightarrow> d \<le> n \<Longrightarrow> (n - d) div d < n div d"
  by (simp add: le_div_geq)

lemma player_turn:
  assumes "player_exec api k hdr pc (s, p, w) = Done (pc', s', p', w')"
  shows "turns (k, Playing pc') \<le> turns (k, Playing pc) - 1"
proof (cases pc)
  case (P_Write n off)
  have "pc' = P_Stop \<or>
      (pc' = P_Write (n + int PLAYER_FRAME_SIZE) (off + PLAYER_FRAME_SIZE) \<and>
       n + int PLAYER_FRAME_SIZE \<le> PLAYER_PCM_SIZE k)"
    using assms by (auto simp: P_Write Let_def not_less simp del: PLAYER_PCM_SIZE.simps
        split: if_splits run.splits prod.splits)
  then show ?thesis
  proof
    assume a: "pc' = P_Write (n + int PLAYER_FRAME_SIZE) (off + PLAYER_FRAME_SIZE) \<and>
       n + int PLAYER_FRAME_SIZE \<le> PLAYER_PCM_SIZE k"
    have "nat (PLAYER_PCM_SIZE k - (n + int PLAYER_FRAME_SIZE)) = nat (PLAYER_PCM_SIZE k - n) - PLAYER_FRAME_SIZE"
      by simp
    moreover have "PLAYER_FRAME_SIZE \<le> nat (PLAYER_PCM_SIZE k - n)" using a by linarith
    ultimately show ?thesis
      using a div_step [of PLAYER_FRAME_SIZE "nat (PLAYER_PCM_SIZE k - n)"]
      by (simp add: P_Write PLAYER_FRAME_SIZE_def del: PLAYER_PCM_SIZE.simps)
  qed (simp add: P_Write)
qed (use assms in \<open>auto simp: duer_audio_dac_start_play_def Let_def split: prod.splits\<close>)

lemma recorder_turn:
  assumes doc: "pcm_documented api fsz" and prog: "pcm_progress api"
    and ok: "task_ok fsz p (k, Recording pc)"
    and ex: "recorder_exec api k hdr pc (s, w) = Done (pc', s', w')"
  shows "turns (k, Recording pc') \<le> turns (k, Recording pc) - 1"
proof (cases pc)
  case R_Start
  with ex show ?thesis
    by (auto simp: Let_def simp del: RECORDER_PCM_SIZE.simps split: prod.splits option.splits)
next
  case (R_Read h mini a data n)
  let ?N = "int (RECORDER_PCM_SIZE k)"
  have ok': "length data = RECORDER_PCM_SIZE k" "0 \<le> n" using ok by (simp_all add: R_Read)
  obtain ret bs ol w1 where rd: "bds_pcm_read api h w = ((ret, bs, ol), w1)"
    by (cases "bds_pcm_read api h w") auto
  have "0 < ol" if "0 \<le> ret" using prog rd that unfolding pcm_progress_def by blast
  then have "(\<exists>data'. pc' = R_Close h a data' \<and> length data' = RECORDER_PCM_SIZE k) \<or>
      (\<exists>data'. pc' = R_Read h mini a data' (n + ol) \<and> n + ol < ?N \<and> 0 < ol)"
    using ex ok' by (auto simp: R_Read rd Let_def dest: store_bytes_length simp del: RECORDER_PCM_SIZE.simps
        split: if_splits option.splits)
  then show ?thesis using ok'(2) by (auto simp: R_Read simp del: RECORDER_PCM_SIZE.simps)
next
  case (R_Send u a data pos)
  have "pc' = R_Free a \<or> pc' = R_Send u a data (pos + UART_OUT_SIZE) \<and> pos + UART_OUT_SIZE < length data"
    using ex by (auto simp: R_Send data_out_pass_def Let_def split: if_splits)
  then show ?thesis
  proof
    assume a: "pc' = R_Send u a data (pos + UART_OUT_SIZE) \<and> pos + UART_OUT_SIZE < length data"
    then have "(length data - pos - UART_OUT_SIZE) div UART_OUT_SIZE < (length data - pos) div UART_OUT_SIZE"
      by (intro div_step) (auto simp: UART_OUT_SIZE_def)
    with a show ?thesis by (simp add: R_Send)
  qed (simp add: R_Send)
qed (use ex in auto)

lemma task_turn:
  assumes "pcm_documented api fsz" and "pcm_progress api" and "task_ok fsz p t"
    and "task_step api m t (s, p, w) = Done (t', s', p', w')"
  shows "turns t' \<le> turns t - 1"
proof -
  obtain k c where t: "t = (k, c)" by (cases t)
  show ?thesis
  proof (cases c)
    case (Playing pc)
    with assms(4) show ?thesis by (auto simp: t dest: player_turn split: run.splits)
  next
    case (Recording pc)
    with assms(4) recorder_turn [OF assms(1,2) assms(3) [unfolded t Recording]] show ?thesis
      by (auto simp: t split: run.splits)
  qed
qed

text \<open>Running a schedule: it never fails, keeps the invariant, and each task has had its turns.\<close>

lemma run_tasks_turns:
  assumes doc: "pcm_documented api fsz" and prog: "pcm_progress api" and wav: "wav_ok api"
  shows "audio_inv f fsz (m, s, p, w) \<Longrightarrow>
    \<exists>m' s' p' w'. run_tasks api is (m, s, p, w) = Done (m', s', p', w') \<and> audio_inv f fsz (m', s', p', w') \<and>
      length (tasks m') = length (tasks m) \<and>
      (\<forall>i < length (tasks m). turns (tasks m' ! i) \<le> turns (tasks m ! i) - count_list is i)"
proof (induction "is" arbitrary: m s p w)
  case (Cons i "is")
  show ?case
  proof (cases "i < length (tasks m)")
    case True
    obtain t s1 p1 w1 where t: "task_step api m (tasks m ! i) (s, p, w) = Done (t, s1, p1, w1)"
      and inv: "audio_inv f fsz (m\<lparr>tasks := (tasks m)[i := t]\<rparr>, s1, p1, w1)"
      using task_step_safe [OF Cons.prems True doc wav] by blast
    have tt: "turns t \<le> turns (tasks m ! i) - 1"
      by (rule task_turn [OF doc prog audio_invD(4) [OF Cons.prems nth_mem [OF True]] t])
    from Cons.IH [OF inv] obtain m' s' p' w' where r:
      "run_tasks api is (m\<lparr>tasks := (tasks m)[i := t]\<rparr>, s1, p1, w1) = Done (m', s', p', w')"
      "audio_inv f fsz (m', s', p', w')" "length (tasks m') = length (tasks m)"
      "\<forall>j < length (tasks m). turns (tasks m' ! j) \<le> turns ((tasks m)[i := t] ! j) - count_list is j" by auto
    have "turns (tasks m' ! j) \<le> turns (tasks m ! j) - count_list (i # is) j" if "j < length (tasks m)" for j
      using r(4) [rule_format, OF that] tt that by (cases "j = i") auto
    with r t True show ?thesis by auto
  next
    case False
    from Cons.IH [OF Cons.prems] False show ?thesis by auto
  qed
qed simp

text \<open>So all tasks end in a schedule in which each of them gets the turns it has left.\<close>

lemma schedule_ends:
  assumes "pcm_documented api fsz" and "pcm_progress api" and "wav_ok api"
    and "audio_inv f fsz (m, s, p, w)" and "\<forall>i < length (tasks m). turns (tasks m ! i) \<le> count_list is i"
  shows "\<exists>m' s' p' w'. run_tasks api is (m, s, p, w) = Done (m', s', p', w') \<and> audio_inv f fsz (m', s', p', w') \<and>
    length (tasks m') = length (tasks m) \<and> (\<forall>t \<in> set (tasks m'). snd t \<in> {Playing P_End, Recording R_End})"
proof -
  from run_tasks_turns [OF assms(1-4), of "is"] obtain m' s' p' w' where
    r: "run_tasks api is (m, s, p, w) = Done (m', s', p', w')" "audio_inv f fsz (m', s', p', w')"
      "length (tasks m') = length (tasks m)"
      "\<forall>i < length (tasks m). turns (tasks m' ! i) \<le> turns (tasks m ! i) - count_list is i" by blast
  have "turns (tasks m' ! i) = 0" if "i < length (tasks m)" for i
    using r(4) assms(5) that by (metis diff_is_0_eq le_0_eq)
  then have "\<forall>t \<in> set (tasks m'). turns t = 0" using r(3) by (metis in_set_conv_nth)
  with r show ?thesis by (auto simp: turns_0)
qed

lemma count_replicate: "count_list (replicate a x) z = (if x = z then a else 0)"
  by (induction a) auto

section \<open>What the host sees\<close>

text \<open>The frames in the output: the calls of \<open>fwrite\<close>, without the texts between them.\<close>

fun host_frames :: "out_item list \<Rightarrow> u8 list list" where
  "host_frames [] = []"
| "host_frames (Text t # xs) = host_frames xs"
| "host_frames (Bytes f # xs) = f # host_frames xs"

lemma host_frames_append [simp]: "host_frames (xs @ ys) = host_frames xs @ host_frames ys"
  by (induction xs rule: host_frames.induct) simp_all

text \<open>The same as they leave the console; the host undoes \<open>crlf\<close>.\<close>

definition console_frames :: "out_item list \<Rightarrow> u8 list list" where
  "console_frames out = map crlf (host_frames out)"

text \<open>A step that sends no frame, leaves the frame counter alone and does not use memory up.\<close>

definition quiet :: "sys \<Rightarrow> sys \<Rightarrow> bool" where
  "quiet s s' \<longleftrightarrow> host_frames (stdout s') = host_frames (stdout s) \<and> g_idx s' = g_idx s \<and>
     h_ok (heap s') = h_ok (heap s)"

lemma quiet_refl: "quiet s s"
  by (simp add: quiet_def)

lemma quiet_trans: "quiet s1 s2 \<Longrightarrow> quiet s2 s3 \<Longrightarrow> quiet s1 s3"
  by (simp add: quiet_def)

lemma quiet_io:
  "quiet s (printf t s') = quiet s s'" "quiet s (vTaskDelay n s') = quiet s s'"
  "quiet s (io_free q s') = quiet s s'" "quiet s (out_print_result c r e s') = quiet s s'"
  by (simp_all add: quiet_def io_simps)

lemma quiet_malloc: "io_malloc s = (q, s') \<Longrightarrow> quiet s s'"
  by (auto simp: quiet_def io_malloc_def malloc_def split: if_splits)

lemma quiet_fold_printf: "quiet s (fold printf ts s)"
proof (induction ts arbitrary: s)
  case (Cons t ts)
  have "quiet s (printf t s)" by (simp add: quiet_io quiet_refl)
  from quiet_trans [OF this Cons [of "printf t s"]] show ?case by simp
qed (simp add: quiet_refl)

lemma quiet_zero_data: "dac_write_zero_data b (s, p, w) = (r, s', p', w') \<Longrightarrow> quiet s s'"
  by (auto simp: dac_write_zero_data_def Let_def quiet_io dest!: quiet_malloc
      split: prod.splits option.splits)

lemma quiet_wait_play_end: "duer_audio_dac_wait_play_end b (s, p, w) = (r, s', p', w') \<Longrightarrow> quiet s s'"
  by (auto simp: duer_audio_dac_wait_play_end_def Let_def dest!: quiet_zero_data split: prod.splits)

lemma quiet_unload: "duer_audio_dac_unload_driver b (s, p, w) = (r, s', p', w') \<Longrightarrow> quiet s s'"
  by (auto simp: duer_audio_dac_unload_driver_def Let_def quiet_io quiet_refl
      split: prod.splits if_splits)

lemma quiet_write: "duer_audio_dac_write b t buf sz (s, p, w) = Done (r, s', p', w') \<Longrightarrow> quiet s s'"
  by (auto simp: duer_audio_dac_write_def Let_def quiet_io quiet_refl intro: quiet_fold_printf
      split: prod.splits option.splits if_splits)

lemma quiet_player: "player_exec api k hdr pc (s, p, w) = Done (pc', s', p', w') \<Longrightarrow> quiet s s'"
  by (cases pc)
     (auto simp: Let_def duer_audio_dac_start_play_def quiet_io quiet_refl
       dest!: quiet_write quiet_wait_play_end quiet_unload intro: quiet_trans simp del: PLAYER_PCM_SIZE.simps
       split: prod.splits run.splits if_splits)

section \<open>A recording under a schedule\<close>

text \<open>The bytes that the reads of task \<open>r\<close> deliver during a schedule.\<close>

fun read_turn :: "'w audio_api \<Rightarrow> audio_kind \<times> task_pc \<Rightarrow> 'w \<Rightarrow> u8 list" where
  "read_turn api (k, Recording (R_Read h mini a data n)) w =
     (if n + mini > int (RECORDER_PCM_SIZE k) then []
      else case bds_pcm_read api h w of ((ret, bs, out_length), w') \<Rightarrow> bs)"
| "read_turn api t w = []"

fun mic_reads :: "'w audio_api \<Rightarrow> nat \<Rightarrow> nat list \<Rightarrow> 'w ast \<Rightarrow> u8 list" where
  "mic_reads api r [] st = []"
| "mic_reads api r (i # is) (m, s, p, w) =
     (if i < length (tasks m)
      then case task_step api m (tasks m ! i) (s, p, w) of
             Done (t, s', p', w') \<Rightarrow>
               (if i = r then read_turn api (tasks m ! i) w else []) @
               mic_reads api r is (m\<lparr>tasks := (tasks m)[i := t]\<rparr>, s', p', w')
           | _ \<Rightarrow> []
      else mic_reads api r is (m, s, p, w))"

text \<open>A recorder that can always be opened; one whose reads do not fail.\<close>

definition pcm_opens :: "'w audio_api \<Rightarrow> bool" where
  "pcm_opens api \<longleftrightarrow> (\<forall>w. \<exists>h mini w'. bds_pcm_open api recorder_pam w = ((Some h, mini), w'))"

definition pcm_reads_ok :: "'w audio_api \<Rightarrow> bool" where
  "pcm_reads_ok api \<longleftrightarrow> (\<forall>h w. 0 \<le> fst (fst (bds_pcm_read api h w)))"

text \<open>The only task that is recording is number \<open>r\<close>.\<close>

definition only_recording :: "nat \<Rightarrow> (audio_kind \<times> task_pc) list \<Rightarrow> bool" where
  "only_recording r ts \<longleftrightarrow>
     (\<forall>i < length ts. i \<noteq> r \<longrightarrow> (case snd (ts ! i) of Playing _ \<Rightarrow> True | Recording pc \<Rightarrow> pc = R_End))"

lemma only_recordingD:
  "only_recording r ts \<Longrightarrow> i < length ts \<Longrightarrow> i \<noteq> r \<Longrightarrow> ts ! i = (k, Recording pc) \<Longrightarrow> pc = R_End"
  by (auto simp: only_recording_def)

lemma only_recording_update:
  "only_recording r ts \<Longrightarrow> i = r \<or> snd t = Recording R_End \<or> (\<exists>pc. snd t = Playing pc) \<Longrightarrow>
     only_recording r (ts[i := t])"
  by (cases "i < length ts") (auto simp: only_recording_def nth_list_update)

text \<open>
  What is true of a recording at each point of its task, when \<open>got\<close> has been delivered so far: \<open>F\<close> and
  \<open>g\<close> are the frames and the frame counter at its start.
\<close>

definition frames_of :: "string \<Rightarrow> int \<Rightarrow> (nat \<Rightarrow> nat \<Rightarrow> u8) \<Rightarrow> u8 list \<Rightarrow> nat \<Rightarrow> u8 list list" where
  "frames_of hdr g junk data n = map (\<lambda>j. frame hdr (g + int j) (junk j) (chunk data j)) [0..<n]"

definition got_ok :: "'w audio_api \<Rightarrow> int \<Rightarrow> audio_kind \<Rightarrow> u8 list \<Rightarrow> u8 list \<Rightarrow> bool" where
  "got_ok api fsz k got data \<longleftrightarrow> (\<exists>tail. data = got @ tail \<and> length data = RECORDER_PCM_SIZE k \<and>
     (pcm_reads_ok api \<longrightarrow> int (length tail) < fsz))"

definition all_sent ::
  "'w audio_api \<Rightarrow> int \<Rightarrow> audio_kind \<Rightarrow> string \<Rightarrow> u8 list list \<Rightarrow> int \<Rightarrow> u8 list \<Rightarrow> sys \<Rightarrow> bool" where
  "all_sent api fsz k hdr F g got s \<longleftrightarrow> (\<exists>data junk. got_ok api fsz k got data \<and>
     host_frames (stdout s) = F @ frames_of hdr g junk data (RECORDER_PCM_SIZE k div UART_OUT_SIZE))"

fun recording_ok ::
  "'w audio_api \<Rightarrow> int \<Rightarrow> audio_kind \<Rightarrow> string \<Rightarrow> u8 list list \<Rightarrow> int \<Rightarrow> u8 list \<Rightarrow> sys \<Rightarrow> recorder_pc \<Rightarrow> bool" where
  "recording_ok api fsz k hdr F g got s R_Start \<longleftrightarrow> host_frames (stdout s) = F \<and> g_idx s = g \<and> got = []"
| "recording_ok api fsz k hdr F g got s (R_Read h mini a data n) \<longleftrightarrow>
     host_frames (stdout s) = F \<and> g_idx s = g \<and> n = int (length got) \<and> (\<exists>tail. data = got @ tail)"
| "recording_ok api fsz k hdr F g got s (R_Close h a data) \<longleftrightarrow>
     host_frames (stdout s) = F \<and> g_idx s = g \<and> got_ok api fsz k got data"
| "recording_ok api fsz k hdr F g got s (R_Send t a data pos) \<longleftrightarrow> t = hdr \<and> got_ok api fsz k got data \<and>
     (\<exists>j junk. pos = UART_OUT_SIZE * j \<and> pos < length data \<and> g_idx s = g + int j \<and>
        host_frames (stdout s) = F @ frames_of hdr g junk data j)"
| "recording_ok api fsz k hdr F g got s (R_Free a) \<longleftrightarrow> all_sent api fsz k hdr F g got s"
| "recording_ok api fsz k hdr F g got s R_End \<longleftrightarrow> all_sent api fsz k hdr F g got s"

lemma recording_ok_quiet:
  "quiet s s' \<Longrightarrow> recording_ok api fsz k hdr F g got s pc \<Longrightarrow> recording_ok api fsz k hdr F g got s' pc"
  by (cases pc) (auto simp: quiet_def all_sent_def)

text \<open>Storing what is read behind what is there.\<close>

lemma store_behind:
  assumes "store_bytes (got @ tail) (int (length got)) bs = Some data'"
  shows "\<exists>tail'. data' = got @ bs @ tail' \<and> length tail = length bs + length tail'"
  using assms by (auto simp: store_bytes_def split: if_splits)

lemma SIZE_whole: "UART_OUT_SIZE * (RECORDER_PCM_SIZE k div UART_OUT_SIZE) = RECORDER_PCM_SIZE k" "0 < RECORDER_PCM_SIZE k"
  by (cases k; simp add: UART_OUT_SIZE_def)+

text \<open>One pass of the sending loop sends the next frame.\<close>

lemma frames_of_Suc:
  "frames_of hdr g junk data j @ [frame hdr (g + int j) f (chunk data j)] =
     frames_of hdr g (junk(j := f)) data (Suc j)"
  by (auto simp: frames_of_def)

lemma send_turn:
  assumes len: "length data = RECORDER_PCM_SIZE k" and pos: "pos = UART_OUT_SIZE * j" "pos < length data"
    and g: "g_idx s = g + int j" and F: "host_frames (stdout s) = F @ frames_of hdr g junk data j"
    and ok: "\<forall>n. h_ok (heap s) n" and p: "data_out_pass hdr data pos s = (q, s')"
  shows "(\<forall>n. h_ok (heap s') n) \<and> g_idx s' = g + int (Suc j) \<and>
    (\<exists>junk. host_frames (stdout s') = F @ frames_of hdr g junk data (Suc j)) \<and>
    (case q of None \<Rightarrow> Suc j = RECORDER_PCM_SIZE k div UART_OUT_SIZE
     | Some pos' \<Rightarrow> pos' = UART_OUT_SIZE * Suc j \<and> pos' < length data)"
proof -
  define n where "n = RECORDER_PCM_SIZE k div UART_OUT_SIZE"
  have n: "length data = UART_OUT_SIZE * n" using len SIZE_whole [of k] by (simp add: n_def)
  have u: "0 < UART_OUT_SIZE" by (simp add: UART_OUT_SIZE_def)
  have jn: "j < n" using pos n u by simp
  then have "UART_OUT_SIZE * Suc j \<le> UART_OUT_SIZE * n" by (intro mult_left_mono) simp_all
  then have le: "pos + UART_OUT_SIZE \<le> length data" using pos n by simp
  let ?s1 = "out_print_data hdr (chunk data j) s"
  have c: "take UART_OUT_SIZE (drop pos data) = chunk data j" by (simp add: chunk_def pos)
  have "host_frames (stdout ?s1) = F @ frames_of hdr g junk data j @
      [frame hdr (g + int j) (stack_junk s (h_next (heap s))) (chunk data j)]"
    using F ok g by (simp add: io_simps frame_item_def)
  then have fr: "\<exists>junk. host_frames (stdout ?s1) = F @ frames_of hdr g junk data (Suc j)"
    unfolding frames_of_Suc by blast
  have s': "s' = ?s1 \<and> q = None \<and> pos + UART_OUT_SIZE \<ge> length data \<or>
      s' = vTaskDelay 6 ?s1 \<and> q = Some (pos + UART_OUT_SIZE) \<and> pos + UART_OUT_SIZE < length data"
    using p le by (auto simp: data_out_pass_def Let_def c split: if_splits)
  have "Suc j = n" if "pos + UART_OUT_SIZE \<ge> length data"
  proof -
    have "UART_OUT_SIZE * n \<le> UART_OUT_SIZE * Suc j" using that pos n by simp
    then have "n \<le> Suc j" using u by (metis mult_le_cancel1)
    with jn show ?thesis by simp
  qed
  with s' fr ok g pos show ?thesis by (auto simp: io_simps n_def)
qed

text \<open>One turn of the recorder.\<close>

lemma recording_ok_turn:
  assumes doc: "pcm_documented api fsz" and prog: "pcm_progress api" and op: "pcm_opens api"
    and ok: "recording_ok api fsz k hdr F g got s pc" and t: "task_ok fsz p (k, Recording pc)"
    and mem: "\<forall>n. h_ok (heap s) n"
    and ex: "recorder_exec api k hdr pc (s, w) = Done (pc', s', w')"
  shows "recording_ok api fsz k hdr F g (got @ read_turn api (k, Recording pc) w) s' pc' \<and> (\<forall>n. h_ok (heap s') n)"
proof (cases pc)
  case R_Start
  obtain h mini w1 where o: "bds_pcm_open api recorder_pam w = ((Some h, mini), w1)"
    using op unfolding pcm_opens_def by blast
  obtain a s1 where m: "io_malloc s = (Some a, s1)" using mem by (auto simp: io_malloc_def malloc_def)
  with ex o have "pc' = R_Read h mini a (fresh_block (heap s1) a (RECORDER_PCM_SIZE k)) 0" "s' = s1"
    by (auto simp: R_Start)
  with ok mem quiet_malloc [OF m] show ?thesis by (simp add: R_Start quiet_def)
next
  case (R_Read h mini a data n)
  let ?N = "int (RECORDER_PCM_SIZE k)"
  obtain tail where d: "data = got @ tail" "n = int (length got)" and q: "host_frames (stdout s) = F" "g_idx s = g"
    using ok by (auto simp: R_Read)
  have len: "length got + length tail = RECORDER_PCM_SIZE k" "mini = fsz" using t by (simp_all add: R_Read d)
  obtain ret bs ol w1 where rd: "bds_pcm_read api h w = ((ret, bs, ol), w1)"
    by (cases "bds_pcm_read api h w") auto
  note docs = pcm_documentedD(2) [OF doc rd]
  have ol: "0 < ol" if "0 \<le> ret" using prog rd that unfolding pcm_progress_def by blast
  have ret: "0 \<le> ret" if "pcm_reads_ok api" using that rd unfolding pcm_reads_ok_def by (metis fst_conv)
  show ?thesis
  proof (cases "n + mini > ?N")
    case True
    with ex have "pc' = R_Close h a data" "s' = s" by (simp_all add: R_Read)
    moreover have "got_ok api fsz k got data"
      using True len by (auto simp: got_ok_def d)
    ultimately show ?thesis using True q mem by (simp add: R_Read)
  next
    case False
    then obtain data' where st: "store_bytes data n bs = Some data'"
      using ex rd by (auto simp: R_Read Let_def split: option.splits)
    from store_behind [OF st [unfolded d]] obtain tail' where
      d': "data' = got @ bs @ tail'" "length tail = length bs + length tail'" by blast
    have rt: "read_turn api (k, Recording pc) w = bs" using False rd by (simp add: R_Read)
    consider "ret < 0" "pc' = R_Close h a data'" "s' = out_print_result hdr FAILED ''mic read error'' s"
      | "0 \<le> ret" "n + ol \<ge> ?N" "pc' = R_Close h a data'" "s' = s"
      | "0 \<le> ret" "n + ol < ?N" "pc' = R_Read h mini a data' (n + ol)" "s' = vTaskDelay 2 s"
      using ex False rd st by (auto simp: R_Read Let_def split: if_splits)
    then show ?thesis
    proof cases
      case 1
      with ret have "got_ok api fsz k (got @ bs) data'" using d' len by (auto simp: got_ok_def)
      with 1 q mem show ?thesis unfolding rt by (simp add: io_simps)
    next
      case 2
      have "length tail' = 0" using 2 docs len d'(2) d(2) by linarith
      moreover have "0 < fsz" using docs ol [OF 2(1)] 2(1) by linarith
      ultimately have "got_ok api fsz k (got @ bs) data'" using len d' by (auto simp: got_ok_def)
      with 2 q mem show ?thesis unfolding rt by simp
    next
      case 3
      with docs d d' q mem show ?thesis unfolding rt by (simp add: io_simps)
    qed
  qed
next
  case (R_Close h a data)
  have "length data = RECORDER_PCM_SIZE k" using t by (simp add: R_Close)
  with ok ex mem SIZE_whole(2) [of k] show ?thesis
    by (auto simp: R_Close io_simps frames_of_def simp del: RECORDER_PCM_SIZE.simps intro!: exI [of _ 0])
next
  case (R_Send u a data pos)
  obtain j junk where u: "u = hdr" "got_ok api fsz k got data" and pos: "pos = UART_OUT_SIZE * j" "pos < length data"
    and g: "g_idx s = g + int j" and F: "host_frames (stdout s) = F @ frames_of hdr g junk data j"
    using ok by (auto simp: R_Send)
  have len: "length data = RECORDER_PCM_SIZE k" using t by (simp add: R_Send)
  obtain q s1 where p: "data_out_pass hdr data pos s = (q, s1)" by (cases "data_out_pass hdr data pos s")
  note sent = send_turn [OF len pos g F mem p]
  have s1: "s' = s1" using ex p by (auto simp: R_Send u split: option.splits)
  show ?thesis
  proof (cases q)
    case None
    with ex p have "pc' = R_Free a" by (simp add: R_Send u)
    moreover have "all_sent api fsz k hdr F g got s1"
      unfolding all_sent_def using sent None u(2) by (intro exI [of _ data]) auto
    ultimately show ?thesis using sent s1 by (simp add: R_Send)
  next
    case (Some pos')
    with ex p have "pc' = R_Send hdr a data pos'" by (simp add: R_Send u)
    with sent Some u s1 show ?thesis by (auto simp: R_Send intro!: exI [of _ "Suc j"])
  qed
next
  case (R_Free a)
  with ex have "pc' = R_End" and q: "host_frames (stdout s') = host_frames (stdout s)" "h_ok (heap s') = h_ok (heap s)"
    by (auto simp: out_print_data_ctl_def io_simps)
  with ok mem show ?thesis by (simp add: R_Free all_sent_def)
next
  case R_End
  with ok ex mem show ?thesis by simp
qed

text \<open>A schedule: the recording is \<open>recording_ok\<close> for what has been delivered.\<close>

lemma recording_ok_run:
  assumes doc: "pcm_documented api fsz" and prog: "pcm_progress api" and op: "pcm_opens api" and wav: "wav_ok api"
  shows "audio_inv f fsz (m, s, p, w) \<Longrightarrow> r < length (tasks m) \<Longrightarrow> tasks m ! r = (k, Recording pc) \<Longrightarrow>
    only_recording r (tasks m) \<Longrightarrow> \<forall>n. h_ok (heap s) n \<Longrightarrow>
    recording_ok api fsz k (task_header k m) F g got s pc \<Longrightarrow>
    run_tasks api is (m, s, p, w) = Done (m', s', p', w') \<Longrightarrow>
    \<exists>pc'. tasks m' ! r = (k, Recording pc') \<and>
      recording_ok api fsz k (task_header k m) F g (got @ mic_reads api r is (m, s, p, w)) s' pc'"
proof (induction "is" arbitrary: m s p w pc got)
  case (Cons i "is")
  show ?case
  proof (cases "i < length (tasks m)")
    case False
    with Cons.IH [OF Cons.prems(1-6)] Cons.prems(7) show ?thesis by simp
  next
    case True
    obtain t s1 p1 w1 where t: "task_step api m (tasks m ! i) (s, p, w) = Done (t, s1, p1, w1)"
      and inv: "audio_inv f fsz (m\<lparr>tasks := (tasks m)[i := t]\<rparr>, s1, p1, w1)"
      using task_step_safe [OF Cons.prems(1) True doc wav] by blast
    let ?m = "m\<lparr>tasks := (tasks m)[i := t]\<rparr>"
    have run: "run_tasks api is (?m, s1, p1, w1) = Done (m', s', p', w')" using Cons.prems(7) True t by simp
    have hd: "task_header k ?m = task_header k m" by (simp add: task_header_def cong: audio_kind.case_cong)
    show ?thesis
    proof (cases "i = r")
      case r: True
      obtain pc1 where x: "recorder_exec api k (task_header k m) pc (s, w) = Done (pc1, s1, w1)"
        and t1: "t = (k, Recording pc1)"
        using t Cons.prems(3) by (auto simp: r split: run.splits)
      have tok: "task_ok fsz p (k, Recording pc)" using audio_invD(4) [OF Cons.prems(1) nth_mem [OF Cons.prems(2)]]
        by (simp add: Cons.prems(3))
      note ok = recording_ok_turn [OF doc prog op Cons.prems(6) tok Cons.prems(5) x]
      from Cons.IH [OF inv, of pc1 "got @ read_turn api (k, Recording pc) w"] ok run Cons.prems(2-4) t
      show ?thesis unfolding hd by (simp add: r t1 only_recording_update)
    next
      case other: False
      have q: "quiet s s1 \<and> (snd t = Recording R_End \<or> (\<exists>pc. snd t = Playing pc))"
      proof -
        obtain k' c where c: "tasks m ! i = (k', c)" by (cases "tasks m ! i")
        show ?thesis
        proof (cases c)
          case (Playing pc)
          with t c show ?thesis by (auto dest: quiet_player split: run.splits)
        next
          case (Recording pc)
          with only_recordingD [OF Cons.prems(4) True other c [unfolded Recording]]
          have "c = Recording R_End" by simp
          with t have "t = (k', Recording R_End) \<and> s1 = s" unfolding c by simp
          then show ?thesis by (simp add: quiet_refl)
        qed
      qed
      then have "\<forall>n. h_ok (heap s1) n" using Cons.prems(5) by (simp add: quiet_def)
      moreover have "recording_ok api fsz k (task_header k m) F g got s1 pc"
        using recording_ok_quiet Cons.prems(6) q by blast
      ultimately show ?thesis
        using Cons.IH [OF inv, of pc got] run Cons.prems(2-4) other q True t unfolding hd
        by (simp add: only_recording_update)
    qed
  qed
qed simp

lemma concat_frames_of:
  "length data = UART_OUT_SIZE * n \<Longrightarrow> concat (map frame_payload (frames_of hdr g junk data n)) = data"
  by (simp add: frames_of_def comp_def concat_chunks)

text \<open>What the host has when the recorder has had its turns.\<close>

definition host_gets ::
  "'w audio_api \<Rightarrow> int \<Rightarrow> audio_kind \<Rightarrow> string \<Rightarrow> int \<Rightarrow> u8 list \<Rightarrow> u8 list list \<Rightarrow> bool" where
  "host_gets api fsz k hdr g got frames \<longleftrightarrow>
     (\<exists>junk data tail. frames = map (\<lambda>j. frame hdr (g + int j) (junk j) (chunk data j))
          [0..<(case k of Nolinear_case \<Rightarrow> 1883 | Player_recorder_case \<Rightarrow> 377)] \<and>
        concat (map frame_payload frames) = data \<and> data = got @ tail \<and> length data = RECORDER_PCM_SIZE k \<and>
        (pcm_reads_ok api \<longrightarrow> int (length tail) < fsz))"

lemma host_gets_length:
  "host_gets api fsz k hdr g got frames \<Longrightarrow>
     length frames = (case k of Nolinear_case \<Rightarrow> 1883 | Player_recorder_case \<Rightarrow> 377)"
  by (auto simp: host_gets_def)

lemma recording_delivered:
  assumes "pcm_documented api fsz" and "pcm_progress api" and "pcm_opens api" and "wav_ok api"
    and inv: "audio_inv f fsz (m, s, p, w)"
    and "r < length (tasks m)" and "tasks m ! r = (k, Recording R_Start)" and "only_recording r (tasks m)"
    and "\<forall>n. h_ok (heap s) n" and "turns (k, Recording R_Start) \<le> count_list is r"
  shows "\<exists>m' s' p' w' frames. run_tasks api is (m, s, p, w) = Done (m', s', p', w') \<and>
    tasks m' ! r = (k, Recording R_End) \<and> host_frames (stdout s') = host_frames (stdout s) @ frames \<and>
    host_gets api fsz k (task_header k m) (g_idx s) (mic_reads api r is (m, s, p, w)) frames"
proof -
  let ?got = "mic_reads api r is (m, s, p, w)" and ?n = "RECORDER_PCM_SIZE k div UART_OUT_SIZE"
  from run_tasks_turns [OF assms(1,2,4) inv, of "is"] obtain m' s' p' w' where
    run: "run_tasks api is (m, s, p, w) = Done (m', s', p', w')"
    and t: "turns (tasks m' ! r) \<le> turns (tasks m ! r) - count_list is r" using assms(6) by blast
  have e: "turns (tasks m' ! r) = 0" using t assms(7,10) by simp
  from recording_ok_run [OF assms(1-4) inv assms(6-9) _ run, of "host_frames (stdout s)" "g_idx s" "[]"]
  obtain pc' where pc: "tasks m' ! r = (k, Recording pc')"
    and ok: "recording_ok api fsz k (task_header k m) (host_frames (stdout s)) (g_idx s) ?got s' pc'" by auto
  then have "pc' = R_End" using e turns_0 [of "tasks m' ! r"] by simp
  with ok obtain data junk where d: "got_ok api fsz k ?got data"
    "host_frames (stdout s') = host_frames (stdout s) @ frames_of (task_header k m) (g_idx s) junk data ?n"
    by (auto simp: all_sent_def)
  then obtain tail where tl: "data = ?got @ tail" "length data = RECORDER_PCM_SIZE k"
    "pcm_reads_ok api \<longrightarrow> int (length tail) < fsz" unfolding got_ok_def by blast
  have "concat (map frame_payload (frames_of (task_header k m) (g_idx s) junk data ?n)) = data"
    by (rule concat_frames_of) (use tl(2) SIZE_whole in simp)
  with tl have "host_gets api fsz k (task_header k m) (g_idx s) ?got (frames_of (task_header k m) (g_idx s) junk data ?n)"
    unfolding host_gets_def RECORDER_PCM_SIZE_frames(1) [of k, symmetric]
    by (intro exI [of _ junk] exI [of _ data] exI [of _ tail]) (simp add: frames_of_def)
  with run pc \<open>pc' = R_End\<close> d(2) show ?thesis by blast
qed

end
