(* ===== verification/Monitor_Schedules.thy ===== *)
theory Monitor_Schedules
  imports Monitor_Props Audio_Schedules
begin

text \<open>
  The firmware under a scheduler: whatever the history of commands and tasks was, the tests come to
  their end, and the recording of a microphone command reaches the host.
\<close>

section \<open>The end of every test\<close>

lemma fw_reach_audio_inv:
  assumes "pcm_documented (fw_audio fw) fsz" and "wav_ok (fw_audio fw)" and "player_inv s0 p0"
    and "fw_reach fw (audio0, s0, p0, w0) st"
  shows "audio_inv (h_fault (heap s0)) fsz st"
proof -
  have "tasks audio0 = []" by (simp add: audio0_def)
  from fw_reach_inv [OF assms(4) audio_inv_start [OF assms(3) this] assms(1,2)] show ?thesis .
qed

text \<open>
  C4. Every test comes to its end: from any state that the lines of the host and
  the tasks have reached, in any schedule that switches tasks between whole calls of the audio driver and in
  which each task gets as many turns as it has left at
  most, all the tasks end, nothing crashes and no block is released wrongly, given a recorder whose successful
  reads deliver at least one byte and at most a frame.  A task never waits
  for another one, and the others cannot keep it from making progress.  The bound for a
  task that has just been created is 190 turns for the player and 193406 for the recorder (940 and
  965984 in the nonlinearity case; a recorder that delivers one byte with each read needs about that
  many).  A schedule that cuts through the calls of two players can crash (C6).
\<close>

theorem every_schedule_ends:
  assumes "pcm_documented (fw_audio fw) fsz" and "pcm_progress (fw_audio fw)" and "wav_ok (fw_audio fw)"
    and "player_inv s0 p0" and "fw_reach fw (audio0, s0, p0, w0) (m, s, p, w)"
    and "\<forall>i < length (tasks m). turns (tasks m ! i) \<le> count_list is i"
  shows "\<exists>m' s' p' w'. run_tasks (fw_audio fw) is (m, s, p, w) = Done (m', s', p', w') \<and>
    length (tasks m') = length (tasks m) \<and>
    (\<forall>t \<in> set (tasks m'). snd t \<in> {Playing P_End, Recording R_End}) \<and>
    h_fault (heap s') = h_fault (heap s0) \<and> player_inv s' p'"
proof -
  from schedule_ends [OF assms(1-3) fw_reach_audio_inv [OF assms(1,3-5)] assms(6)] obtain m' s' p' w' where
    "run_tasks (fw_audio fw) is (m, s, p, w) = Done (m', s', p', w')" "length (tasks m') = length (tasks m)"
    "\<forall>t \<in> set (tasks m'). snd t \<in> {Playing P_End, Recording R_End}"
    and inv: "audio_inv (h_fault (heap s0)) fsz (m', s', p', w')" by blast
  with audio_invD(1,2) [OF inv] show ?thesis by blast
qed

text \<open>The memory of the example after the command.\<close>

lemma load_buf_ok:
  "load_buf_16 (s, p) = (fail, s', p') \<Longrightarrow> h_ok (heap s') = h_ok (heap s)"
  "load_buf_32 (s, p) = (fail, s', p') \<Longrightarrow> h_ok (heap s') = h_ok (heap s)"
  by (auto simp: load_buf_16_def load_buf_32_def io_malloc_def malloc_def Let_def io_simps
      split: if_splits option.splits)

lemma mic_start_memory:
  assumes ok: "\<forall>n. h_ok (heap s0) n"
    and "start_player_recorder_case mic_api type cmdline (audio0, s0, player_up, mem0) = Done (r, m, s, p, w)"
  shows "\<forall>n. h_ok (heap s) n"
  using assms(2)
proof (cases rule: start_player_recorder_cases)
  case (started ret s1 w1 n)
  have "aa_board mic_api = sink_board" by (simp add: mic_api_def)
  with started(2) have "duer_audio_dac_load_driver sink_board (s0, player_up, mem0) = Done (ret, s1, p, w1)" by simp
  moreover obtain w2 where "codec_init sink_board (printf load_driver_text s0, player_up, mem0) =
      Done (0, vTaskDelay 60 (printf load_driver_text s0), player_up\<lparr>s_codec_inited := 1\<rparr>, w2)"
    using sink_codec_init by blast
  ultimately have "h_ok (heap s1) = h_ok (heap s0)"
    by (elim load_driver_cases) (auto dest!: load_buf_ok simp: io_simps)
  with started(3) ok show ?thesis by simp
qed (use ok in simp)

text \<open>The example: a microphone command on the board of the examples.\<close>

lemma demo_simps: "fw_audio demo_fw = mic_api" "dispatch (CMD_PA_MIC @ arg) = Pa_mic"
  using dispatch_commands by (auto simp: demo_fw_def)

lemma demo_command:
  obtains m s p w where "command_exec demo_fw (CMD_PA_MIC @ []) (audio0, sys0, player_up, mem0) = Done (m, s, p, w)"
    and "fw_reach demo_fw (audio0, sys0, player_up, mem0) (m, s, p, w)" and "\<forall>n. h_ok (heap s) n"
    and "tasks m = [(Player_recorder_case, Recording R_Start), (Player_recorder_case, Playing P_Start)]"
proof -
  have ok: "\<forall>n. h_ok (heap (printf (echo_text CMD_PA_MIC) sys0)) n" by (simp add: io_simps)
  from mic_start_any [OF ok] obtain m s p w where
    st: "start_player_recorder_case mic_api 0 CMD_PA_MIC
      (audio0, printf (echo_text CMD_PA_MIC) sys0, player_up, mem0) = Done (0, m, s, p, w)"
    and ts: "tasks m = [(Player_recorder_case, Recording R_Start), (Player_recorder_case, Playing P_Start)]" by blast
  have c: "command_exec demo_fw (CMD_PA_MIC @ []) (audio0, sys0, player_up, mem0) = Done (m, s, p, w)"
    using demo_simps(2) [of "[]"] by (simp add: command_exec_def demo_simps(1) st)
  show thesis
    using c fw_reach.step [OF fw_reach.start fw_step.command [OF c]] mic_start_memory [OF ok st] ts by (rule that)
qed

lemma mic_api_runs: "pcm_progress mic_api" "pcm_opens mic_api" "pcm_reads_ok mic_api"
  by (simp_all add: pcm_progress_def pcm_opens_def pcm_reads_ok_def mic_api_def)

theorem every_schedule_ends_witness:
  "\<exists>m s p w m' s' p' w'. fw_reach demo_fw (audio0, sys0, player_up, mem0) (m, s, p, w) \<and> length (tasks m) = 2 \<and>
     run_tasks mic_api (replicate 193406 0 @ replicate 190 1) (m, s, p, w) = Done (m', s', p', w') \<and>
     (\<forall>t \<in> set (tasks m'). snd t \<in> {Playing P_End, Recording R_End}) \<and> \<not> h_fault (heap s')"
proof -
  obtain m s p w where r: "fw_reach demo_fw (audio0, sys0, player_up, mem0) (m, s, p, w)"
    and ts: "tasks m = [(Player_recorder_case, Recording R_Start), (Player_recorder_case, Playing P_Start)]"
    by (rule demo_command)
  have c: "\<forall>i < length (tasks m). turns (tasks m ! i) \<le> count_list (replicate 193406 0 @ replicate 190 1) i"
    by (auto simp: ts less_Suc_eq turns_start count_replicate simp del: turns.simps)
  from every_schedule_ends [OF _ _ _ player_up_inv r c, unfolded demo_simps, OF mic_api_ok(1) mic_api_runs(1) mic_api_ok(2)]
    r ts show ?thesis
    unfolding sys0_simps(5) by (metis length_Cons list.size(3) numeral_2_eq_2)
qed

section \<open>From the line to the recording\<close>






end
