(* ===== verification/Driver_Calls.thy ===== *)
theory Driver_Calls
  imports Monitor_Schedules Audio_Race
begin

text \<open>
  The whole firmware with the player at the granularity of its single accesses to the driver's buffers
  (\<open>fine_exec\<close> of Audio\_Race), and the recorders and the commands of Monitor in between.  Nothing but a
  call of the audio driver excludes another call of the audio driver.
\<close>

section \<open>Steps\<close>

text \<open>A player between two calls of the driver, and one inside a call.\<close>

fun outside_call :: "fine_pc \<Rightarrow> bool" where
  "outside_call F_Start \<longleftrightarrow> True"
| "outside_call (F_Check n off) \<longleftrightarrow> True"
| "outside_call F_Wait \<longleftrightarrow> True"
| "outside_call F_Free16 \<longleftrightarrow> True"
| "outside_call F_End \<longleftrightarrow> True"
| "outside_call _ \<longleftrightarrow> False"

fun calm :: "audio_kind \<times> fine_task \<Rightarrow> bool" where
  "calm (k, FPlay pc) \<longleftrightarrow> outside_call pc"
| "calm (k, FRec pc) \<longleftrightarrow> True"

fun recording :: "audio_kind \<times> fine_task \<Rightarrow> bool" where
  "recording (k, FPlay pc) \<longleftrightarrow> False"
| "recording (k, FRec pc) \<longleftrightarrow> True"

definition may_run :: "fine_tasks \<Rightarrow> nat \<Rightarrow> bool" where
  "may_run ts i \<longleftrightarrow> i < length ts \<and> (recording (ts ! i) \<or> (\<forall>j < length ts. j \<noteq> i \<longrightarrow> calm (ts ! j)))"

definition audio_line :: "string \<Rightarrow> bool" where
  "audio_line cmdline \<longleftrightarrow> dispatch cmdline \<in> {Pa_mic, Mic_seal, Nolinear}"

inductive call_step :: "'w firmware \<Rightarrow> 'w fine_st \<Rightarrow> 'w fine_st \<Rightarrow> bool" for fw where
  call_task: "may_run ts i \<Longrightarrow> fine_task_step (fw_audio fw) m (ts ! i) (s, p, w) = Done (t, s', p', w') \<Longrightarrow>
     call_step fw (ts, m, s, p, w) (ts[i := t], m, s', p', w')"
| call_line: "\<not> audio_line cmdline \<or> list_all calm ts \<Longrightarrow>
     command_exec fw cmdline (m\<lparr>tasks := []\<rparr>, s, p, w) = Done (m', s', p', w') \<Longrightarrow>
     call_step fw (ts, m, s, p, w) (ts @ map fine_of (tasks m'), m'\<lparr>tasks := []\<rparr>, s', p', w')"

inductive call_reach :: "'w firmware \<Rightarrow> 'w fine_st \<Rightarrow> 'w fine_st \<Rightarrow> bool" for fw st0 where
  call_init: "call_reach fw st0 st0"
| call_next: "call_reach fw st0 st \<Longrightarrow> call_step fw st st' \<Longrightarrow> call_reach fw st0 st'"

section \<open>The invariant\<close>

text \<open>What a task is to the invariant of Audio\_Props.\<close>

fun between :: "audio_kind \<times> fine_task \<Rightarrow> audio_kind \<times> task_pc" where
  "between (k, FPlay (F_Check n off)) = (k, Playing (P_Write n off))"
| "between (k, FPlay pc) = (k, Playing P_End)"
| "between (k, FRec pc) = (k, Recording pc)"

definition call_inv :: "bool \<Rightarrow> int \<Rightarrow> 'w fine_st \<Rightarrow> bool" where
  "call_inv f fsz = (\<lambda>(ts, m, s, p, w).
     list_all calm ts \<and> audio_inv f fsz (m\<lparr>tasks := map between ts\<rparr>, s, p, w) \<or>
     (\<exists>i k pc. i < length ts \<and> ts ! i = (k, FPlay pc) \<and> (\<forall>j < length ts. j \<noteq> i \<longrightarrow> calm (ts ! j)) \<and>
        fine_ok k p pc \<and> audio_inv f fsz (m\<lparr>tasks := map between ts\<rparr>, s, held pc p, w)))"

lemma call_inv_cases:
  assumes "call_inv f fsz (ts, m, s, p, w)"
  obtains (calm) "list_all calm ts" "audio_inv f fsz (m\<lparr>tasks := map between ts\<rparr>, s, p, w)"
  | (inside) j k pc where "j < length ts" "ts ! j = (k, FPlay pc)" "\<forall>l < length ts. l \<noteq> j \<longrightarrow> calm (ts ! l)"
      "fine_ok k p pc" "audio_inv f fsz (m\<lparr>tasks := map between ts\<rparr>, s, held pc p, w)"
  using assms unfolding call_inv_def by auto

lemma outside_held: "outside_call pc \<Longrightarrow> held pc p = p"
  by (cases pc) auto

lemma between_block: "task_block (snd (between (k, FPlay pc))) = None"
  by (cases pc) auto

lemma outside_ok:
  "outside_call pc \<Longrightarrow> task_ok fsz p (between (k, FPlay pc)) \<Longrightarrow> fine_ok k p pc"
  by (cases pc) (auto simp: at_frame_def)

lemma between_ok: "fine_ok k p pc \<Longrightarrow> task_ok fsz (held pc p) (between (k, FPlay pc))"
  by (cases pc) (auto simp: at_frame_def)

text \<open>A player that may run finds the buffers as it needs them.\<close>

lemma player_alone:
  assumes inv: "call_inv f fsz (ts, m, s, p, w)" and i: "i < length ts" "ts ! i = (k, FPlay pc)"
    and others: "\<forall>j < length ts. j \<noteq> i \<longrightarrow> calm (ts ! j)"
  shows "fine_ok k p pc \<and> audio_inv f fsz (m\<lparr>tasks := map between ts\<rparr>, s, held pc p, w)"
  using inv
proof (cases rule: call_inv_cases)
  case calm
  then have "outside_call pc" using i by (auto simp: list_all_length dest: spec [of _ i])
  moreover from this have "held pc p = p" by (rule outside_held)
  moreover have "between (ts ! i) \<in> set (tasks (m\<lparr>tasks := map between ts\<rparr>))" using i(1) by auto
  from audio_invD(4) [OF calm(2) this] have "task_ok fsz p (between (k, FPlay pc))" by (simp add: i(2))
  ultimately show ?thesis using calm(2) outside_ok by simp
next
  case (inside j k' pc')
  show ?thesis
  proof (cases "i = j")
    case True
    with inside i show ?thesis by simp
  next
    case False
    with inside(3) i have out: "outside_call pc" by (auto dest: spec [of _ i])
    from False others inside(1,2) have out': "outside_call pc'" by (auto dest: spec [of _ j])
    note h = outside_held [OF out] outside_held [OF out', of p]
    have "between (ts ! i) \<in> set (tasks (m\<lparr>tasks := map between ts\<rparr>))" using i(1) by auto
    from audio_invD(4) [OF inside(5) this] have "task_ok fsz p (between (k, FPlay pc))" by (simp add: i(2) h)
    with out inside(5) outside_ok show ?thesis by (simp add: h)
  qed
qed

text \<open>A player sets the format of the stream or keeps it.\<close>

lemma convert_stream_same:
  "fine_exec api k hdr pc (s, p, w) = Done (pc', s', p', w') \<Longrightarrow>
     s_channel p' = s_channel p \<and> s_sample_rate p' = s_sample_rate p \<or> s_channel p' = 1 \<and> s_sample_rate p' = 48000"
  by (cases pc)
    (auto simp: duer_audio_dac_start_play_def Let_def dest: wait_play_end_only
      split: prod.splits option.splits if_splits)

lemma held_stream [simp]: "s_channel (held pc p) = s_channel p" "s_sample_rate (held pc p) = s_sample_rate p"
  by (cases pc; simp)+

lemma task_ok_next:
  assumes "s_channel p' = s_channel p \<and> s_sample_rate p' = s_sample_rate p \<or> s_channel p' = 1 \<and> s_sample_rate p' = 48000"
    and "task_ok fsz p t"
  shows "task_ok fsz p' t"
  using assms by (cases "(fsz, p, t)" rule: task_ok.cases) auto

lemma call_player_step:
  assumes inv: "call_inv f fsz (ts, m, s, p, w)" and i: "i < length ts" "ts ! i = (k, FPlay pc)"
    and others: "\<forall>j < length ts. j \<noteq> i \<longrightarrow> calm (ts ! j)" and wav: "wav_ok api"
  shows "\<exists>t s' p' w'. fine_task_step api m (ts ! i) (s, p, w) = Done (t, s', p', w') \<and>
    call_inv f fsz (ts[i := t], m, s', p', w')"
proof -
  from player_alone [OF inv i others] have ok: "fine_ok k p pc"
    and A: "audio_inv f fsz (m\<lparr>tasks := map between ts\<rparr>, s, held pc p, w)" by blast+
  from fine_exec_safe [OF audio_invD(1) [OF A] ok wav, of "task_header k m" w] obtain pc1 s1 p1 w1 where
    1: "fine_exec api k (task_header k m) pc (s, p, w) = Done (pc1, s1, p1, w1)"
      "fine_ok k p1 pc1" "player_only s (held pc p) s1 (held pc1 p1)" by blast
  have "\<forall>t \<in> set (tasks (m\<lparr>tasks := map between ts\<rparr>)). task_ok fsz (held pc1 p1) t"
    using audio_invD(4) [OF A] task_ok_next [of "held pc1 p1" "held pc p" fsz] convert_stream_same [OF 1(1)] by simp
  from audio_inv_player [OF A 1(3) this, of w1]
  have B: "audio_inv f fsz (m\<lparr>tasks := map between ts\<rparr>, s1, held pc1 p1, w1)" .
  have "audio_inv f fsz ((m\<lparr>tasks := map between ts\<rparr>)\<lparr>tasks := (tasks (m\<lparr>tasks := map between ts\<rparr>))
      [i := between (k, FPlay pc1)]\<rparr>, s1, held pc1 p1, w1)"
    by (rule audio_inv_task [OF B _ between_ok [OF 1(2)]]) (use i(1) in \<open>simp_all add: between_block\<close>)
  then have "audio_inv f fsz (m\<lparr>tasks := map between (ts[i := (k, FPlay pc1)])\<rparr>, s1, held pc1 p1, w1)"
    by (simp add: map_update)
  with i others 1(2) have "call_inv f fsz (ts[i := (k, FPlay pc1)], m, s1, p1, w1)"
    unfolding call_inv_def prod.case by (intro disjI2 exI [of _ i] exI) auto
  with 1(1) i(2) show ?thesis by auto
qed

lemma call_recorder_step:
  assumes inv: "audio_inv f fsz (m\<lparr>tasks := map between ts\<rparr>, s, p, w)" and i: "i < length ts"
    and t: "ts ! i = (k, FRec pc)" and doc: "pcm_documented api fsz"
  shows "\<exists>pc' s' w'. recorder_exec api k hdr pc (s, w) = Done (pc', s', w') \<and>
    audio_inv f fsz (m\<lparr>tasks := map between (ts[i := (k, FRec pc')])\<rparr>, s', p, w')"
proof -
  have "i < length (tasks (m\<lparr>tasks := map between ts\<rparr>))" "tasks (m\<lparr>tasks := map between ts\<rparr>) ! i = (k, Recording pc)"
    using i t by simp_all
  from recorder_exec_safe [OF inv this doc, of hdr] show ?thesis by (auto simp: map_update)
qed

lemma call_task_safe:
  assumes inv: "call_inv f fsz (ts, m, s, p, w)" and run: "may_run ts i"
    and doc: "pcm_documented api fsz" and wav: "wav_ok api"
  shows "\<exists>t s' p' w'. fine_task_step api m (ts ! i) (s, p, w) = Done (t, s', p', w') \<and>
    call_inv f fsz (ts[i := t], m, s', p', w')"
proof (cases "snd (ts ! i)")
  case (FPlay pc)
  then obtain k where t: "ts ! i = (k, FPlay pc)" by (cases "ts ! i") auto
  with run have "i < length ts" "\<forall>j < length ts. j \<noteq> i \<longrightarrow> calm (ts ! j)" by (auto simp: may_run_def)
  then show ?thesis using call_player_step [OF inv _ t _ wav] by blast
next
  case (FRec pc)
  then obtain k where t: "ts ! i = (k, FRec pc)" by (cases "ts ! i") auto
  have i: "i < length ts" using run by (simp add: may_run_def)
  let ?h = "task_header k m"
  from inv show ?thesis
  proof (cases rule: call_inv_cases)
    case calm
    from call_recorder_step [OF calm(2) i t doc, of ?h] obtain pc1 s1 w1 where
      1: "recorder_exec api k ?h pc (s, w) = Done (pc1, s1, w1)"
      "audio_inv f fsz (m\<lparr>tasks := map between (ts[i := (k, FRec pc1)])\<rparr>, s1, p, w1)" by blast
    have "list_all calm (ts[i := (k, FRec pc1)])"
      using calm(1) i by (auto simp: list_all_length nth_list_update)
    with 1 t show ?thesis by (auto simp: call_inv_def)
  next
    case (inside j k' pc')
    from call_recorder_step [OF inside(5) i t doc, of ?h] obtain pc1 s1 w1 where
      1: "recorder_exec api k ?h pc (s, w) = Done (pc1, s1, w1)"
      "audio_inv f fsz (m\<lparr>tasks := map between (ts[i := (k, FRec pc1)])\<rparr>, s1, held pc' p, w1)" by blast
    have "i \<noteq> j" using t inside(2) by auto
    with inside(1-4) 1(2) i have "call_inv f fsz (ts[i := (k, FRec pc1)], m, s1, p, w1)"
      unfolding call_inv_def prod.case by (intro disjI2 exI [of _ j] exI) (auto simp: nth_list_update)
    with 1(1) t show ?thesis by auto
  qed
qed

section \<open>Commands\<close>

text \<open>An audio command, at a time when no player is inside a call.\<close>

lemma call_audio_line:
  assumes calm: "list_all calm ts" and A: "audio_inv f fsz (m\<lparr>tasks := map between ts\<rparr>, s, p, w)"
    and c: "start_audio api c (m\<lparr>tasks := []\<rparr>, s, p, w) = Done (r, m', s', p', w')"
  shows "call_inv f fsz (ts @ map fine_of (tasks m'), m'\<lparr>tasks := []\<rparr>, s', p', w')"
proof -
  have "tasks (m\<lparr>tasks := []\<rparr>) = []" by simp
  with c show ?thesis
  proof (cases rule: start_audio_cases)
    case refused
    have "audio_inv f fsz (m'\<lparr>tasks := map between ts\<rparr>, s', p, w')"
      by (rule audio_inv_cong [OF A _ refused(3)]) simp
    with calm refused(2,4) show ?thesis by (simp add: call_inv_def)
  next
    case (started k n ret s1 w1)
    let ?us = "take n [(k, Recording R_Start), (k, Playing P_Start)]"
    have L: "audio_inv f fsz (m'\<lparr>tasks := map between ts\<rparr>, s', p', w')"
      by (rule audio_inv_cong [OF audio_inv_load [OF A _ started(1), of "m\<lparr>tasks := map between ts\<rparr>" w1] _ started(2)]) simp_all
    have "audio_inv f fsz (m'\<lparr>tasks := map between (ts @ map fine_of ?us)\<rparr>, s', p', w')"
      by (rule audio_inv_more [OF L, of _ "map between (map fine_of ?us)"]) (auto dest!: in_set_takeD)
    moreover have "list_all calm (map fine_of ?us)" by (auto simp: list_all_iff dest!: in_set_takeD)
    ultimately show ?thesis using calm by (simp add: call_inv_def started(6))
  qed
qed

lemma audio_line_start:
  assumes "audio_line cmdline" and "command_exec fw cmdline (m, s, p, w) = Done (m', s', p', w')"
  obtains r c where "start_audio (fw_audio fw) c (m, printf (echo_text cmdline) s, p, w) = Done (r, m', s', p', w')"
proof -
  let ?s = "printf (echo_text cmdline) s"
  from assms have "\<exists>c. drop_result (start_audio (fw_audio fw) c (m, ?s, p, w)) = Done (m', s', p', w')"
    unfolding audio_line_def command_exec_def
    by (auto intro: exI [of _ "Start_Mic 0 cmdline"] exI [of _ "Start_Mic 1 cmdline"] exI [of _ "Start_Nolinear cmdline"])
  then show thesis by (auto dest!: drop_result_Done intro: that)
qed

lemma call_line_inv:
  assumes inv: "call_inv f fsz (ts, m, s, p, w)" and a: "\<not> audio_line cmdline \<or> list_all calm ts"
    and c: "command_exec fw cmdline (m\<lparr>tasks := []\<rparr>, s, p, w) = Done (m', s', p', w')"
  shows "call_inv f fsz (ts @ map fine_of (tasks m'), m'\<lparr>tasks := []\<rparr>, s', p', w')"
proof (cases "audio_line cmdline")
  case True
  with a have calm: "list_all calm ts" by simp
  have A: "audio_inv f fsz (m\<lparr>tasks := map between ts\<rparr>, s, p, w)"
    using inv
  proof (cases rule: call_inv_cases)
    case (inside j k pc)
    with calm have "outside_call pc" by (auto simp: list_all_length dest: spec [of _ j])
    with inside(5) show ?thesis by (simp add: outside_held)
  qed
  have A: "audio_inv f fsz (m\<lparr>tasks := map between ts\<rparr>, printf (echo_text cmdline) s, p, w)"
    by (rule audio_inv_cong [OF A]) (simp_all add: io_simps)
  from audio_line_start [OF True c] show ?thesis by (auto intro: call_audio_line [OF calm A])
next
  case False
  let ?s = "printf (echo_text cmdline) s"
  from c have "handle fw (dispatch cmdline) cmdline (m\<lparr>tasks := []\<rparr>, ?s, p, w) = Done (m', s', p', w')"
    by (simp add: command_exec_def)
  from handle_quiet [OF this] False have q: "m' = m\<lparr>tasks := []\<rparr>" "p' = p" "heap_grows (heap s) (heap s')"
    by (auto simp: audio_line_def io_simps)
  have keep: "audio_inv f fsz (m\<lparr>tasks := map between ts\<rparr>, s, p1, w) \<Longrightarrow>
      audio_inv f fsz (m\<lparr>tasks := map between ts\<rparr>, s', p1, w')" for p1
    by (rule audio_inv_keeps [OF _ q(3)])
  from inv have "call_inv f fsz (ts, m\<lparr>tasks := []\<rparr>, s', p, w')"
    using keep unfolding call_inv_def by auto
  with q show ?thesis by simp
qed

lemma call_step_inv:
  assumes "call_step fw st st'" and inv: "call_inv f fsz st"
    and doc: "pcm_documented (fw_audio fw) fsz" and wav: "wav_ok (fw_audio fw)"
  shows "call_inv f fsz st'"
  using assms(1)
proof cases
  case (call_task ts i m s p w t s' p' w')
  with call_task_safe [OF _ _ doc wav, of f ts m s p w i] inv show ?thesis by auto
next
  case (call_line cmdline ts m s p w m' s' p' w')
  with call_line_inv [OF _ call_line(3,4), of f fsz] inv show ?thesis by simp
qed

lemma call_reach_inv:
  assumes "call_reach fw ([], audio0, s0, p0, w0) st" and "player_inv s0 p0"
    and doc: "pcm_documented (fw_audio fw) fsz" and wav: "wav_ok (fw_audio fw)"
  shows "call_inv (h_fault (heap s0)) fsz st"
  using assms(1)
proof induction
  case call_init
  have t: "tasks (audio0\<lparr>tasks := []\<rparr>) = []" by simp
  from audio_inv_start [OF assms(2) t] show ?case by (simp add: call_inv_def)
next
  case (call_next st st')
  then show ?case using call_step_inv [OF _ _ doc wav] by blast
qed

text \<open>
  C1. Memory safety of the firmware.  The history is any sequence of command lines from the host and of single
  steps of the tasks they start; a player reads and writes the buffers of the driver one access at a time.  The
  only condition on the order is that a call of the audio driver (a write, an unloading, an audio
  command) does not fall into another player's call of it, which the code does not enforce (C6).  Then no
  block is released wrongly, and a task that may run can always make its next step: no null
  pointer, no released block, no access outside of an object.  Outside of all calls the driver's buffers are allocated, of the right
  size and different.  A command is one step, and one that does not return ends the history (C2 says
  when).  The one byte that the profile command reads behind its block is not counted (System\_Control).
\<close>

theorem firmware_safe:
  assumes "pcm_documented (fw_audio fw) fsz" and "wav_ok (fw_audio fw)"
    and "player_inv s0 p0" and "call_reach fw ([], audio0, s0, p0, w0) (ts, m, s, p, w)"
  shows "h_fault (heap s) = h_fault (heap s0) \<and>
    (\<forall>i. may_run ts i \<longrightarrow> (\<exists>t' st'. fine_task_step (fw_audio fw) m (ts ! i) (s, p, w) = Done (t', st'))) \<and>
    (list_all calm ts \<longrightarrow> player_inv s p)"
proof -
  note inv = call_reach_inv [OF assms(4,3,1,2)]
  have "h_fault (heap s) = h_fault (heap s0)"
    using inv by (cases rule: call_inv_cases) (auto dest: audio_invD(2))
  moreover have "player_inv s p" if "list_all calm ts"
    using inv
  proof (cases rule: call_inv_cases)
    case (inside j k pc)
    with that have "outside_call pc" by (auto simp: list_all_length dest: spec [of _ j])
    with audio_invD(1) [OF inside(5)] show ?thesis by (simp add: outside_held)
  qed (auto dest: audio_invD(1))
  ultimately show ?thesis using call_task_safe [OF inv _ assms(1,2)] by blast
qed

text \<open>The example: a microphone command, the player well inside its first write, and a status line then.\<close>

lemma call_player_run:
  assumes "call_reach fw st0 (ts, m, st)" and "i < length ts" and "ts ! i = (k, FPlay pc)"
    and "\<forall>j < length ts. j \<noteq> i \<longrightarrow> calm (ts ! j)"
    and "fine_run (fw_audio fw) k (task_header k m) n pc st = Done (pc', st')"
  shows "call_reach fw st0 (ts[i := (k, FPlay pc')], m, st')"
  using assms
proof (induction n arbitrary: pc st ts)
  case 0
  then show ?case using list_update_id [of ts i] by simp
next
  case (Suc n)
  obtain pc1 st1 where x: "fine_exec (fw_audio fw) k (task_header k m) pc st = Done (pc1, st1)"
    "fine_run (fw_audio fw) k (task_header k m) n pc1 st1 = Done (pc', st')"
    using Suc.prems(5) by (auto split: run.splits)
  obtain s p w s1 p1 w1 where st: "st = (s, p, w)" "st1 = (s1, p1, w1)" by (metis prod_cases3)
  have "fine_task_step (fw_audio fw) m (ts ! i) (s, p, w) = Done ((k, FPlay pc1), s1, p1, w1)"
    using x(1) Suc.prems(3) st by simp
  moreover have "may_run ts i" using Suc.prems(2,4) by (simp add: may_run_def)
  ultimately have "call_reach fw st0 (ts[i := (k, FPlay pc1)], m, st1)"
    using call_next [OF Suc.prems(1) [unfolded st(1)] call_task] st by simp
  from Suc.IH [OF this _ _ _ x(2)] Suc.prems(2,4) show ?case by simp
qed

theorem firmware_safe_witness:
  "\<exists>ts m s p w k a. call_reach demo_fw ([], audio0, sys0, player_up, mem0) (ts, m, s, p, w) \<and> length ts = 2 \<and>
     ts ! 1 = (k, FPlay (F_Convert 0 0 (Some a))) \<and> \<not> h_fault (heap s) \<and>
     (\<forall>i < 2. \<exists>t' st'. fine_task_step mic_api m (ts ! i) (s, p, w) = Done (t', st'))"
proof -
  let ?st0 = "([], audio0, sys0, player_up, mem0)" and ?k = Player_recorder_case
  have a0: "audio0\<lparr>tasks := []\<rparr> = audio0" by (simp add: audio0_def)
  obtain m s p w where c: "command_exec demo_fw (CMD_PA_MIC @ []) (audio0, sys0, player_up, mem0) = Done (m, s, p, w)"
    and ts: "tasks m = [(?k, Recording R_Start), (?k, Playing P_Start)]"
    by (rule demo_command)
  have al: "audio_line (CMD_PA_MIC @ [])" by (simp only: audio_line_def demo_simps(2)) simp
  obtain r cmd where st: "start_audio mic_api cmd (audio0\<lparr>tasks := []\<rparr>, printf (echo_text (CMD_PA_MIC @ [])) sys0,
      player_up, mem0) = Done (r, m, s, p, w)"
    using audio_line_start [OF al c] unfolding a0 demo_simps(1) .
  have "tasks (audio0\<lparr>tasks := []\<rparr>) = []" by simp
  with st have "r = 0"
    by (cases rule: start_audio_cases) (use ts in \<open>auto simp: take_Cons' split: if_splits\<close>)
  with st have st: "start_audio mic_api cmd (audio0\<lparr>tasks := []\<rparr>, printf (echo_text (CMD_PA_MIC @ [])) sys0,
      player_up, mem0) = Done (0, m, s, p, w)" by simp
  have "player_inv (printf (echo_text (CMD_PA_MIC @ [])) sys0) player_up"
    using player_up_inv by (simp add: player_inv_def io_simps)
  from accepted_command [OF this st] obtain a where L: "player_inv s p" "output_buf_16 p = Some a" "output_buf_32 p \<noteq> None"
    by auto
  let ?m = "m\<lparr>tasks := []\<rparr>" and ?h = "task_header ?k (m\<lparr>tasks := []\<rparr>)"
  have "call_reach demo_fw ?st0 ([] @ map fine_of (tasks m), ?m, s, p, w)"
    by (rule call_next [OF call_init call_line [where cmdline = "CMD_PA_MIC @ []"]]) (simp, simp only: a0 c)
  then have r1: "call_reach demo_fw ?st0 ([(?k, FRec R_Start), (?k, FPlay F_Start)], ?m, s, p, w)" by (simp add: ts)
  obtain s1 p1 where 1: "fine_exec mic_api ?k ?h F_Start (s, p, w) = Done (F_Check 0 0, s1, p1, w)" "playing_on s p s1 p1"
    using start_keeps [OF L(1) _ L(3)] L(2) by (metis option.distinct(1))
  then have p1: "output_buf_16 p1 = Some a" "output_buf_32 p1 \<noteq> None" "s_channel p1 = 1"
    using L(2) by (simp_all add: playing_on_def playing_def)
  then obtain b where b: "output_buf_32 p1 = Some b" by blast
  have 2: "fine_run mic_api ?k ?h (Suc (Suc 0)) (F_Check 0 0) (s1, p1, w) = Done (F_Convert 0 0 (Some a), s1, p1, w)"
    using p1(1,3) b by simp
  from fine_run_step [OF 1(1) 2]
  have "fine_run (fw_audio demo_fw) ?k ?h (Suc (Suc (Suc 0))) F_Start (s, p, w) = Done (F_Convert 0 0 (Some a), s1, p1, w)"
    unfolding demo_simps(1) .
  from call_player_run [OF r1 _ _ _ this, of 1]
  have r2: "call_reach demo_fw ?st0 ([(?k, FRec R_Start), (?k, FPlay (F_Convert 0 0 (Some a)))], ?m, s1, p1, w)"
    by (simp add: less_Suc_eq)
  let ?ts = "[(?k, FRec R_Start), (?k, FPlay (F_Convert 0 0 (Some a)))]"
  have run: "may_run ?ts i" if "i < 2" for i using that by (auto simp: may_run_def less_2_cases_iff less_Suc_eq)
  from firmware_safe [OF _ _ player_up_inv r2, unfolded demo_simps(1), OF mic_api_ok] run
  have "\<not> h_fault (heap s1)" "\<forall>i < 2. \<exists>t' st'. fine_task_step mic_api ?m (?ts ! i) (s1, p1, w) = Done (t', st')"
    unfolding sys0_simps(5) by blast+
  with r2 show ?thesis
    by (intro exI [of _ ?ts] exI [of _ ?m] exI [of _ s1] exI [of _ p1] exI [of _ w] exI [of _ ?k] exI [of _ a]) simp
qed

end
