(* ===== verification/Command_Ends.thy ===== *)
theory Command_Ends
  imports Monitor_Props
begin

text \<open>
  How a command ends: it returns, and only the reset restarts, only the failure lamp hangs; a crash is an allocation that failed
  and was not tested, or a profile partition without a NUL.
\<close>

section \<open>How a command ends\<close>

text \<open>
  \<open>returns h g x\<close>: from the heap \<open>h\<close>, the run \<open>x\<close> returns, with allocations done at most (\<open>g\<close> reads the heap
  of the result), or it dereferences the null pointer of an allocation that failed.
\<close>

definition later :: "heap \<Rightarrow> heap \<Rightarrow> bool" where
  "later h h' \<longleftrightarrow> h_ok h' = h_ok h \<and> h_next h \<le> h_next h'"

definition no_memory :: "heap \<Rightarrow> bool" where
  "no_memory h \<longleftrightarrow> (\<exists>n \<ge> h_next h. \<not> h_ok h n)"

definition returns :: "heap \<Rightarrow> ('r \<Rightarrow> heap) \<Rightarrow> 'r run \<Rightarrow> bool" where
  "returns h g x \<longleftrightarrow> (case x of Done r \<Rightarrow> later h (g r) | Crash c \<Rightarrow> c = Null_deref \<and> no_memory h | _ \<Rightarrow> False)"

lemma later_refl [simp]: "later h h"
  by (simp add: later_def)

lemma later_trans: "later h h1 \<Longrightarrow> later h1 h2 \<Longrightarrow> later h h2"
  by (auto simp: later_def)

lemma later_no_memory: "later h h' \<Longrightarrow> no_memory h' \<Longrightarrow> no_memory h"
  by (auto simp: later_def no_memory_def intro: le_trans)

lemma later_io [simp]: "later h (snd (malloc h))" "later h (free_opt q h)"
  by (simp_all add: later_def)

lemma malloc_fails: "malloc h = (None, h') \<Longrightarrow> no_memory h"
  by (auto simp: malloc_def no_memory_def split: if_splits)

lemma later_malloc: "malloc h = (q, h') \<Longrightarrow> later h h'"
  using later_io(1) [of h] by simp

lemma io_malloc_ends:
  assumes "io_malloc s = (q, s')"
  shows "later (heap s) (heap s')" and "q = None \<Longrightarrow> no_memory (heap s)"
  using assms malloc_fails [of "heap s"] by (auto simp: io_malloc_def later_malloc split: prod.splits)

lemma later_free [simp]: "later h (heap (io_free q s)) \<longleftrightarrow> later h (heap s)"
  by (simp add: later_def io_simps)

lemma returns_Crash: "returns h g (Crash c) \<Longrightarrow> c = Null_deref \<and> no_memory h"
  by (simp add: returns_def)

lemma bus_create_ends: "returns (heap s) (\<lambda>(r, s, m, w). heap s) (i2c_bus_create api port conf (s, m, w))"
  using io_malloc_ends [of s]
  by (auto simp: i2c_bus_create_def returns_def Let_def split: option.splits prod.splits if_splits)

lemma es8156_ends: "returns (heap s) (\<lambda>(r, s, m, w). heap s) (ES8156_codec_init api gpio (s, m, w))"
  using bus_create_ends [of s api 0 "Some es_i2c_cfg" m "init_cs_pin gpio w"]
  by (auto simp: ES8156_codec_init_def es8156_i2c_init_def returns_def Let_def split: run.splits prod.splits)

lemma es7243e_ends: "returns (heap s) (\<lambda>(r, s, m, w). heap s) (es7243e_adc_init api a (s, m, w))"
  using bus_create_ends [of s api 0 "Some es_i2c_cfg" m w]
  by (auto simp: es7243e_adc_init_def es7243e_i2c_init_def returns_def Let_def io_simps
      simp del: write_regs.simps split: run.splits prod.splits)

lemma codec_init_ends: "returns (heap s) (\<lambda>(r, s, p, w). heap s) (codec_init b (s, p, w))"
proof -
  obtain r s1 w1 where i: "i2s0_init (b_i2s b) (s, w) = (r, s1, w1)" by (metis prod_cases3)
  then have h: "heap s1 = heap s" by (auto simp: i2s0_init_def Let_def io_simps split: prod.splits if_splits)
  show ?thesis
  proof (cases "r = 0")
    case False
    then show ?thesis by (simp add: codec_init_def i returns_def io_simps h)
  next
    case True
    have e1: "returns (heap s) (\<lambda>(r, s, m, w). heap s) (ES8156_codec_init (b_i2c b) (b_gpio b) (s1, p_i2c p, w1))"
      using es8156_ends [of s1] h by simp
    show ?thesis
    proof (cases "ES8156_codec_init (b_i2c b) (b_gpio b) (s1, p_i2c p, w1)")
      case (Done x)
      obtain r2 s2 m2 w2 where x: "x = (r2, s2, m2, w2)" by (cases x) auto
      have l: "later (heap s) (heap s2)" using e1 by (simp add: Done x returns_def)
      have "returns (heap s2) (\<lambda>(r, s, m, w). heap s) (es7243e_adc_init (b_i2c b) es7243e_addr0 (s2, m2, w2))"
        by (rule es7243e_ends)
      with l show ?thesis
        using later_trans [OF l] later_no_memory [OF l]
        by (auto simp: codec_init_def i True Done x returns_def split: run.splits)
    qed (use e1 i True in \<open>simp_all add: codec_init_def returns_def\<close>)
  qed
qed

lemma load_buf_ends:
  "load_buf_16 (s, p) = (fail, s', p') \<Longrightarrow> later (heap s) (heap s')"
  "load_buf_32 (s, p) = (fail, s', p') \<Longrightarrow> later (heap s) (heap s')"
  using io_malloc_ends(1) [of s]
  by (auto simp: load_buf_16_def load_buf_32_def Let_def io_simps split: if_splits prod.splits option.splits)

lemma load_driver_ends: "returns (heap s) (\<lambda>(r, s, p, w). heap s) (duer_audio_dac_load_driver b (s, p, w))"
proof -
  have c: "returns (heap s) (\<lambda>(r, s, p, w). heap s) (codec_init b (printf load_driver_text s, p, w))"
    using codec_init_ends [of "printf load_driver_text s"] by (simp add: io_simps)
  show ?thesis
  proof (cases "codec_init b (printf load_driver_text s, p, w)")
    case (Done x)
    obtain r s1 p1 w1 where x: "x = (r, s1, p1, w1)" by (cases x) auto
    obtain f2 s2 p2 where 2: "load_buf_16 (s1, p1) = (f2, s2, p2)" by (metis prod_cases3)
    obtain f3 s3 p3 where 3: "load_buf_32 (s2, p2) = (f3, s3, p3)" by (metis prod_cases3)
    have l: "later (heap s) (heap s1)" using c by (simp add: Done x returns_def)
    with load_buf_ends(1) [OF 2] load_buf_ends(2) [OF 3] show ?thesis
      by (auto simp: duer_audio_dac_load_driver_def Done x 2 3 returns_def io_simps intro: later_trans)
  qed (use c in \<open>simp_all add: duer_audio_dac_load_driver_def returns_def\<close>)
qed

lemma load_driver_no_Restart: "duer_audio_dac_load_driver b st \<noteq> Restart x" "duer_audio_dac_load_driver b st \<noteq> Hang"
  using load_driver_ends [of "fst st" b "fst (snd st)" "snd (snd st)"] by (auto simp: returns_def)

text \<open>What stands around the loading of the driver neither restarts nor crashes.\<close>

lemma start_nolinear_ends:
  assumes "drop_result (start_nolinear_case api cmdline (m, s, p, w)) = x"
  shows "(\<exists>st. x = Done st) \<or> x = Crash Null_deref \<and> no_memory (heap s)"
proof -
  have l: "returns (heap s) (\<lambda>(r, s, p, w). heap s) (duer_audio_dac_load_driver (aa_board api) (s, p, w))"
    by (rule load_driver_ends)
  show ?thesis
  proof (cases "duer_audio_dac_load_driver (aa_board api) (s, p, w)")
    case (Done y)
    have "\<exists>z. start_nolinear_case api cmdline (m, s, p, w) = Done z"
      by (simp add: start_nolinear_case_def Done Let_def split: prod.splits)
    then show ?thesis using assms by fastforce
  qed (use l in \<open>auto simp: assms [symmetric] start_nolinear_case_def returns_def Let_def\<close>)
qed

lemma start_player_recorder_ends:
  assumes "drop_result (start_player_recorder_case api type cmdline (m, s, p, w)) = x"
  shows "(\<exists>st. x = Done st) \<or> x = Crash Null_deref \<and> no_memory (heap s)"
proof -
  have l: "returns (heap s) (\<lambda>(r, s, p, w). heap s) (duer_audio_dac_load_driver (aa_board api) (s, p, w))"
    by (rule load_driver_ends)
  show ?thesis
  proof (cases "duer_audio_dac_load_driver (aa_board api) (s, p, w)")
    case (Done y)
    have "\<exists>z. start_player_recorder_case api type cmdline (m, s, p, w) = Done z"
      by (simp add: start_player_recorder_case_def Done Let_def split: prod.splits)
    then show ?thesis using assms by fastforce
  qed (use l in \<open>auto simp: assms [symmetric] start_player_recorder_case_def returns_def Let_def\<close>)
qed

lemma get_param_later: "get_param src s = (q, s') \<Longrightarrow> later (heap s) (heap s')"
  using io_malloc_ends(1) [of s] by (auto simp: get_param_def Let_def split: option.splits prod.splits)

lemma start_profile_ends:
  assumes "start_profile_case api params (s, w) = x"
  shows "(\<exists>st. x = Done st) \<or> x = Crash Null_deref \<and> no_memory (heap s)"
proof -
  let ?t1 = "second_quote params"
  let ?t2 = "second_quote (tl ?t1)"
  let ?t3 = "second_quote (tl ?t2)"
  obtain q1 s1 where 1: "get_param params s = (q1, s1)" by (metis prod.exhaust)
  obtain q2 s2 where 2: "get_param (tl ?t1) s1 = (q2, s2)" by (metis prod.exhaust)
  obtain q3 s3 where 3: "get_param (tl ?t2) s2 = (q3, s3)" by (metis prod.exhaust)
  obtain q4 s4 where 4: "get_param (tl ?t3) s3 = (q4, s4)" by (metis prod.exhaust)
  obtain q5 s5 where 5: "io_malloc s4 = (q5, s5)" by (metis prod.exhaust)
  have "later (heap s) (heap s4)"
    using get_param_later [OF 1] get_param_later [OF 2] get_param_later [OF 3] get_param_later [OF 4]
    by (metis later_trans)
  then have "q5 = None \<Longrightarrow> no_memory (heap s)" using io_malloc_ends(2) [OF 5] later_no_memory by blast
  then show ?thesis
    using assms by (auto simp: start_profile_case_def 1 2 3 4 5 Let_def split: option.splits prod.splits)
qed

text \<open>The flash content behind a read of the profile that prints beyond its buffer.\<close>

definition unterminated :: "'w part_api \<Rightarrow> 'w \<Rightarrow> bool" where
  "unterminated api w \<longleftrightarrow> (case part_find api PROFILE_PARTITION ''profile'' w of
     None \<Rightarrow> False
   | Some part \<Rightarrow> (case part_read api part 0 (part_size api part) w of ((r, bs), w') \<Rightarrow> r = ESP_OK \<and> 0 \<notin> set bs))"

lemma profile_read_ends:
  assumes "profile_read api (s, w) = x"
  shows "(\<exists>st. x = Done st) \<or> x = Crash Null_deref \<and> no_memory (heap s) \<or> x = Crash Out_of_bounds \<and> unterminated api w"
  using assms io_malloc_ends(2) [of s]
  by (auto simp: profile_read_def unterminated_def Let_def split: option.splits prod.splits if_splits)

text \<open>
  C2. How a command ends, in any state: every command line returns, but the reset restarts the chip
  and the failure lamp never ends.  A crash is a null pointer from an allocation that fails, in an audio
  command or one of the two profile commands, or the printing of a profile partition that holds no NUL.  The
  one byte that a profile command reads behind its block is not counted as a crash.
\<close>

theorem command_outcomes:
  "case command_exec fw cmdline (m, s, p, w) of
     Done st \<Rightarrow> dispatch cmdline \<notin> {Reset, Fail}
   | Restart st \<Rightarrow> dispatch cmdline = Reset
   | Hang \<Rightarrow> dispatch cmdline = Fail
   | Crash c \<Rightarrow>
       c = Null_deref \<and> dispatch cmdline \<in> {Pa_mic, Mic_seal, Nolinear, Profile, Read_profile} \<and>
         (\<exists>n \<ge> h_next (heap s). \<not> h_ok (heap s) n) \<or>
       c = Out_of_bounds \<and> dispatch cmdline = Read_profile \<and> unterminated (fw_part fw) w"
proof -
  let ?s = "printf (echo_text cmdline) s"
  let ?h = "handle fw (dispatch cmdline) cmdline (m, ?s, p, w)"
  have h: "heap ?s = heap s" by (simp add: io_simps)
  note mic = start_player_recorder_ends [of "fw_audio fw" _ cmdline m ?s p w, OF refl, unfolded h]
    and nolinear = start_nolinear_ends [of "fw_audio fw" cmdline m ?s p w, OF refl, unfolded h]
    and profile = start_profile_ends [of "fw_part fw" cmdline ?s w, OF refl, unfolded h]
    and rdprof = profile_read_ends [of "fw_part fw" ?s w, OF refl, unfolded h]
  have "case ?h of Done st \<Rightarrow> dispatch cmdline \<notin> {Reset, Fail} | Restart st \<Rightarrow> dispatch cmdline = Reset
   | Hang \<Rightarrow> dispatch cmdline = Fail
   | Crash c \<Rightarrow>
       c = Null_deref \<and> dispatch cmdline \<in> {Pa_mic, Mic_seal, Nolinear, Profile, Read_profile} \<and> no_memory (heap s) \<or>
       c = Out_of_bounds \<and> dispatch cmdline = Read_profile \<and> unterminated (fw_part fw) w"
  proof (cases "dispatch cmdline")
    case Pa_mic show ?thesis using mic [of 0] unfolding Pa_mic handle.simps by (elim disjE exE conjE) simp_all
  next case Mic_seal show ?thesis using mic [of 1] unfolding Mic_seal handle.simps by (elim disjE exE conjE) simp_all
  next case Nolinear show ?thesis using nolinear unfolding Nolinear handle.simps by (elim disjE exE conjE) simp_all
  next case Profile show ?thesis using profile unfolding Profile handle.simps on_sys.simps
      by (elim disjE exE conjE) (auto split: prod.splits)
  next case Read_profile show ?thesis using rdprof unfolding Read_profile handle.simps on_sys.simps
      by (elim disjE exE conjE) (auto split: prod.splits)
  qed (auto simp: start_reset_system_def start_test_fail_def test_fail_loop_None split: prod.splits)
  then show ?thesis unfolding command_exec_def prod.case no_memory_def .
qed
end
