(* ===== verification/Spec2Isabelle.thy ===== *)
theory Spec2Isabelle
  imports Result_Out Command_Match Commands Sn_Case System_Control Dsp_Case Tas5805m Pa_Config Es8156
    Es7243e Resample_Signal Resample_Channels Player_Stream Audio_Runs Nolinear_Tasks Audio_Race
    Monitor_Schedules Driver_Calls Command_Ends
begin

text \<open>
  The factory test firmware of a voice board with an ESP32: a verification development.

  \<^bold>\<open>The program.\<close>  The host sends commands over the serial line ("prod\_test \<dots>").  \<open>app_main\<close>
  (main/main.c) prepares the flash and starts one command task (main/command\_monitor.c), which reads
  a line, compares it with the commands and calls a case (main/case/): serial number, profile,
  system control, check of the DSP, and the audio cases, which load the audio driver
  (components/player/bds\_player.c), start a task that plays a sound and one that records the
  microphones, and send the recording to the host (main/result\_out.c).  The driver writes to an I2S
  channel through a sample rate converter (audio\_resample.c) and programs the codec (es8156.c), the
  converter of the microphones (es7243e.c, es7243e\_driver.c) and the amplifier (tas5805m.c,
  pa\_config.c, with a table of registers) over an I2C bus (i2c\_bus.c).

  \<^bold>\<open>How it is modelled.\<close>  What lies outside the repository (ESP-IDF, FreeRTOS, the binary voice SDK) is
  a record of functions over an abstract world \<open>'w\<close>: \<open>i2c_api\<close>, \<open>gpio_api\<close>, \<open>i2s_api\<close>, \<open>nvs_api\<close>, \<open>part_api\<close>,
  \<open>bds_api\<close>, \<open>audio_api\<close>, \<open>firmware\<close>.  What the properties need of it is a named predicate that states
  its documentation (\<open>i2c_documented\<close>, \<open>nvs_documented\<close>, \<open>flash_documented\<close>, \<open>pcm_documented\<close>, \<dots>); concrete
  worlds that fulfil them (\<open>mem_api\<close>, \<open>mem_nvs\<close>, \<open>mem_flash\<close>, \<open>mic_api\<close>, \<dots>) show that they can hold.  The
  state of the program is passed explicitly: \<open>io\<close> holds the serial output, a clock of the delays and
  the heap, \<open>sys\<close> adds the frame counter, \<open>player\<close> the static variables of the player, \<open>i2c_mod\<close> those of
  the bus, \<open>audio\<close> those of the audio cases and their tasks.  A function that may not come back
  normally answers a \<open>run\<close>: \<open>Done\<close>, \<open>Restart\<close>, \<open>Hang\<close> or \<open>Crash\<close> with the kind of undefined behaviour.

  \<^bold>\<open>The theories.\<close>
  \<^item> Prelude, Platform: C strings, numbers as text, bytes; the heap (locale \<open>allocator\<close>, interpreted
    as \<open>hp\<close>), the output, \<open>run\<close>.
  \<^item> Commands, Command\_Match: the protocol's texts; \<open>my_getline\<close>, \<open>trim_trailing_space\<close>, \<open>string_equal\<close> and
    \<open>string_content\<close> (locale \<open>matcher\<close>).  Their exact meaning: prefix, stripping, a scan without going back.
  \<^item> Result\_Out: result lines and the framing of a recording: frame layout, count and numbering of the
    frames, the round trip of the data, no leak; \<open>crlf\<close> is what the console makes of the bytes.
  \<^item> Sn\_Case, System\_Control, Dsp\_Case: the cases without audio.  Round trips over the flash, the
    answer on every branch, ownership of every allocated block.
  \<^item> I2c\_Bus: the bus, its table of objects and its lock, and the locales \<open>reg_writer\<close> and \<open>reg_device\<close> that
    the chip drivers share: writing a list of registers on a documented bus has the effect of
    \<open>apply_regs\<close>.  Es8156, Es7243e, Tas5805m interpret them with their own write and read functions.
  \<^item> Pa\_Table, Pa\_Config: the table of 1680 register entries of tas5805\_agc\_drc3\_eq0.h, entry by entry, its
    interpreter and the two interpreters of configuration texts.
  \<^item> Float32, Resample: single precision arithmetic and the converter, with every buffer access
    checked (locale \<open>converter\<close> for what all conversions share).  Resample\_Stream follows a stream over
    any number of blocks: the locale \<open>conversion_loop\<close> describes a loop of the converter by the input
    position of each output sample, \<open>in_step\<close> says that the counters fit the stream, and each block
    keeps it, so no rounding adds up.  A block needs at least the six samples of the delay line for each channel
    (\<open>block_ok\<close>, with at most one second and room in the output); a shorter one reads in front of the block.
  \<^item> Resample\_Signal: what the converter computes of one channel.  A sample is a value of the signal
    interpolated at its number (\<open>signal_at\<close>), which no block border shows in; the filter over a stream is
    \<open>dc_filter\<close>; and the interpolation is the straight line (\<open>lerp\<close>) up to stated rounding.
    Resample\_Channels: a stereo conversion is two conversions of one channel, the down mix is one,
    and two ways of cutting a stream into blocks sound the same for one channel or two.
  \<^item> Player, Player\_Props: the audio driver; its invariant \<open>player_inv\<close> relates the two output buffers
    to the heap.  Player\_Stream: writing a whole stream of any format.
  \<^item> Audio\_Cases, Audio\_Props, Audio\_Runs: the audio cases.  A task is a program counter; \<open>audio_step\<close>
    interleaves the steps of all tasks with further commands, \<open>audio_reach\<close> is what can be reached,
    \<open>audio_inv\<close> its invariant.  Audio\_Runs follows one task to its end; \<open>heard\<close> is what is heard of a block.
  \<^item> Audio\_Schedules: the tasks under a scheduler, a list of the tasks that run (\<open>run_tasks\<close>).  \<open>turns\<close> bounds
    the turns a task has left; \<open>recording_ok\<close> says at each program counter of a recorder what the
    host has and what is still to be sent.
  \<^item> Nolinear\_Tasks: the two task functions of nolinear\_case.c as sequential code, and that the step
    machines of Audio\_Cases come to the same end.
  \<^item> Audio\_Race: the player cut at its single accesses to the shared buffers (\<open>fine_exec\<close>, \<open>fine_step\<close>); that
    the pieces add up to \<open>player_exec\<close>; a schedule of two accepted commands that uses a released
    buffer; and safety of all schedules with one player at a time (\<open>fine_inv\<close>).
  \<^item> Monitor, Monitor\_Props: the command task and the start of the system; \<open>fw_step\<close> and \<open>fw_reach\<close> add
    the commands of the monitor to the tasks.  Monitor\_Schedules: every test ends in every schedule that gives
    each task its turns, and a microphone command delivers to the host what the microphones delivered to it.
    Command\_Ends: which commands return, restart, hang or crash, and on what.
  \<^item> Driver\_Calls: the whole firmware with the small steps of Audio\_Race, in every order that does not
    put a call of the audio driver into another player's call of it (\<open>may_run\<close>, \<open>call_inv\<close>).
  \<^item> Board\_Pins: the wiring of the two boards by the build's configuration.

  \<^bold>\<open>Loops.\<close>  Loops over data are functions with a termination proof.  The loops of the converter end
  because each round stores inside the output buffer or fails.  The wait for a command and the
  lamp of the failed test may go on forever: \<open>partial_function (option)\<close>, \<open>None\<close> is not returning.  The
  command task is a number of rounds.  \<open>player_run\<close> and \<open>recorder_run\<close> take fuel: 940 (190) steps are
  enough for the player, twice the size of the recording and five more for the recorder; the
  properties state that the end is reached.

  \<^bold>\<open>Bounds.\<close>  Bytes are \<open>8 word\<close>, samples \<open>16 word\<close>, \<open>size_t\<close> differences \<open>32 word\<close>.  \<open>int\<close> counters that stay
  small by construction are integers.  A \<open>char\<close> is unsigned, as on this processor.  Floats are rational
  numbers rounded to 24 bits after every operation, without infinities and without contraction of
  a product and a sum.

  \<^bold>\<open>Not modelled.\<close>
  \<^item> Log lines (\<open>ESP_LOG\<dots>\<close>), blocks under \<open>#if 0\<close>, and \<open>calc_cksum\<close>, which is constant and never called.
  \<^item> The headers of the voice SDK, the generated files under build/, the sound files (a parameter).
  \<^item> \<open>start_mic_seal_case\<close>: no file defines it; it is a parameter of the dead branch that calls it.
  \<^item> Preemption inside a step and priorities.  In Audio\_Cases a step is the stretch of code between two
    delays or library calls that the program counter names, so what Audio\_Props, Audio\_Schedules and
    Monitor\_Schedules say holds for schedules that do not interrupt a write or the unloading of the
    driver; Audio\_Race shows what happens when they do, and Driver\_Calls is at that granularity.  There a
    conversion of one frame is still one step, and everywhere a command is one step.
  \<^item> The stack (automatic arrays apart) and the memory behind a block, beyond what is read of it.
\<close>

end
